(* ===== verification/GoBase.thy ===== *)
theory GoBase
  imports Complex_Main "HOL-Library.Word"
begin

text \<open>
  The prelude of the development: the part of the Go language and of its standard library
  that every component of Open VCC uses.
  \<^item> Go's \<^verbatim>\<open>int\<close>, \<^verbatim>\<open>int64\<close> and \<^verbatim>\<open>time.Duration\<close> are 64-bit: they are \<open>int\<close> values,
    and every addition the code performs on them goes through \<open>wrap64\<close>.  \<^verbatim>\<open>uint64\<close> is
    \<open>64 word\<close>.  Go's \<^verbatim>\<open>%\<close> truncates (\<open>go_rem\<close>).
  \<^item> \<^verbatim>\<open>time.Time\<close> is a number of nanoseconds; \<^verbatim>\<open>Time.Sub\<close> saturates (\<open>sat64\<close>).
  \<^item> \<^verbatim>\<open>float64\<close> values read from the configuration are \<open>f64\<close>: a finite value (as an
    exact rational), an infinity or NaN, with Go's comparisons.
  \<^item> strings are byte strings; \<^verbatim>\<open>strings.ToLower\<close>, \<^verbatim>\<open>ToUpper\<close> and \<^verbatim>\<open>TrimSpace\<close> are their
    restriction to ASCII text.
  The collections \<open>pick_simps\<close> and \<open>step_simps\<close> gather the rewrite rules the component
  theories share.
\<close>

named_theorems pick_simps \<open>rewrite rules for backend selection\<close>
named_theorems step_simps \<open>rewrite rules for state updates of handlers\<close>

section \<open>Machine integers\<close>

type_synonym u64 = "64 word"
type_synonym u32 = "32 word"

text \<open>Two's complement reduction of a mathematical integer to \<^verbatim>\<open>int64\<close>.\<close>

definition wrap64 :: "int \<Rightarrow> int" where
  "wrap64 x = (x + 2 ^ 63) mod 2 ^ 64 - 2 ^ 63"

text \<open>The saturating conversion of \<^verbatim>\<open>Time.Sub\<close>.\<close>

definition sat64 :: "int \<Rightarrow> int" where
  "sat64 x = max (- (2 ^ 63)) (min (2 ^ 63 - 1) x)"

definition in_int64 :: "int \<Rightarrow> bool" where
  "in_int64 x \<longleftrightarrow> - (2 ^ 63) \<le> x \<and> x < 2 ^ 63"

text \<open>Go's \<^verbatim>\<open>int(u)\<close> for a \<^verbatim>\<open>uint64\<close>, and its truncating remainder.\<close>

definition int_of_u64 :: "u64 \<Rightarrow> int" where
  "int_of_u64 u = wrap64 (uint u)"

definition go_rem :: "int \<Rightarrow> int \<Rightarrow> int" where
  "go_rem a b = sgn a * (\<bar>a\<bar> mod \<bar>b\<bar>)"

lemma wrap64_id [simp]: "in_int64 x \<Longrightarrow> wrap64 x = x"
  by (simp add: wrap64_def in_int64_def)

lemma in_int64_wrap64 [simp]: "in_int64 (wrap64 x)"
proof -
  have "0 \<le> (x + 2 ^ 63) mod 2 ^ 64" and "(x + 2 ^ 63) mod 2 ^ 64 < (2 ^ 64 :: int)"
    by simp_all
  then show ?thesis by (simp add: in_int64_def wrap64_def)
qed

lemma wrap64_wrap64_add [simp]: "wrap64 (wrap64 x + y) = wrap64 (x + y)"
proof -
  have "((a mod m - k) + y + k) mod m = (a + y) mod m" for a m k :: int
  proof -
    have "(a mod m - k) + y + k = a mod m + y" by simp
    then show ?thesis by (simp add: mod_add_left_eq)
  qed
  from this [of "x + 2 ^ 63" "2 ^ 64" "2 ^ 63"] show ?thesis
    unfolding wrap64_def by (simp only: ac_simps)
qed

lemma wrap64_add_wrap64 [simp]: "wrap64 (x + wrap64 y) = wrap64 (x + y)"
  by (metis add.commute wrap64_wrap64_add)

lemma wrap64_wrap64_diff [simp]: "wrap64 (wrap64 x - y) = wrap64 (x - y)"
  using wrap64_wrap64_add [of x "- y"] by (simp del: wrap64_wrap64_add)

lemma wrap64_0 [simp]: "wrap64 0 = 0"
  by (simp add: in_int64_def)

lemma in_int64_small: "0 \<le> x \<Longrightarrow> x < 2 ^ 63 \<Longrightarrow> in_int64 x"
  by (simp add: in_int64_def)

lemma sat64_id [simp]: "in_int64 x \<Longrightarrow> sat64 x = x"
  by (auto simp: sat64_def in_int64_def)

lemma sat64_less: "in_int64 d \<Longrightarrow> sat64 x < d \<longleftrightarrow> x < d \<and> - (2 ^ 63) < d"
  by (auto simp: sat64_def in_int64_def)

lemma go_rem_nonneg: "0 \<le> a \<Longrightarrow> 0 < b \<Longrightarrow> go_rem a b = a mod b"
  by (cases "a = 0") (simp_all add: go_rem_def)

lemma go_rem_int: "0 < n \<Longrightarrow> go_rem (int a) (int n) = int (a mod n)"
  by (simp add: go_rem_nonneg zmod_int)

lemma go_rem_neg: "a < 0 \<Longrightarrow> 0 < b \<Longrightarrow> go_rem a b \<le> 0"
  by (simp add: go_rem_def)

lemma wrap64_length: "length xs < 2 ^ 63 \<Longrightarrow> wrap64 (int (length (filter P xs))) = int (length (filter P xs))"
proof -
  assume "length xs < 2 ^ 63"
  then have "length (filter P xs) < 2 ^ 63" using length_filter_le [of P xs] by linarith
  then have "int (length (filter P xs)) < int (2 ^ 63)" by (simp only: of_nat_less_iff)
  then show ?thesis by (intro wrap64_id in_int64_small) simp_all
qed

lemma int_of_u64_small: "uint u < 2 ^ 63 \<Longrightarrow> int_of_u64 u = uint u"
  unfolding int_of_u64_def by (rule wrap64_id) (simp add: in_int64_def order_trans [OF _ uint_ge_0])

lemma int_of_u64_unat: "unat u < 2 ^ 63 \<Longrightarrow> int_of_u64 u = int (unat u)"
proof -
  assume "unat u < 2 ^ 63"
  then have "int (unat u) < int (2 ^ 63)" by (simp only: of_nat_less_iff)
  then have "uint u < 2 ^ 63" by simp
  then show ?thesis by (simp only: int_of_u64_small uint_nat)
qed

lemma int_of_u64_big: "2 ^ 63 \<le> uint u \<Longrightarrow> int_of_u64 u = uint u - 2 ^ 64"
proof -
  assume a: "2 ^ 63 \<le> uint u"
  have b: "uint u < 2 ^ 64" using uint_lt2p[of u] by simp
  have "(uint u + 2 ^ 63) mod 2 ^ 64 = uint u + 2 ^ 63 - 2 ^ 64"
    using a b by (subst mod_pos_geq) auto
  then show ?thesis by (simp add: int_of_u64_def wrap64_def)
qed

section \<open>Floating-point configuration values\<close>

datatype f64 = Fin rat | PosInf | NegInf | NaN

fun f64_le :: "f64 \<Rightarrow> f64 \<Rightarrow> bool" where
  "f64_le NaN _ = False"
| "f64_le _ NaN = False"
| "f64_le NegInf _ = True"
| "f64_le _ PosInf = True"
| "f64_le (Fin a) (Fin b) = (a \<le> b)"
| "f64_le _ _ = False"

fun f64_less :: "f64 \<Rightarrow> f64 \<Rightarrow> bool" where
  "f64_less NaN _ = False"
| "f64_less _ NaN = False"
| "f64_less NegInf b = (b \<noteq> NegInf)"
| "f64_less a PosInf = (a \<noteq> PosInf)"
| "f64_less (Fin a) (Fin b) = (a < b)"
| "f64_less _ _ = False"

definition f64_eq :: "f64 \<Rightarrow> f64 \<Rightarrow> bool" where
  "f64_eq a b \<longleftrightarrow> a = b \<and> a \<noteq> NaN"

section \<open>Strings\<close>

definition is_space :: "char \<Rightarrow> bool" where
  "is_space c \<longleftrightarrow> (of_char c :: nat) \<in> {9, 10, 11, 12, 13, 32}"

definition trim_space :: "string \<Rightarrow> string" where
  "trim_space s = rev (dropWhile is_space (rev (dropWhile is_space s)))"

definition lower_char :: "char \<Rightarrow> char" where
  "lower_char c = (if 65 \<le> (of_char c :: nat) \<and> (of_char c :: nat) \<le> 90
     then char_of ((of_char c :: nat) + 32) else c)"

definition upper_char :: "char \<Rightarrow> char" where
  "upper_char c = (if 97 \<le> (of_char c :: nat) \<and> (of_char c :: nat) \<le> 122
     then char_of ((of_char c :: nat) - 32) else c)"

definition to_lower :: "string \<Rightarrow> string" where
  "to_lower s = List.map lower_char s"

definition to_upper :: "string \<Rightarrow> string" where
  "to_upper s = List.map upper_char s"

definition has_prefix :: "string \<Rightarrow> string \<Rightarrow> bool" where
  "has_prefix p s \<longleftrightarrow> take (length p) s = p"

definition trim_prefix :: "string \<Rightarrow> string \<Rightarrow> string" where
  "trim_prefix p s = (if has_prefix p s then drop (length p) s else s)"

lemma has_prefix_append [simp]: "has_prefix p (p @ s)"
  by (simp add: has_prefix_def)

lemma has_prefix_iff: "has_prefix p s \<longleftrightarrow> (\<exists>r. s = p @ r)"
  by (auto simp: has_prefix_def) (metis append_take_drop_id)

lemma trim_prefix_append [simp]: "trim_prefix p (p @ s) = s"
  by (simp add: trim_prefix_def)

lemma trim_space_id: "s = [] \<or> \<not> is_space (hd s) \<and> \<not> is_space (last s) \<Longrightarrow> trim_space s = s"
proof (cases s)
  case (Cons c r)
  assume "s = [] \<or> \<not> is_space (hd s) \<and> \<not> is_space (last s)"
  with Cons have h: "\<not> is_space (hd s)" and l: "\<not> is_space (hd (rev s))" and n: "rev s \<noteq> []"
    by (simp_all only: hd_rev list.simps rev_is_Nil_conv simp_thms)
  from h Cons have "dropWhile is_space s = s" by simp
  moreover from l n have "dropWhile is_space (rev s) = rev s"
    by (cases "rev s") auto
  ultimately show ?thesis by (simp add: trim_space_def)
qed (simp add: trim_space_def)

section \<open>Lists and maps\<close>

text \<open>First element of a list that satisfies a test, as the code's search loops return it.\<close>

fun find_first :: "('a \<Rightarrow> bool) \<Rightarrow> 'a list \<Rightarrow> 'a option" where
  "find_first p [] = None"
| "find_first p (x # xs) = (if p x then Some x else find_first p xs)"

lemma find_first_Some: "find_first p xs = Some x \<Longrightarrow> x \<in> set xs \<and> p x"
  by (induction xs) (auto split: if_splits)

lemma find_first_None_iff: "find_first p xs = None \<longleftrightarrow> (\<forall>x \<in> set xs. \<not> p x)"
  by (induction xs) auto

lemma find_first_cong: "(\<And>x. x \<in> set xs \<Longrightarrow> p x = q x) \<Longrightarrow> find_first p xs = find_first q xs"
  by (induction xs) simp_all

lemma find_first_append:
  "find_first p (xs @ ys) = (case find_first p xs of None \<Rightarrow> find_first p ys | Some x \<Rightarrow> Some x)"
  by (induction xs) auto

lemma find_first_unique:
  assumes "x \<in> set xs" and "p x" and uniq: "\<forall>y \<in> set xs. p y \<longrightarrow> y = x"
  shows "find_first p xs = Some x"
proof (cases "find_first p xs")
  case None
  with assms(1,2) show ?thesis using find_first_None_iff [of p xs] by blast
next
  case (Some y)
  with uniq show ?thesis using find_first_Some [OF Some] by blast
qed

text \<open>The loop that removes the first match, \<^verbatim>\<open>append(xs[:i], xs[i+1:]...)\<close>.\<close>

fun remove_first :: "('a \<Rightarrow> bool) \<Rightarrow> 'a list \<Rightarrow> 'a list" where
  "remove_first p [] = []"
| "remove_first p (x # xs) = (if p x then xs else x # remove_first p xs)"

lemma set_remove_first_subset: "set (remove_first p xs) \<subseteq> set xs"
  by (induction xs) auto

lemma remove_first_unique:
  "distinct (List.map f xs) \<Longrightarrow> remove_first (\<lambda>x. f x = n) xs = filter (\<lambda>x. f x \<noteq> n) xs"
proof (induction xs)
  case (Cons x xs)
  show ?case
  proof (cases "f x = n")
    case True
    with Cons.prems have "n \<notin> f ` set xs" by simp
    then have "\<forall>y \<in> set xs. f y \<noteq> n" by blast
    then have "filter (\<lambda>x. f x \<noteq> n) xs = xs" by (rule filter_True)
    with True show ?thesis by simp
  next
    case False
    with Cons show ?thesis by simp
  qed
qed simp

lemma mod_pos_lt: "n > 0 \<Longrightarrow> (k::nat) mod n < n"
  by simp

section \<open>Segments\<close>

text \<open>A string cut at its slashes.\<close>

fun slash_split :: "string \<Rightarrow> string list" where
  "slash_split [] = [[]]"
| "slash_split (c # cs) =
     (if c = CHR ''/'' then [] # slash_split cs
      else (c # hd (slash_split cs)) # tl (slash_split cs))"

lemma slash_split_ne [simp]: "slash_split s \<noteq> []"
  by (induction s) auto

lemma slash_split_one: "CHR ''/'' \<notin> set s \<Longrightarrow> slash_split s = [s]"
  by (induction s) auto

lemma slash_split_join: "slash_split (s @ CHR ''/'' # t) = slash_split s @ slash_split t"
  by (induction s) auto

lemma slash_split_tail:
  "CHR ''/'' \<notin> set t \<Longrightarrow> slash_split (s @ t) = butlast (slash_split s) @ [last (slash_split s) @ t]"
proof (induction s)
  case (Cons c s)
  show ?case
  proof (cases "c = CHR ''/''")
    case False
    obtain x xs where x: "slash_split s = x # xs" by (cases "slash_split s") simp_all
    with Cons False show ?thesis by (cases xs) simp_all
  qed (use Cons in simp)
qed (simp add: slash_split_one)

section \<open>Decimal numbers\<close>

text \<open>\<^verbatim>\<open>strconv.Itoa\<close>.\<close>

fun digits :: "nat \<Rightarrow> string" where
  "digits n = (if n < 10 then [char_of (48 + n)] else digits (n div 10) @ [char_of (48 + n mod 10)])"

declare digits.simps [simp del]

definition itoa :: "int \<Rightarrow> string" where
  "itoa n = (if n < 0 then CHR ''-'' # digits (nat (- n)) else digits (nat n))"

end
