(* ===== verification/Ewma64.thy ===== *)
theory Ewma64
  imports GoBase "HOL-Library.Log_Nat"
begin

text \<open>
  The floating-point arithmetic of \<^verbatim>\<open>Backend.RecordLatency\<close> (\<^verbatim>\<open>internal/pool/pool.go\<close>):
  IEEE 754 binary64, round to nearest, ties to even, no fused multiply-add.  Every
  number the routine forms is non-negative and far from the exponent limits, so a
  double is a natural number together with a fixed power-of-two scale, and rounding a
  result is rounding its numerator to 53 significant bits.  The Go constants 0.1 and
  0.9 are exact until they meet a \<^verbatim>\<open>float64\<close> operand; then they are the doubles
  \<open>alpha_num / 2 ^ 55\<close> and \<open>beta_num / 2 ^ 53\<close>.
  The lemmas bound the average between its inputs and show that it never falls back
  to 0, the value the routing strategies read as "no sample yet".
\<close>

section \<open>Rounding to 53 significant bits\<close>

text \<open>\<open>n / 2 ^ s\<close> rounded to the nearest integer, ties to even.\<close>

definition rne :: "nat \<Rightarrow> nat \<Rightarrow> nat" where
  "rne n s = (let q = n div 2 ^ s; r = n mod 2 ^ s
     in if 2 * r < 2 ^ s \<or> (2 * r = 2 ^ s \<and> even q) then q else q + 1)"

definition round53 :: "nat \<Rightarrow> nat" where
  "round53 n = (let s = floorlog 2 n - 53 in rne n s * 2 ^ s)"

definition alpha_num :: nat where
  "alpha_num = 3602879701896397"

definition beta_num :: nat where
  "beta_num = 8106479329266893"

text \<open>\<^verbatim>\<open>uint64(float64(sample)*alpha + float64(cur)*(1-alpha))\<close> for \<^verbatim>\<open>alpha = 0.1\<close>.\<close>

definition ewma :: "nat \<Rightarrow> nat \<Rightarrow> nat" where
  "ewma sample cur =
     (let p = round53 (round53 sample * alpha_num);
          q = round53 (round53 cur * beta_num)
      in round53 (p + 4 * q) div 2 ^ 55)"

section \<open>Error bounds\<close>

lemma rne_0 [simp]: "rne n 0 = n"
  by (simp add: rne_def)

lemma rne_le: "rne n s \<le> n div 2 ^ s + 1"
  by (simp add: rne_def Let_def)

lemma rne_ge: "n div 2 ^ s \<le> rne n s"
  by (simp add: rne_def Let_def)

lemma rne_upper: "2 * (rne n s * 2 ^ s) \<le> 2 * n + 2 ^ s"
proof -
  define q r where "q = n div 2 ^ s" and "r = n mod 2 ^ s"
  have n: "n = q * 2 ^ s + r" unfolding q_def r_def by (rule div_mult_mod_eq [symmetric])
  show ?thesis
    unfolding rne_def Let_def q_def [symmetric] r_def [symmetric]
    by (auto simp: n algebra_simps)
qed

lemma rne_lower: "2 * n \<le> 2 * (rne n s * 2 ^ s) + 2 ^ s"
proof -
  define q r where "q = n div 2 ^ s" and "r = n mod 2 ^ s"
  have n: "n = q * 2 ^ s + r" unfolding q_def r_def by (rule div_mult_mod_eq [symmetric])
  have "r < 2 ^ s" by (simp add: r_def)
  then show ?thesis
    unfolding rne_def Let_def q_def [symmetric] r_def [symmetric]
    by (auto simp: n algebra_simps)
qed

lemma rne_mono: "n \<le> m \<Longrightarrow> rne n s \<le> rne m s"
proof (cases "n div 2 ^ s = m div 2 ^ s")
  case True
  assume "n \<le> m"
  have "n = n div 2 ^ s * 2 ^ s + n mod 2 ^ s" and "m = m div 2 ^ s * 2 ^ s + m mod 2 ^ s"
    by (rule div_mult_mod_eq [symmetric])+
  with \<open>n \<le> m\<close> True have "n mod 2 ^ s \<le> m mod 2 ^ s"
    by (metis add_le_cancel_left)
  with True show ?thesis by (auto simp: rne_def Let_def)
next
  case False
  assume "n \<le> m"
  with False have "n div 2 ^ s < m div 2 ^ s" using div_le_mono le_neq_implies_less by blast
  with rne_le [of n s] rne_ge [of m s] show ?thesis by linarith
qed

lemma floorlog_lower: "0 < floorlog 2 n - 53 \<Longrightarrow> 2 ^ (floorlog 2 n - 53 + 52) \<le> n"
proof -
  assume a: "0 < floorlog 2 n - 53"
  then have "n > 0" by (cases n) (simp_all add: floorlog_def)
  then have "2 ^ (floorlog 2 n - 1) \<le> n" using floorlog_bounds [of n 2] by simp
  with a show ?thesis by (simp add: algebra_simps)
qed

lemma floorlog_upper: "n < 2 ^ (floorlog 2 n - 53 + 53)"
proof (cases "n = 0")
  case False
  then have "n < 2 ^ floorlog 2 n" using floorlog_bounds [of n 2] by simp
  also have "\<dots> \<le> 2 ^ (floorlog 2 n - 53 + 53)" by (rule power_increasing) simp_all
  finally show ?thesis .
qed simp

lemma round53_upper: "round53 n * 2 ^ 53 \<le> n * (2 ^ 53 + 1)"
proof (cases "floorlog 2 n - 53 = 0")
  case True
  then show ?thesis by (simp add: round53_def)
next
  case False
  define s where "s = floorlog 2 n - 53"
  have "2 ^ (s + 52) \<le> n" using False floorlog_lower by (simp add: s_def)
  moreover have "2 * (rne n s * 2 ^ s) \<le> 2 * n + 2 ^ s" by (rule rne_upper)
  ultimately have "(rne n s * 2 ^ s) * 2 ^ 53 \<le> n * 2 ^ 53 + n"
    by (simp add: power_add)
  then show ?thesis by (simp add: round53_def s_def Let_def)
qed

lemma round53_lower: "n * (2 ^ 53 - 1) \<le> round53 n * 2 ^ 53"
proof (cases "floorlog 2 n - 53 = 0")
  case True
  then show ?thesis by (simp add: round53_def)
next
  case False
  define s where "s = floorlog 2 n - 53"
  have "2 ^ (s + 52) \<le> n" using False floorlog_lower by (simp add: s_def)
  moreover have "2 * n \<le> 2 * (rne n s * 2 ^ s) + 2 ^ s" by (rule rne_lower)
  ultimately have "n * 2 ^ 53 \<le> (rne n s * 2 ^ s) * 2 ^ 53 + n"
    by (simp add: power_add)
  then show ?thesis by (simp add: round53_def s_def Let_def)
qed

lemma round53_exact: "n < 2 ^ 53 \<Longrightarrow> round53 n = n"
proof -
  assume a: "n < 2 ^ 53"
  have "floorlog 2 n - 53 = 0"
  proof (rule ccontr)
    assume "floorlog 2 n - 53 \<noteq> 0"
    then have "2 ^ (floorlog 2 n - 53 + 52) \<le> n" by (intro floorlog_lower) simp
    moreover have "(2::nat) ^ 53 \<le> 2 ^ (floorlog 2 n - 53 + 52)"
      using \<open>floorlog 2 n - 53 \<noteq> 0\<close> by (intro power_increasing) simp_all
    ultimately show False using a by simp
  qed
  then show ?thesis by (simp add: round53_def)
qed

lemma round53_mono: "n \<le> m \<Longrightarrow> round53 n \<le> round53 m"
proof -
  assume le: "n \<le> m"
  define s t where "s = floorlog 2 n - 53" and "t = floorlog 2 m - 53"
  have rn: "round53 n = rne n s * 2 ^ s" and rm: "round53 m = rne m t * 2 ^ t"
    by (simp_all add: round53_def s_def t_def Let_def)
  have "s \<le> t" using floorlog_mono [OF le, of 2] by (simp add: s_def t_def)
  show ?thesis
  proof (cases "s = t")
    case True
    then show ?thesis using rne_mono [OF le, of t] by (simp add: rn rm)
  next
    case False
    with \<open>s \<le> t\<close> have "s + 1 \<le> t" by simp
    have "n < 2 ^ (s + 53)" using floorlog_upper by (simp add: s_def)
    then have "n div 2 ^ s < 2 ^ 53" by (simp add: less_mult_imp_div_less power_add mult.commute)
    then have "rne n s \<le> 2 ^ 53" using rne_le [of n s] by simp
    then have "round53 n \<le> 2 ^ 53 * 2 ^ s" unfolding rn by (rule mult_le_mono1)
    also have "\<dots> = 2 ^ 52 * 2 ^ (s + 1)" by simp
    also have "\<dots> \<le> 2 ^ 52 * 2 ^ t" using \<open>s + 1 \<le> t\<close> by (intro mult_le_mono2 power_increasing) simp_all
    also have "\<dots> \<le> rne m t * 2 ^ t"
    proof (rule mult_le_mono1)
      have "2 ^ (t + 52) \<le> m" using \<open>s + 1 \<le> t\<close> floorlog_lower [of m] by (simp add: t_def)
      then have "2 ^ 52 \<le> m div 2 ^ t"
        by (simp add: power_add less_eq_div_iff_mult_less_eq mult.commute)
      then show "2 ^ 52 \<le> rne m t" using rne_ge [of m t] by linarith
    qed
    finally show ?thesis by (simp add: rm)
  qed
qed

section \<open>Bounds on the moving average\<close>

lemma ewma_mono: "s \<le> s' \<Longrightarrow> c \<le> c' \<Longrightarrow> ewma s c \<le> ewma s' c'"
  unfolding ewma_def Let_def
  by (intro div_le_mono round53_mono add_mono mult_le_mono order_refl)

text \<open>Closed instances are evaluated through the exponent of the rounded number.\<close>

lemma round53_eval:
  assumes "2 ^ (s + 52) \<le> n" and "n < 2 ^ (s + 53)"
  shows "round53 n = rne n s * 2 ^ s"
proof -
  have "floorlog 2 n = s + 53"
    using assms floorlog_geI [of 2 "s + 53" n] floorlog_leI [of n 2 "s + 53"]
    by (simp add: add.commute [of 52])
  then show ?thesis by (simp add: round53_def)
qed

lemma ewma_1_1: "ewma 1 1 = 1"
proof -
  have "round53 (alpha_num + 4 * beta_num) = 2 ^ 55"
    by (subst round53_eval [of 3]) (simp_all add: alpha_num_def beta_num_def rne_def)
  then show ?thesis
    by (simp add: ewma_def round53_exact alpha_num_def beta_num_def)
qed

text \<open>A first step towards the bounds: the exact numerator of the rounded sum.\<close>

lemma ewma_num_upper:
  "round53 (round53 (s * alpha_num) + 4 * round53 (c * beta_num)) * 2 ^ 106
     \<le> (s * alpha_num + 4 * (c * beta_num)) * (2 ^ 53 + 1) ^ 2"
proof -
  define p q where "p = round53 (s * alpha_num)" and "q = round53 (c * beta_num)"
  define S where "S = round53 (p + 4 * q)"
  define A B where "A = s * alpha_num" and "B = c * beta_num"
  have "p * 2 ^ 53 \<le> A * (2 ^ 53 + 1)" and "q * 2 ^ 53 \<le> B * (2 ^ 53 + 1)"
    by (simp_all only: p_def q_def A_def B_def round53_upper)
  then have "(p + 4 * q) * 2 ^ 53 \<le> (A + 4 * B) * (2 ^ 53 + 1)"
    by simp
  then have "(p + 4 * q) * 2 ^ 53 * (2 ^ 53 + 1) \<le> (A + 4 * B) * (2 ^ 53 + 1) * (2 ^ 53 + 1)"
    by (rule mult_le_mono1)
  moreover have "S * 2 ^ 53 * 2 ^ 53 \<le> (p + 4 * q) * (2 ^ 53 + 1) * 2 ^ 53"
    unfolding S_def by (rule mult_le_mono1 [OF round53_upper])
  ultimately have "S * 2 ^ 106 \<le> (A + 4 * B) * (2 ^ 53 + 1) ^ 2"
    by simp
  then show ?thesis by (simp only: S_def p_def q_def A_def B_def)
qed

lemma ewma_num_lower:
  "(s * alpha_num + 4 * (c * beta_num)) * (2 ^ 53 - 1) ^ 2
     \<le> round53 (round53 (s * alpha_num) + 4 * round53 (c * beta_num)) * 2 ^ 106"
proof -
  define p q where "p = round53 (s * alpha_num)" and "q = round53 (c * beta_num)"
  define S where "S = round53 (p + 4 * q)"
  define A B where "A = s * alpha_num" and "B = c * beta_num"
  have "A * (2 ^ 53 - 1) \<le> p * 2 ^ 53" and "B * (2 ^ 53 - 1) \<le> q * 2 ^ 53"
    by (simp_all only: p_def q_def A_def B_def round53_lower)
  then have "(A + 4 * B) * (2 ^ 53 - 1) \<le> (p + 4 * q) * 2 ^ 53"
    by simp
  then have "(A + 4 * B) * (2 ^ 53 - 1) * (2 ^ 53 - 1) \<le> (p + 4 * q) * 2 ^ 53 * (2 ^ 53 - 1)"
    by (rule mult_le_mono1)
  moreover have "(p + 4 * q) * (2 ^ 53 - 1) * 2 ^ 53 \<le> S * 2 ^ 53 * 2 ^ 53"
    unfolding S_def by (rule mult_le_mono1 [OF round53_lower])
  ultimately have "(A + 4 * B) * (2 ^ 53 - 1) ^ 2 \<le> S * 2 ^ 106"
    by simp
  then show ?thesis by (simp only: S_def p_def q_def A_def B_def)
qed

lemma ewma_le_max:
  assumes "s \<le> M" and "c \<le> M" and M: "M < 2 ^ 50"
  shows "ewma s c \<le> M"
proof -
  define S where "S = round53 (round53 (M * alpha_num) + 4 * round53 (M * beta_num))"
  have "S * 2 ^ 106 \<le> (M * alpha_num + 4 * (M * beta_num)) * (2 ^ 53 + 1) ^ 2"
    unfolding S_def by (rule ewma_num_upper)
  also have "\<dots> < (M + 1) * 2 ^ 55 * 2 ^ 106"
    using M by (simp add: alpha_num_def beta_num_def)
  finally have "S < (M + 1) * 2 ^ 55" by simp
  then have "S div 2 ^ 55 < M + 1" by (rule less_mult_imp_div_less)
  moreover have "ewma M M = S div 2 ^ 55"
    using M by (simp add: ewma_def S_def round53_exact)
  ultimately show ?thesis using ewma_mono [OF assms(1,2)] by simp
qed

lemma ewma_ge_min:
  assumes "m \<le> s" and "m \<le> c" and m: "m < 2 ^ 50"
  shows "m \<le> ewma s c + 1"
proof -
  define S where "S = round53 (round53 (m * alpha_num) + 4 * round53 (m * beta_num))"
  have "(m * alpha_num + 4 * (m * beta_num)) * (2 ^ 53 - 1) ^ 2 \<le> S * 2 ^ 106"
    unfolding S_def by (rule ewma_num_lower)
  moreover have "m * 2 ^ 55 * 2 ^ 106 \<le> (m * alpha_num + 4 * (m * beta_num)) * (2 ^ 53 - 1) ^ 2 + 2 ^ 55 * 2 ^ 106"
    using m by (simp add: alpha_num_def beta_num_def)
  ultimately have "m * 2 ^ 55 \<le> S + 2 ^ 55" by simp
  then have "m \<le> (S + 2 ^ 55) div 2 ^ 55" by (simp add: less_eq_div_iff_mult_less_eq)
  also have "\<dots> = S div 2 ^ 55 + 1" by simp
  also have "S div 2 ^ 55 = ewma m m"
    using m by (simp add: ewma_def S_def round53_exact)
  finally show ?thesis using ewma_mono [OF assms(1,2)] by simp
qed

lemma ewma_pos: "0 < s \<Longrightarrow> 0 < c \<Longrightarrow> 0 < ewma s c"
  using ewma_mono [of 1 s 1 c] unfolding ewma_1_1 by linarith

text \<open>The conversion back to \<^verbatim>\<open>uint64\<close> never overflows.\<close>

lemma ewma_fits:
  assumes s: "s < 2 ^ 63" and c: "c < 2 ^ 64"
  shows "ewma s c < 2 ^ 64"
proof -
  have "round53 s * 2 ^ 53 \<le> s * (2 ^ 53 + 1)" and "round53 c * 2 ^ 53 \<le> c * (2 ^ 53 + 1)"
    by (rule round53_upper)+
  with s c have "round53 s \<le> 2 ^ 63 + 2 ^ 10" and "round53 c \<le> 2 ^ 64 + 2 ^ 11"
    by simp_all
  then have "round53 s * alpha_num + 4 * (round53 c * beta_num)
      \<le> (2 ^ 63 + 2 ^ 10) * alpha_num + 4 * ((2 ^ 64 + 2 ^ 11) * beta_num)"
    by (intro add_mono mult_le_mono order_refl)
  then have "(round53 s * alpha_num + 4 * (round53 c * beta_num)) * (2 ^ 53 + 1) ^ 2
      \<le> ((2 ^ 63 + 2 ^ 10) * alpha_num + 4 * ((2 ^ 64 + 2 ^ 11) * beta_num)) * (2 ^ 53 + 1) ^ 2"
    by (rule mult_le_mono1)
  also have "\<dots> < 2 ^ 64 * 2 ^ 55 * 2 ^ 106" by (simp add: alpha_num_def beta_num_def)
  finally have "round53 (round53 (round53 s * alpha_num) + 4 * round53 (round53 c * beta_num)) < 2 ^ 64 * 2 ^ 55"
    using ewma_num_upper [of "round53 s" "round53 c"] by simp
  then show ?thesis
    unfolding ewma_def Let_def by (rule less_mult_imp_div_less)
qed

end
