(* ===== verification/Backends.thy ===== *)
theory Backends
  imports Ewma64
begin

text \<open>
  \<^verbatim>\<open>Backend\<close> of \<^verbatim>\<open>internal/pool/pool.go\<close>.  The program shares \<^verbatim>\<open>*Backend\<close> pointers between
  the pool, in-flight requests, the health checker and the admin API, and a reload
  replaces the objects while old requests still hold the former ones.  So backends live
  in a heap: a \<open>bref\<close> is the pointer, a \<open>heap\<close> maps pointers to objects.
  The atomics of the Go struct are plain fields; each operation is one atomic step.
  The compare-and-swap loop of \<^verbatim>\<open>RecordLatency\<close> is \<open>cas_loop\<close>, with the values other
  goroutines write between the load and the swap as a list.
\<close>

section \<open>The object\<close>

text \<open>\<^verbatim>\<open>url.Parse\<close> is a parameter of the model; of a parsed URL the code uses these parts.\<close>

record url =
  url_string :: string
  url_scheme :: string
  url_host :: string

record backend =
  bk_name :: string
  bk_url :: url
  bk_cloud :: string
  bk_region :: string
  bk_weight :: int
  bk_kind :: string
  bk_healthy :: bool
  bk_inflight :: int
  bk_latency_ns :: u64

definition new_backend :: "string \<Rightarrow> url \<Rightarrow> string \<Rightarrow> string \<Rightarrow> int \<Rightarrow> backend" where
  "new_backend name u cloud region weight =
     \<lparr>bk_name = name, bk_url = u, bk_cloud = cloud, bk_region = region, bk_weight = weight,
      bk_kind = '''', bk_healthy = True, bk_inflight = 0, bk_latency_ns = 0\<rparr>"

definition with_kind :: "string \<Rightarrow> backend \<Rightarrow> backend" where
  "with_kind kind b = b\<lparr>bk_kind := kind\<rparr>"

definition set_healthy :: "bool \<Rightarrow> backend \<Rightarrow> backend" where
  "set_healthy v b = b\<lparr>bk_healthy := v\<rparr>"

definition inc_inflight :: "backend \<Rightarrow> backend" where
  "inc_inflight b = b\<lparr>bk_inflight := wrap64 (bk_inflight b + 1)\<rparr>"

definition dec_inflight :: "backend \<Rightarrow> backend" where
  "dec_inflight b = b\<lparr>bk_inflight := wrap64 (bk_inflight b + (- 1))\<rparr>"

text \<open>\<^verbatim>\<open>Latency\<close> reads the \<^verbatim>\<open>uint64\<close> as a signed \<^verbatim>\<open>time.Duration\<close>.\<close>

definition latency :: "backend \<Rightarrow> int" where
  "latency b = int_of_u64 (bk_latency_ns b)"

section \<open>Latency samples\<close>

definition next_latency :: "u64 \<Rightarrow> u64 \<Rightarrow> u64" where
  "next_latency sample cur =
     (if cur = 0 then sample else of_nat (ewma (unat sample) (unat cur)))"

text \<open>
  The loop: load \<open>cur\<close>, compute, swap if the cell still holds \<open>cur\<close>.  Each element of the
  list is what the cell holds when one swap is tried; the swap after the list is
  undisturbed.  The result is the pair of the value the successful swap replaced and the
  value it stored.
\<close>

fun cas_loop :: "u64 \<Rightarrow> u64 \<Rightarrow> u64 list \<Rightarrow> u64 \<times> u64" where
  "cas_loop sample cur [] = (cur, next_latency sample cur)"
| "cas_loop sample cur (seen # later) =
     (if seen = cur then (cur, next_latency sample cur) else cas_loop sample seen later)"

definition record_latency :: "int \<Rightarrow> u64 list \<Rightarrow> backend \<Rightarrow> backend" where
  "record_latency d interference b =
     (if d \<le> 0 then b
      else b\<lparr>bk_latency_ns := snd (cas_loop (of_int d) (bk_latency_ns b) interference)\<rparr>)"

lemma cas_loop_atomic:
  "cas_loop sample cur vs = (old, new) \<Longrightarrow> new = next_latency sample old \<and> old \<in> set (cur # vs)"
  by (induction sample cur vs rule: cas_loop.induct) (auto split: if_splits)

lemma unat_next_latency:
  assumes "unat sample < 2 ^ 63"
  shows "unat (next_latency sample cur) = (if cur = 0 then unat sample else ewma (unat sample) (unat cur))"
proof (cases "cur = 0")
  case False
  have "unat cur < 2 ^ LENGTH(64)" by (rule unsigned_less)
  then have "unat cur < 2 ^ 64" by simp
  with assms have "ewma (unat sample) (unat cur) < 2 ^ 64" by (rule ewma_fits)
  with False show ?thesis by (simp add: next_latency_def unat_of_nat take_bit_nat_def)
qed (simp add: next_latency_def)

lemma next_latency_nonzero:
  assumes "0 < unat sample" and "unat sample < 2 ^ 63"
  shows "next_latency sample cur \<noteq> 0"
proof -
  have "0 < unat (next_latency sample cur)"
    using assms ewma_pos [of "unat sample" "unat cur"]
    by (simp add: unat_next_latency unat_gt_0)
  then show ?thesis by auto
qed

lemma unat_of_duration: "0 < d \<Longrightarrow> in_int64 d \<Longrightarrow> unat (of_int d :: u64) = nat d"
  by (simp add: in_int64_def unsigned_of_int take_bit_int_eq_self)

lemma latency_0_iff [simp]: "latency b = 0 \<longleftrightarrow> bk_latency_ns b = 0"
proof -
  have "latency b = 0 \<longleftrightarrow> uint (bk_latency_ns b) = 0"
  proof (cases "uint (bk_latency_ns b) < 2 ^ 63")
    case True
    then show ?thesis by (simp add: latency_def int_of_u64_small)
  next
    case False
    then have "latency b = uint (bk_latency_ns b) - 2 ^ 64" by (simp add: latency_def int_of_u64_big)
    moreover have "uint (bk_latency_ns b) < 2 ^ 64" using uint_lt2p [of "bk_latency_ns b"] by simp
    ultimately show ?thesis using False by simp
  qed
  then show ?thesis by (simp add: uint_0_iff)
qed

text \<open>A run of samples, each with the interference its swap met.\<close>

fun record_all :: "(int \<times> u64 list) list \<Rightarrow> backend \<Rightarrow> backend" where
  "record_all [] b = b"
| "record_all ((d, vs) # ds) b = record_all ds (record_latency d vs b)"

lemma record_latency_frame [simp]:
  "bk_name (record_latency d vs b) = bk_name b" "bk_url (record_latency d vs b) = bk_url b"
  "bk_cloud (record_latency d vs b) = bk_cloud b" "bk_kind (record_latency d vs b) = bk_kind b"
  "bk_weight (record_latency d vs b) = bk_weight b" "bk_region (record_latency d vs b) = bk_region b"
  "bk_healthy (record_latency d vs b) = bk_healthy b" "bk_inflight (record_latency d vs b) = bk_inflight b"
  by (simp_all add: record_latency_def)

lemma record_latency_sampled:
  "in_int64 d \<Longrightarrow> 0 < d \<or> latency b \<noteq> 0 \<Longrightarrow> latency (record_latency d vs b) \<noteq> 0"
proof (cases "0 < d")
  case True
  assume "in_int64 d"
  obtain old new where c: "cas_loop (of_int d) (bk_latency_ns b) vs = (old, new)" by fastforce
  have "unat (of_int d :: u64) = nat d" using True \<open>in_int64 d\<close> by (rule unat_of_duration)
  with True \<open>in_int64 d\<close> have "next_latency (of_int d) old \<noteq> 0"
    by (intro next_latency_nonzero) (simp_all add: in_int64_def)
  with cas_loop_atomic [OF c] True show ?thesis by (simp add: record_latency_def c)
qed (simp add: record_latency_def)

text \<open>
  Once a positive sample has been recorded, no later sample, whatever its value and
  whatever goroutines interfere, makes the backend look unsampled again.
\<close>

theorem latency_stays_sampled:
  assumes "0 < d" and "\<forall>(e, vs) \<in> set ((d, vs0) # ds). in_int64 e"
  shows "latency (record_all ((d, vs0) # ds) b) \<noteq> 0"
proof -
  have "latency b' \<noteq> 0 \<Longrightarrow> \<forall>(e, vs) \<in> set ds. in_int64 e \<Longrightarrow> latency (record_all ds b') \<noteq> 0" for b'
  proof (induction ds arbitrary: b')
    case (Cons x ds)
    obtain e vs where x: "x = (e, vs)" by fastforce
    from Cons.prems have "latency (record_latency e vs b') \<noteq> 0"
      by (intro record_latency_sampled) (auto simp: x)
    from Cons.IH [OF this] Cons.prems(2) show ?case by (simp add: x)
  qed simp
  with assms show ?thesis by (simp del: latency_0_iff add: record_latency_sampled)
qed

text \<open>
  C37: While samples and average stay below \<open>2 ^ 50\<close> nanoseconds (13 days), a new average is
  at most the larger of sample and old average and at least the smaller less one.
\<close>

theorem latency_between:
  assumes "0 < d" and "d < 2 ^ 50" and "0 < latency b" and "latency b < 2 ^ 50"
  shows "min d (latency b) - 1 \<le> latency (record_latency d [] b)
       \<and> latency (record_latency d [] b) \<le> max d (latency b)"
proof -
  define c where "c = bk_latency_ns b"
  have d: "unat (of_int d :: u64) = nat d" using assms by (intro unat_of_duration) (simp_all add: in_int64_def)
  have cu: "uint c < 2 ^ 63"
  proof (rule ccontr)
    assume "\<not> uint c < 2 ^ 63"
    then have "latency b = uint c - 2 ^ 64" by (simp add: latency_def c_def int_of_u64_big)
    moreover have "uint c < 2 ^ 64" using uint_lt2p [of c] by simp
    ultimately show False using assms(3) by simp
  qed
  then have lat: "latency b = int (unat c)" by (simp add: latency_def c_def int_of_u64_small)
  with assms(3) have c0: "c \<noteq> 0" by auto
  from lat assms(4) have "int (unat c) < int (2 ^ 50)" by simp
  then have c50: "unat c < 2 ^ 50" by (simp only: of_nat_less_iff)
  define e where "e = ewma (nat d) (unat c)"
  have new: "bk_latency_ns (record_latency d [] b) = next_latency (of_int d) c"
    using assms by (simp add: record_latency_def c_def)
  have nd: "nat d < 2 ^ 50" using assms by simp
  have e: "unat (next_latency (of_int d) c) = e"
    using nd by (subst unat_next_latency) (simp_all add: d c0 e_def)
  have hi: "e \<le> max (nat d) (unat c)"
    unfolding e_def using nd c50 by (intro ewma_le_max) (simp_all add: max_def)
  have lo: "min (nat d) (unat c) \<le> e + 1"
    unfolding e_def using nd c50 by (intro ewma_ge_min) (simp_all add: min_def)
  have "e < 2 ^ 63" using hi nd c50 by (simp add: max_def split: if_splits)
  then have "uint (next_latency (of_int d) c) < 2 ^ 63" by (simp add: uint_nat e)
  then have "latency (record_latency d [] b) = int e"
    by (simp only: latency_def new int_of_u64_small uint_nat e)
  with hi lo assms(1) show ?thesis unfolding lat by (intro conjI) linarith+
qed

section \<open>The heap\<close>

type_synonym bref = nat
type_synonym heap = "bref \<Rightarrow> backend"

definition modify :: "(backend \<Rightarrow> backend) \<Rightarrow> bref \<Rightarrow> heap \<Rightarrow> heap" where
  "modify f r h = h(r := f (h r))"

lemma modify_same [simp]: "modify f r h r = f (h r)"
  and modify_other [simp]: "q \<noteq> r \<Longrightarrow> modify f r h q = h q"
  by (simp_all add: modify_def)

lemma modify_field: "(\<And>b. fld (f b) = fld b) \<Longrightarrow> fld (modify f r h q) = fld (h q)"
  by (cases "q = r") simp_all

lemmas backend_ops = with_kind_def set_healthy_def inc_inflight_def dec_inflight_def

end
