(* ===== verification/CostWindow.thy ===== *)
theory CostWindow
  imports GoBase
begin

text \<open>
  \<^verbatim>\<open>internal/cost/window.go\<close>: the list of one-second buckets that remembers the egress of
  one cloud for an hour.  A \<^verbatim>\<open>ringWindow\<close> is its \<^verbatim>\<open>samples\<close> slice, oldest first.
  Reference: \<open>full_add\<close> is the same bucketing without eviction and with unbounded
  integers, and a log of (time, bytes) events is what the window is an approximation
  of.  The lemmas show the refinement from the evicting window to the reference, and
  bound what the buckets report by the log.
\<close>

section \<open>The window\<close>

definition bucketRes :: int where
  "bucketRes = 1000000000"

definition maxAge :: int where
  "maxAge = 3600 * 1000000000"

record sample =
  sm_at :: int
  sm_bytes :: int

type_synonym ring_window = "sample list"

definition new_ring_window :: ring_window where
  "new_ring_window = []"

definition evict :: "int \<Rightarrow> ring_window \<Rightarrow> ring_window" where
  "evict now w = dropWhile (\<lambda>s. sm_at s < now + (- maxAge)) w"

definition window_add :: "int \<Rightarrow> int \<Rightarrow> ring_window \<Rightarrow> ring_window" where
  "window_add now bytes w =
     (let w = evict now w
      in if w \<noteq> [] \<and> sat64 (now - sm_at (last w)) < bucketRes
         then butlast w @ [(last w)\<lparr>sm_bytes := wrap64 (sm_bytes (last w) + bytes)\<rparr>]
         else w @ [\<lparr>sm_at = now, sm_bytes = bytes\<rparr>])"

text \<open>The loop of \<^verbatim>\<open>sum\<close> runs from the newest sample and stops at the first one before
  the cutoff.\<close>

fun sum_loop :: "int \<Rightarrow> int \<Rightarrow> sample list \<Rightarrow> int" where
  "sum_loop cutoff acc [] = acc"
| "sum_loop cutoff acc (s # ss) =
     (if sm_at s < cutoff then acc
      else sum_loop cutoff (wrap64 (acc + sm_bytes s)) ss)"

definition window_sum :: "int \<Rightarrow> int \<Rightarrow> ring_window \<Rightarrow> int \<times> ring_window" where
  "window_sum now window w =
     (let w = evict now w; cutoff = now + wrap64 (- window)
      in (sum_loop cutoff 0 (rev w), w))"

section \<open>Well-formed windows\<close>

definition spaced :: "ring_window \<Rightarrow> bool" where
  "spaced w \<longleftrightarrow> sorted_wrt (\<lambda>a b. sm_at a + bucketRes \<le> sm_at b) w"

definition window_ok :: "int \<Rightarrow> ring_window \<Rightarrow> bool" where
  "window_ok now w \<longleftrightarrow> spaced w \<and> (\<forall>s \<in> set w. sm_at s \<le> now)"

lemma res_age [simp]: "0 < bucketRes" "0 < maxAge" "bucketRes < maxAge"
  "in_int64 bucketRes" "in_int64 maxAge" "in_int64 (- maxAge)"
  by (simp_all add: bucketRes_def maxAge_def in_int64_def)

lemma sat64_bucketRes [simp]: "sat64 x < bucketRes \<longleftrightarrow> x < bucketRes"
  by (simp add: sat64_less bucketRes_def in_int64_def)

lemma spaced_append:
  "spaced (u @ v) \<longleftrightarrow> spaced u \<and> spaced v \<and> (\<forall>a \<in> set u. \<forall>b \<in> set v. sm_at a + bucketRes \<le> sm_at b)"
  by (simp add: spaced_def sorted_wrt_append)

lemma spaced_snoc:
  "spaced (u @ [x]) \<longleftrightarrow> spaced u \<and> (\<forall>a \<in> set u. sm_at a + bucketRes \<le> sm_at x)"
  by (simp add: spaced_append) (simp add: spaced_def)

lemma spaced_Cons:
  "spaced (x # u) \<longleftrightarrow> spaced u \<and> (\<forall>b \<in> set u. sm_at x + bucketRes \<le> sm_at b)"
  by (auto simp: spaced_def)

lemma spaced_Nil [simp]: "spaced []" and spaced_single [simp]: "spaced [x]"
  by (simp_all add: spaced_def)

lemma spaced_filter: "spaced w \<Longrightarrow> spaced (filter p w)"
  by (simp add: spaced_def sorted_wrt_filter)

lemma spaced_last: "spaced w \<Longrightarrow> a \<in> set w \<Longrightarrow> a = last w \<or> sm_at a + bucketRes \<le> sm_at (last w)"
  by (cases w rule: rev_cases) (auto simp: spaced_snoc)

lemma evict_filter:
  "spaced w \<Longrightarrow> evict now w = filter (\<lambda>s. now - maxAge \<le> sm_at s) w"
proof (induction w)
  case (Cons s w)
  then have sp: "spaced w" and le: "\<forall>b \<in> set w. sm_at s + bucketRes \<le> sm_at b"
    by (auto simp: spaced_def)
  show ?case
  proof (cases "sm_at s < now - maxAge")
    case True
    with Cons.IH [OF sp] show ?thesis by (simp add: evict_def)
  next
    case False
    have "now - maxAge \<le> sm_at b" if "b \<in> set w" for b
    proof -
      from le that have "sm_at s + bucketRes \<le> sm_at b" by blast
      with False res_age(1) show ?thesis by linarith
    qed
    with False show ?thesis by (simp add: evict_def filter_id_conv)
  qed
qed (simp add: evict_def)

lemma window_ok_evict: "window_ok now w \<Longrightarrow> window_ok now (evict now w)"
  by (auto simp: window_ok_def evict_filter spaced_filter)

lemma window_ok_later: "window_ok now w \<Longrightarrow> now \<le> now' \<Longrightarrow> window_ok now' w"
  by (auto simp: window_ok_def)

text \<open>A spaced list that lies in an interval is short.\<close>

lemma spaced_length:
  "spaced w \<Longrightarrow> w \<noteq> [] \<Longrightarrow> \<forall>s \<in> set w. lo \<le> sm_at s \<and> sm_at s \<le> hi \<Longrightarrow>
   (int (length w) - 1) * bucketRes \<le> hi - lo"
proof (induction w arbitrary: hi rule: rev_induct)
  case (snoc x w)
  show ?case
  proof (cases "w = []")
    case True
    with snoc.prems show ?thesis by simp
  next
    case False
    from snoc.prems have sp: "spaced w" and x: "sm_at x \<le> hi"
      and w: "\<forall>s \<in> set w. lo \<le> sm_at s \<and> sm_at s \<le> sm_at x - bucketRes"
      by (auto simp: spaced_snoc)
    from snoc.IH [OF sp False w] x show ?thesis by (simp add: algebra_simps)
  qed
qed simp

lemma evict_length:
  assumes "window_ok now w" shows "length (evict now w) \<le> 3601"
proof (cases "evict now w = []")
  case False
  have "(int (length (evict now w)) - 1) * bucketRes \<le> now - (now - maxAge)"
    using window_ok_evict [OF assms] assms
    by (intro spaced_length False) (auto simp: window_ok_def evict_filter)
  then show ?thesis by (simp add: bucketRes_def maxAge_def)
qed simp

section \<open>The reference: bucketing without eviction\<close>

definition full_add :: "int \<Rightarrow> int \<Rightarrow> ring_window \<Rightarrow> ring_window" where
  "full_add now bytes w =
     (if w \<noteq> [] \<and> now - sm_at (last w) < bucketRes
      then butlast w @ [(last w)\<lparr>sm_bytes := sm_bytes (last w) + bytes\<rparr>]
      else w @ [\<lparr>sm_at = now, sm_bytes = bytes\<rparr>])"

definition bytes_from :: "int \<Rightarrow> ring_window \<Rightarrow> int" where
  "bytes_from c w = (\<Sum>s \<leftarrow> filter (\<lambda>s. c \<le> sm_at s) w. sm_bytes s)"

lemma bytes_from_append [simp]: "bytes_from c (u @ v) = bytes_from c u + bytes_from c v"
  by (simp add: bytes_from_def)

lemma bytes_from_Nil [simp]: "bytes_from c [] = 0"
  by (simp add: bytes_from_def)

lemma bytes_from_Cons [simp]:
  "bytes_from c (s # w) = (if c \<le> sm_at s then sm_bytes s else 0) + bytes_from c w"
  by (simp add: bytes_from_def)

lemma bytes_from_filter: "bytes_from c (filter (\<lambda>s. d \<le> sm_at s) w) = bytes_from (max c d) w"
  by (simp add: bytes_from_def) (metis (no_types, lifting) max.bounded_iff)

lemma full_add_ok: "window_ok t w \<Longrightarrow> t \<le> now \<Longrightarrow> window_ok now (full_add now b w)"
  by (cases w rule: rev_cases)
    (auto simp: window_ok_def full_add_def spaced_append spaced_Cons)

text \<open>Both loops of the code against the reference.\<close>

lemma sum_loop_rev:
  "spaced w \<Longrightarrow> sum_loop c (wrap64 t) (rev w) = wrap64 (t + bytes_from c w)"
proof (induction w arbitrary: t rule: rev_induct)
  case (snoc x w)
  from snoc.prems have sp: "spaced w" and lt: "\<forall>a \<in> set w. sm_at a + bucketRes \<le> sm_at x"
    by (auto simp: spaced_snoc)
  show ?case
  proof (cases "sm_at x < c")
    case True
    have "\<not> c \<le> sm_at a" if "a \<in> set w" for a
    proof -
      from lt that have "sm_at a + bucketRes \<le> sm_at x" by blast
      with True res_age(1) show ?thesis by linarith
    qed
    then have "bytes_from c w = 0" by (simp add: bytes_from_def filter_False)
    with True show ?thesis by simp
  next
    case False
    with snoc.IH [OF sp, of "t + sm_bytes x"] show ?thesis by (simp add: add_ac)
  qed
qed simp

lemma window_sum_spec:
  assumes "spaced w" and "in_int64 (- window)"
  shows "window_sum now window w
    = (wrap64 (bytes_from (now - min window maxAge) w), filter (\<lambda>s. now - maxAge \<le> sm_at s) w)"
proof -
  have "sum_loop (now - window) (wrap64 0) (rev (evict now w))
      = wrap64 (0 + bytes_from (now - window) (evict now w))"
    using assms by (intro sum_loop_rev) (simp add: evict_filter spaced_filter)
  moreover have "max (now - window) (now - maxAge) = now - min window maxAge"
    by (simp add: max_def min_def)
  ultimately show ?thesis
    using assms by (simp add: window_sum_def evict_filter bytes_from_filter)
qed

lemma window_add_spec:
  assumes ok: "window_ok t F" and now: "t \<le> now" and e: "e \<le> t - maxAge"
    and w: "w = filter (\<lambda>s. e \<le> sm_at s) F"
    and fits: "F \<noteq> [] \<Longrightarrow> in_int64 (sm_bytes (last F) + b)"
  shows "window_add now b w = filter (\<lambda>s. now - maxAge \<le> sm_at s) (full_add now b F)"
proof -
  from ok have sp: "spaced F" by (simp add: window_ok_def)
  have pos: "\<not> now < now - maxAge" using res_age(2) by linarith
  have ev: "evict now w = filter (\<lambda>s. now - maxAge \<le> sm_at s) F"
    using sp e now by (auto simp: w evict_filter spaced_filter intro!: filter_cong)
  show ?thesis
  proof (cases F rule: rev_cases)
    case Nil
    then show ?thesis using ev pos by (simp add: window_add_def full_add_def)
  next
    case (snoc F' x)
    show ?thesis
    proof (cases "now - maxAge \<le> sm_at x")
      case True
      then show ?thesis
        using ev snoc fits pos by (simp add: window_add_def full_add_def Let_def)
    next
      case False
      have "\<not> now - maxAge \<le> sm_at a" if "a \<in> set F'" for a
      proof -
        from sp snoc that have "sm_at a + bucketRes \<le> sm_at x" by (simp add: spaced_snoc)
        with False res_age(1) show ?thesis by linarith
      qed
      then have "filter (\<lambda>s. now - maxAge \<le> sm_at s) F' = []" by (simp add: filter_empty_conv)
      moreover have "\<not> now - sm_at x < bucketRes" using False res_age(3) by linarith
      ultimately show ?thesis
        using ev snoc pos False by (simp add: window_add_def full_add_def)
    qed
  qed
qed

section \<open>The event log\<close>

type_synonym egress_log = "(int \<times> int) list"

definition log_ok :: "int \<Rightarrow> egress_log \<Rightarrow> bool" where
  "log_ok now l \<longleftrightarrow> sorted (List.map fst l) \<and> (\<forall>(t, b) \<in> set l. t \<le> now \<and> 0 < b)"

definition log_total :: "egress_log \<Rightarrow> int" where
  "log_total l = sum_list (List.map snd l)"

definition bytes_since :: "int \<Rightarrow> egress_log \<Rightarrow> int" where
  "bytes_since c l = sum_list (List.map snd (filter (\<lambda>(t, b). c \<le> t) l))"

definition full_of :: "egress_log \<Rightarrow> ring_window" where
  "full_of l = foldl (\<lambda>w (t, b). full_add t b w) [] l"

lemma full_of_Nil [simp]: "full_of [] = []"
  and full_of_snoc [simp]: "full_of (l @ [(t, b)]) = full_add t b (full_of l)"
  by (simp_all add: full_of_def)

lemma bytes_since_Nil [simp]: "bytes_since c [] = 0"
  and bytes_since_snoc [simp]:
    "bytes_since c (l @ [(t, b)]) = bytes_since c l + (if c \<le> t then b else 0)"
  by (simp_all add: bytes_since_def)

lemma log_total_Nil [simp]: "log_total [] = 0"
  and log_total_snoc [simp]: "log_total (l @ [(t, b)]) = log_total l + b"
  by (simp_all add: log_total_def)

lemma log_ok_snoc:
  "log_ok now (l @ [(t, b)]) \<longleftrightarrow> log_ok t l \<and> t \<le> now \<and> 0 < b"
  by (auto simp: log_ok_def sorted_append)

lemma log_ok_later: "log_ok t l \<Longrightarrow> t \<le> now \<Longrightarrow> log_ok now l"
  by (auto simp: log_ok_def)

lemma bytes_since_bounds: "log_ok t l \<Longrightarrow> 0 \<le> bytes_since c l \<and> bytes_since c l \<le> log_total l"
proof (induction l arbitrary: t rule: rev_induct)
  case (snoc x l)
  obtain u b where x: "x = (u, b)" by fastforce
  from snoc.prems have "log_ok u l" and "0 < b" by (auto simp: x log_ok_snoc)
  with snoc.IH [OF \<open>log_ok u l\<close>] show ?case by (simp add: x)
qed simp

lemma full_of_ok: "log_ok now l \<Longrightarrow> window_ok now (full_of l)"
proof (induction l arbitrary: now rule: rev_induct)
  case Nil
  then show ?case by (simp add: window_ok_def)
next
  case (snoc x l)
  obtain t b where x: "x = (t, b)" by fastforce
  from snoc.prems have l: "log_ok t l" and t: "t \<le> now" by (auto simp: x log_ok_snoc)
  have "window_ok t (full_add t b (full_of l))"
    by (rule full_add_ok [OF snoc.IH [OF l] order_refl])
  then show ?case by (simp add: x window_ok_later [OF _ t])
qed

lemma full_of_total:
  "log_ok now l \<Longrightarrow> sum_list (List.map sm_bytes (full_of l)) = log_total l
     \<and> (\<forall>s \<in> set (full_of l). 0 < sm_bytes s)"
proof (induction l arbitrary: now rule: rev_induct)
  case (snoc x l)
  obtain t b where x: "x = (t, b)" by fastforce
  from snoc.prems have l: "log_ok t l" and b: "0 < b" by (auto simp: x log_ok_snoc)
  from snoc.IH [OF l] b show ?case
    by (cases "full_of l" rule: rev_cases) (auto simp: x full_add_def)
qed simp

lemma full_of_last_fits:
  assumes "log_ok now l" and "full_of l \<noteq> []" and "0 < b" and "log_total l + b < 2 ^ 63"
  shows "in_int64 (sm_bytes (last (full_of l)) + b)"
proof -
  from assms(2) obtain F x where F: "full_of l = F @ [x]" by (cases "full_of l" rule: rev_cases) auto
  have pos: "\<forall>s \<in> set (F @ [x]). 0 < sm_bytes s"
    and tot: "sum_list (List.map sm_bytes (F @ [x])) = log_total l"
    using full_of_total [OF assms(1)] F by auto
  from pos have "0 \<le> sum_list (List.map sm_bytes F)" by (intro sum_list_nonneg) auto
  with tot pos assms show ?thesis by (simp add: F in_int64_def)
qed

text \<open>What the buckets report lies between the log at the exact window and the log at a
  window one bucket shorter.\<close>

lemma full_of_bounds:
  "log_ok now l \<Longrightarrow> bytes_since (c + bucketRes) l \<le> bytes_from c (full_of l)
     \<and> bytes_from c (full_of l) \<le> bytes_since c l"
proof (induction l arbitrary: now rule: rev_induct)
  case (snoc x l)
  obtain t b where x: "x = (t, b)" by fastforce
  from snoc.prems have l: "log_ok t l" and b: "0 < b" by (auto simp: x log_ok_snoc)
  note IH = snoc.IH [OF l]
  have ok: "window_ok t (full_of l)" by (rule full_of_ok [OF l])
  have le: "c + bucketRes \<le> t \<Longrightarrow> c \<le> t" using res_age(1) by linarith
  show ?case
  proof (cases "full_of l" rule: rev_cases)
    case Nil
    with IH b le show ?thesis by (auto simp: x full_add_def)
  next
    case (snoc F y)
    with ok have "sm_at y \<le> t" by (simp add: window_ok_def)
    with snoc IH b le show ?thesis by (auto simp: x full_add_def)
  qed
qed simp

section \<open>The meter interface\<close>

text \<open>
  What the accountant needs from a window: it can be created, fed and queried at
  non-decreasing times, and a query at \<open>now\<close> over \<open>window\<close> reports at most the bytes
  of the last \<open>window\<close> and at least the bytes of the last \<open>window\<close> less one bucket.
\<close>

locale egress_meter =
  fixes empty :: 'w
    and feed :: "int \<Rightarrow> int \<Rightarrow> 'w \<Rightarrow> 'w"
    and query :: "int \<Rightarrow> int \<Rightarrow> 'w \<Rightarrow> int \<times> 'w"
    and horizon :: int
    and slack :: int
    and rep :: "int \<Rightarrow> 'w \<Rightarrow> egress_log \<Rightarrow> bool"
  assumes rep_empty: "rep now empty []"
    and rep_feed: "rep t w l \<Longrightarrow> t \<le> now \<Longrightarrow> 0 < b \<Longrightarrow> log_total l + b < 2 ^ 63 \<Longrightarrow>
          rep now (feed now b w) (l @ [(now, b)])"
    and rep_query: "rep t w l \<Longrightarrow> t \<le> now \<Longrightarrow> rep now (snd (query now window w)) l"
    and query_upper: "rep t w l \<Longrightarrow> t \<le> now \<Longrightarrow> in_int64 window \<Longrightarrow> 0 < window \<Longrightarrow>
          fst (query now window w) \<le> bytes_since (now - min window horizon) l"
    and query_lower: "rep t w l \<Longrightarrow> t \<le> now \<Longrightarrow> in_int64 window \<Longrightarrow> 0 < window \<Longrightarrow>
          bytes_since (now - min window horizon + slack) l \<le> fst (query now window w)"
begin

lemma within_cap:
  "rep t w l \<Longrightarrow> t \<le> now \<Longrightarrow> in_int64 window \<Longrightarrow> 0 < window \<Longrightarrow>
   bytes_since (now - min window horizon) l < cap \<Longrightarrow> fst (query now window w) < cap"
  by (rule le_less_trans [OF query_upper])

lemma over_cap:
  "rep t w l \<Longrightarrow> t \<le> now \<Longrightarrow> in_int64 window \<Longrightarrow> 0 < window \<Longrightarrow>
   cap \<le> bytes_since (now - min window horizon + slack) l \<Longrightarrow> \<not> fst (query now window w) < cap"
  by (simp add: not_less order_trans [OF _ query_lower])

end

text \<open>The code's window implements it: it holds the reference buckets from some time
  at least \<^verbatim>\<open>maxAge\<close> ago on.\<close>

definition represents :: "int \<Rightarrow> ring_window \<Rightarrow> egress_log \<Rightarrow> bool" where
  "represents t w l \<longleftrightarrow> log_ok t l \<and> log_total l < 2 ^ 63
     \<and> (\<exists>e \<le> t - maxAge. w = filter (\<lambda>s. e \<le> sm_at s) (full_of l))"

lemma represents_ok: "represents t w l \<Longrightarrow> window_ok t w"
  by (auto simp: represents_def window_ok_def dest!: full_of_ok intro: spaced_filter)

lemma represents_feed:
  assumes rep: "represents t w l" and now: "t \<le> now" and b: "0 < b" and fits: "log_total l + b < 2 ^ 63"
  shows "represents now (window_add now b w) (l @ [(now, b)])"
proof -
  from rep obtain e where l: "log_ok t l" and e: "e \<le> t - maxAge"
    and w: "w = filter (\<lambda>s. e \<le> sm_at s) (full_of l)" by (auto simp: represents_def)
  have "window_add now b w = filter (\<lambda>s. now - maxAge \<le> sm_at s) (full_add now b (full_of l))"
    by (rule window_add_spec [OF full_of_ok [OF l] now e w full_of_last_fits [OF l _ b fits]])
  with l now b fits show ?thesis
    by (auto simp: represents_def log_ok_snoc log_ok_later)
qed

lemma represents_query_value:
  assumes rep: "represents t w l" and now: "t \<le> now" and W: "in_int64 window" "0 < window"
  shows "window_sum now window w = (bytes_from (now - min window maxAge) (full_of l),
           filter (\<lambda>s. now - maxAge \<le> sm_at s) (full_of l))"
proof -
  from rep obtain e where l: "log_ok t l" and e: "e \<le> t - maxAge" and tot: "log_total l < 2 ^ 63"
    and w: "w = filter (\<lambda>s. e \<le> sm_at s) (full_of l)" by (auto simp: represents_def)
  let ?c = "now - min window maxAge"
  have sp: "spaced (full_of l)" using full_of_ok [OF l] by (simp add: window_ok_def)
  have "in_int64 (- window)" using W by (simp add: in_int64_def)
  then have sum: "window_sum now window w = (wrap64 (bytes_from ?c w),
      filter (\<lambda>s. now - maxAge \<le> sm_at s) w)"
    using sp by (intro window_sum_spec) (simp_all add: w spaced_filter)
  have "max ?c e = ?c" using e now by simp
  then have "bytes_from ?c w = bytes_from ?c (full_of l)" by (simp add: w bytes_from_filter)
  moreover have "in_int64 (bytes_from ?c (full_of l))"
    using full_of_bounds [OF l, of ?c] bytes_since_bounds [OF l, of ?c]
      bytes_since_bounds [OF l, of "?c + bucketRes"] tot by (intro in_int64_small) linarith+
  moreover have "filter (\<lambda>s. now - maxAge \<le> sm_at s) w = filter (\<lambda>s. now - maxAge \<le> sm_at s) (full_of l)"
    using e now by (auto simp: w intro!: filter_cong)
  ultimately show ?thesis by (simp add: sum)
qed

lemma represents_later: "represents t w l \<Longrightarrow> t \<le> now \<Longrightarrow> represents now w l"
proof -
  assume r: "represents t w l" and le: "t \<le> now"
  then obtain e where "e \<le> t - maxAge" "w = filter (\<lambda>s. e \<le> sm_at s) (full_of l)"
    by (auto simp: represents_def)
  then have "\<exists>e \<le> now - maxAge. w = filter (\<lambda>s. e \<le> sm_at s) (full_of l)"
    using le by (intro exI [of _ e]) simp
  with r le show ?thesis unfolding represents_def using log_ok_later by blast
qed

lemma snd_window_sum: "snd (window_sum now window w) = evict now w"
  by (simp add: window_sum_def Let_def)

lemma represents_evict: "represents t w l \<Longrightarrow> t \<le> now \<Longrightarrow> represents now (evict now w) l"
  using represents_query_value [of t w l now 1]
  by (auto simp: snd_window_sum [of now 1 w, symmetric] represents_def in_int64_def log_ok_later
      intro!: exI [of _ "now - maxAge"])

interpretation meter: egress_meter new_ring_window window_add window_sum maxAge bucketRes represents
proof
  show "represents now new_ring_window []" for now
    by (auto simp: represents_def new_ring_window_def log_ok_def)
next
  fix t w l now b
  assume "represents t w l" "t \<le> now" "0 < b" "log_total l + b < 2 ^ 63"
  then show "represents now (window_add now b w) (l @ [(now, b)])" by (rule represents_feed)
next
  fix t w l now window
  assume "represents t w l" "t \<le> now"
  then show "represents now (snd (window_sum now window w)) l"
    by (simp add: snd_window_sum represents_evict)
next
  fix t w l now window
  assume a: "represents t w l" "t \<le> now" "in_int64 window" "0 < window"
  then have l: "log_ok t l" by (simp add: represents_def)
  show "fst (window_sum now window w) \<le> bytes_since (now - min window maxAge) l"
    and "bytes_since (now - min window maxAge + bucketRes) l \<le> fst (window_sum now window w)"
    using full_of_bounds [OF l] by (simp_all add: represents_query_value [OF a])
qed

end
