(* ===== verification/CostAccountant.thy ===== *)
theory CostAccountant
  imports CostWindow
begin

text \<open>
  \<^verbatim>\<open>internal/cost/accountant.go\<close>: budgets, prices and one window per cloud.  The
  \<^verbatim>\<open>now\<close> field of the Go struct is the clock; the model passes its reading to each call.
  A possibly nil \<^verbatim>\<open>*Accountant\<close> receiver is an \<open>option\<close>.  Queries return the new
  state too, since \<^verbatim>\<open>sum\<close> evicts old samples in place.
  The lemmas relate a whole history of calls to the log of the accepted egress of each
  cloud, and so \<^verbatim>\<open>Allowed\<close> to the true egress of the budget window.
\<close>

section \<open>Budgets\<close>

record budget =
  bg_window :: int
  bg_max_gb :: f64

text \<open>Multiplying a double by a power of two is exact, short of overflow to an infinity;
  both sides of an overflow are out of range for the conversion that follows.\<close>

fun f64_scale :: "rat \<Rightarrow> f64 \<Rightarrow> f64" where
  "f64_scale k (Fin q) = Fin (q * k)"
| "f64_scale k x = x"

text \<open>Go's \<^verbatim>\<open>int64(x)\<close>: truncation; an unrepresentable value gives the least integer, as
  the conversion instruction of amd64 does (the language leaves it to the
  implementation).\<close>

definition trunc_rat :: "rat \<Rightarrow> int" where
  "trunc_rat q = (if 0 \<le> q then \<lfloor>q\<rfloor> else \<lceil>q\<rceil>)"

fun f64_to_i64 :: "f64 \<Rightarrow> int" where
  "f64_to_i64 (Fin q) = (if in_int64 (trunc_rat q) then trunc_rat q else - (2 ^ 63))"
| "f64_to_i64 _ = - (2 ^ 63)"

definition max_bytes :: "budget \<Rightarrow> int" where
  "max_bytes b = f64_to_i64 (f64_scale 1024 (f64_scale 1024 (f64_scale 1024 (bg_max_gb b))))"

section \<open>The accountant\<close>

record accountant =
  ac_budgets :: "string \<rightharpoonup> budget"
  ac_prices :: "string \<rightharpoonup> f64"
  ac_tally :: "string \<rightharpoonup> ring_window"

text \<open>The tables are copied entry by entry; a nil map has none.\<close>

definition copy_budgets :: "(string \<rightharpoonup> budget) \<Rightarrow> (string \<rightharpoonup> budget)" where
  "copy_budgets budgets = Map.empty ++ budgets"

definition copy_floats :: "(string \<rightharpoonup> f64) \<Rightarrow> (string \<rightharpoonup> f64)" where
  "copy_floats prices = Map.empty ++ prices"

lemma copies [simp]: "copy_budgets b = b" "copy_floats p = p"
  by (simp_all add: copy_budgets_def copy_floats_def)

definition new_accountant :: "(string \<rightharpoonup> budget) \<Rightarrow> (string \<rightharpoonup> f64) \<Rightarrow> accountant" where
  "new_accountant budgets prices =
     \<lparr>ac_budgets = copy_budgets budgets, ac_prices = copy_floats prices, ac_tally = Map.empty\<rparr>"

definition add_egress :: "int \<Rightarrow> string \<Rightarrow> int \<Rightarrow> accountant option \<Rightarrow> accountant option" where
  "add_egress now cloud bytes acc =
     (case acc of None \<Rightarrow> None
      | Some a \<Rightarrow>
          if bytes \<le> 0 \<or> cloud = '''' then Some a
          else
            let w = (case ac_tally a cloud of None \<Rightarrow> new_ring_window | Some w \<Rightarrow> w)
            in Some (a\<lparr>ac_tally := (ac_tally a)(cloud \<mapsto> window_add now bytes w)\<rparr>))"

definition allowed :: "int \<Rightarrow> string \<Rightarrow> accountant option \<Rightarrow> bool \<times> accountant option" where
  "allowed now cloud acc =
     (case acc of None \<Rightarrow> (True, None)
      | Some a \<Rightarrow>
          case ac_budgets a cloud of None \<Rightarrow> (True, Some a)
          | Some b \<Rightarrow>
              case ac_tally a cloud of None \<Rightarrow> (True, Some a)
              | Some w \<Rightarrow>
                  let (used, w') = window_sum now (bg_window b) w
                  in (used < max_bytes b, Some (a\<lparr>ac_tally := (ac_tally a)(cloud \<mapsto> w')\<rparr>)))"

definition usage_bytes :: "int \<Rightarrow> string \<Rightarrow> accountant option \<Rightarrow> int \<times> accountant option" where
  "usage_bytes now cloud acc =
     (case acc of None \<Rightarrow> (0, None)
      | Some a \<Rightarrow>
          case ac_tally a cloud of None \<Rightarrow> (0, Some a)
          | Some w \<Rightarrow>
              let window = (case ac_budgets a cloud of None \<Rightarrow> 60 * 1000000000 | Some b \<Rightarrow> bg_window b);
                  (used, w') = window_sum now window w
              in (used, Some (a\<lparr>ac_tally := (ac_tally a)(cloud \<mapsto> w')\<rparr>)))"

definition price_per_gb :: "string \<Rightarrow> accountant option \<Rightarrow> f64" where
  "price_per_gb cloud acc =
     (case acc of None \<Rightarrow> Fin 0
      | Some a \<Rightarrow> (case ac_prices a cloud of None \<Rightarrow> Fin 0 | Some p \<Rightarrow> p))"

section \<open>Histories of calls\<close>

datatype acc_op = AddEgress string int | Allowed string | UsageBytes string

fun acc_step :: "int \<Rightarrow> acc_op \<Rightarrow> accountant option \<Rightarrow> accountant option" where
  "acc_step now (AddEgress cloud bytes) a = add_egress now cloud bytes a"
| "acc_step now (Allowed cloud) a = snd (allowed now cloud a)"
| "acc_step now (UsageBytes cloud) a = snd (usage_bytes now cloud a)"

fun acc_run :: "(int \<times> acc_op) list \<Rightarrow> accountant option \<Rightarrow> accountant option" where
  "acc_run [] a = a"
| "acc_run ((now, x) # xs) a = acc_run xs (acc_step now x a)"

text \<open>The egress of one cloud that a history records.\<close>

fun cloud_log :: "string \<Rightarrow> (int \<times> acc_op) list \<Rightarrow> egress_log" where
  "cloud_log c [] = []"
| "cloud_log c ((now, AddEgress cloud bytes) # xs) =
     (if cloud = c \<and> 0 < bytes \<and> c \<noteq> '''' then [(now, bytes)] else []) @ cloud_log c xs"
| "cloud_log c (_ # xs) = cloud_log c xs"

definition meters :: "int \<Rightarrow> accountant \<Rightarrow> string \<Rightarrow> egress_log \<Rightarrow> bool" where
  "meters t a c l \<longleftrightarrow> (case ac_tally a c of None \<Rightarrow> l = [] | Some w \<Rightarrow> represents t w l)"

lemma cloud_log_append: "cloud_log c (xs @ ys) = cloud_log c xs @ cloud_log c ys"
  by (induction c xs rule: cloud_log.induct) auto

lemma cloud_log_total_nonneg: "0 \<le> log_total (cloud_log c xs)"
proof (induction c xs rule: cloud_log.induct)
  case (2 c now cloud bytes xs)
  then show ?case by (simp add: log_total_def)
qed (simp_all add: log_total_def)

lemma log_total_append: "log_total (l @ l') = log_total l + log_total l'"
  by (simp add: log_total_def)

lemma acc_step_budgets [simp]:
  "acc_step now x (Some a) = Some a' \<Longrightarrow> ac_budgets a' = ac_budgets a"
  by (cases x) (auto simp: add_egress_def allowed_def usage_bytes_def Let_def
      split: option.splits if_splits prod.splits)

lemma acc_step_Some: "\<exists>a'. acc_step now x (Some a) = Some a'"
  by (cases x) (auto simp: add_egress_def allowed_def usage_bytes_def Let_def
      split: option.splits prod.splits)

lemma ac_budgets_new [simp]: "ac_budgets (new_accountant bs ps) = bs"
  by (simp add: new_accountant_def)

lemma meters_new: "meters t (new_accountant bs ps) c []"
  by (simp add: meters_def new_accountant_def)

lemma meters_later: "meters t a c l \<Longrightarrow> t \<le> now \<Longrightarrow> meters now a c l"
  by (auto simp: meters_def represents_later split: option.splits)

lemma meters_add:
  assumes m: "meters t a c l" and now: "t \<le> now"
    and step: "add_egress now cloud bytes (Some a) = Some a'"
    and fits: "log_total (l @ cloud_log c [(now, AddEgress cloud bytes)]) < 2 ^ 63"
  shows "meters now a' c (l @ cloud_log c [(now, AddEgress cloud bytes)])"
proof (cases "bytes \<le> 0 \<or> cloud = '''' \<or> cloud \<noteq> c")
  case True
  then have "ac_tally a' c = ac_tally a c"
    using step by (auto simp: add_egress_def Let_def split: if_splits)
  moreover have "cloud_log c [(now, AddEgress cloud bytes)] = []" using True by auto
  ultimately show ?thesis using meters_later [OF m now] by (simp add: meters_def)
next
  case False
  define w where "w = (case ac_tally a c of None \<Rightarrow> new_ring_window | Some w \<Rightarrow> w)"
  from False have l': "cloud_log c [(now, AddEgress cloud bytes)] = [(now, bytes)]" and pos: "0 < bytes"
    by auto
  have tally: "ac_tally a' c = Some (window_add now bytes w)"
    using False step by (auto simp: add_egress_def Let_def w_def split: if_splits)
  have "represents t w l"
    using m meter.rep_empty by (auto simp: meters_def w_def split: option.splits)
  then have "represents now (window_add now bytes w) (l @ [(now, bytes)])"
    using now pos fits [unfolded l'] by (intro meter.rep_feed) simp_all
  then show ?thesis by (simp only: meters_def tally l' option.case)
qed

lemma meters_query:
  assumes m: "meters t a c l" and now: "t \<le> now"
    and step: "acc_step now x (Some a) = Some a'" and x: "x = Allowed d \<or> x = UsageBytes d"
  shows "meters now a' c l"
proof (cases "d = c")
  case False
  then have "ac_tally a' c = ac_tally a c"
    using step x by (auto simp: allowed_def usage_bytes_def Let_def split: option.splits prod.splits)
  then show ?thesis using meters_later [OF m now] by (simp add: meters_def)
next
  case True
  show ?thesis
  proof (cases "ac_tally a c")
    case None
    then have "a' = a" using step x True by (auto simp: allowed_def usage_bytes_def split: option.splits)
    then show ?thesis using meters_later [OF m now] by simp
  next
    case (Some w)
    with m have r: "represents t w l" by (simp add: meters_def)
    from Some True x step have "ac_tally a' c = Some w \<or> ac_tally a' c = Some (evict now w)"
      by (auto simp: allowed_def usage_bytes_def Let_def split_beta snd_window_sum split: option.splits)
    with meter.rep_query [OF r now] represents_later [OF r now] show ?thesis
      by (auto simp: meters_def snd_window_sum)
  qed
qed

text \<open>A whole history keeps every window in step with its cloud's log.\<close>

lemma meters_step:
  assumes m: "meters t a c l" and now: "t \<le> now" and step: "acc_step now x (Some a) = Some a'"
    and fits: "log_total (l @ cloud_log c [(now, x)]) < 2 ^ 63"
  shows "meters now a' c (l @ cloud_log c [(now, x)])"
proof (cases x)
  case (AddEgress cloud bytes)
  show ?thesis using m now step fits unfolding AddEgress by (intro meters_add) simp_all
next
  case (Allowed d)
  then show ?thesis using meters_query [OF m now step] by simp
next
  case (UsageBytes d)
  then show ?thesis using meters_query [OF m now step] by simp
qed

lemma acc_run_meters:
  "meters t a c l \<Longrightarrow> sorted (t # List.map fst xs) \<Longrightarrow> log_total (l @ cloud_log c xs) < 2 ^ 63 \<Longrightarrow>
   \<exists>a'. acc_run xs (Some a) = Some a' \<and> ac_budgets a' = ac_budgets a
        \<and> meters (last (t # List.map fst xs)) a' c (l @ cloud_log c xs)"
proof (induction xs arbitrary: t a l)
  case Nil
  then show ?case by simp
next
  case (Cons y xs)
  obtain now x where y: "y = (now, x)" by fastforce
  from Cons.prems(2) have now: "t \<le> now" and srt: "sorted (now # List.map fst xs)" by (auto simp: y)
  obtain b where step: "acc_step now x (Some a) = Some b" using acc_step_Some by blast
  have split: "cloud_log c (y # xs) = cloud_log c [(now, x)] @ cloud_log c xs"
    using cloud_log_append [of c "[y]" xs] by (simp add: y)
  have "meters now b c (l @ cloud_log c [(now, x)])"
    using Cons.prems(3) cloud_log_total_nonneg [of c xs]
    by (intro meters_step [OF Cons.prems(1) now step]) (simp add: split log_total_append)
  then obtain a' where "acc_run xs (Some b) = Some a'" and "ac_budgets a' = ac_budgets b"
    and "meters (last (now # List.map fst xs)) a' c (l @ cloud_log c (y # xs))"
    using Cons.IH [OF _ srt] Cons.prems(3) by (fastforce simp only: split append_assoc)
  then show ?case using step acc_step_budgets [OF step] by (simp add: y)
qed

section \<open>What a budget guarantees\<close>

lemma allowed_meters:
  assumes m: "meters t a c l" and now: "t \<le> now" and b: "ac_budgets a c = Some b"
    and W: "in_int64 (bg_window b)" "0 < bg_window b"
  shows "bytes_since (now - min (bg_window b) maxAge) l < max_bytes b \<Longrightarrow> fst (allowed now c (Some a))"
    and "l \<noteq> [] \<Longrightarrow> max_bytes b \<le> bytes_since (now - min (bg_window b) maxAge + bucketRes) l \<Longrightarrow>
         \<not> fst (allowed now c (Some a))"
proof -
  show "fst (allowed now c (Some a))"
    if "bytes_since (now - min (bg_window b) maxAge) l < max_bytes b"
    using m b that meter.within_cap [OF _ now W]
    by (auto simp: allowed_def meters_def Let_def split_beta split: option.splits)
  show "\<not> fst (allowed now c (Some a))"
    if "l \<noteq> []" and "max_bytes b \<le> bytes_since (now - min (bg_window b) maxAge + bucketRes) l"
    using m b that meter.over_cap [OF _ now W]
    by (auto simp: allowed_def meters_def Let_def split_beta split: option.splits)
qed

lemma history_clock:
  assumes "sorted (List.map fst xs @ [now])"
  shows "sorted ((if xs = [] then now else fst (hd xs)) # List.map fst xs)"
    and "last ((if xs = [] then now else fst (hd xs)) # List.map fst xs) \<le> now"
proof -
  show "sorted ((if xs = [] then now else fst (hd xs)) # List.map fst xs)"
    using assms by (cases xs) (auto simp: sorted_append)
  have "\<forall>u \<in> set (List.map fst xs). u \<le> now" using assms by (simp add: sorted_append)
  then show "last ((if xs = [] then now else fst (hd xs)) # List.map fst xs) \<le> now"
    by (cases xs) (simp_all add: last_map)
qed

text \<open>
  C10: After any history of calls at non-decreasing times, \<^verbatim>\<open>Allowed\<close> never blocks a cloud
  whose recorded egress of the budget window (cut at one hour) is below the budget, and
  always blocks a cloud whose egress of that window less one second reaches it.
\<close>

theorem accountant_budget_decision:
  assumes "sorted (List.map fst xs @ [now])"
    and "log_total (cloud_log c xs) < 2 ^ 63"
    and "budgets c = Some b" and "in_int64 (bg_window b)" and "0 < bg_window b"
  shows "(bytes_since (now - min (bg_window b) maxAge) (cloud_log c xs) < max_bytes b \<longrightarrow>
            fst (allowed now c (acc_run xs (Some (new_accountant budgets prices)))))
       \<and> (cloud_log c xs \<noteq> [] \<and>
          max_bytes b \<le> bytes_since (now - min (bg_window b) maxAge + bucketRes) (cloud_log c xs) \<longrightarrow>
            \<not> fst (allowed now c (acc_run xs (Some (new_accountant budgets prices)))))"
proof -
  define t where "t = (if xs = [] then now else fst (hd xs))"
  have srt: "sorted (t # List.map fst xs)" and last: "last (t # List.map fst xs) \<le> now"
    using history_clock [OF assms(1)] by (simp_all only: t_def)
  obtain a where run: "acc_run xs (Some (new_accountant budgets prices)) = Some a"
    and bs: "ac_budgets a = budgets" and m: "meters (last (t # List.map fst xs)) a c (cloud_log c xs)"
    using acc_run_meters [where a = "new_accountant budgets prices" and c = c, OF meters_new srt]
      assms(2) by (fastforce simp only: append_Nil ac_budgets_new)
  from bs assms(3) have b: "ac_budgets a c = Some b" by simp
  show ?thesis
    unfolding run using allowed_meters [OF m last b assms(4,5)] by (intro conjI impI) simp_all
qed

end
