(* ===== verification/Strategies.thy ===== *)
theory Strategies
  imports Backends CostAccountant "HOL-Library.Multiset"
begin

text \<open>
  The base strategies of \<^verbatim>\<open>internal/pool/strategy.go\<close>.  A \<^verbatim>\<open>Pick\<close> method gets the
  healthy backends in pool order and returns \<^verbatim>\<open>(backend, ok)\<close> or panics: that is a
  \<open>pick\<close>.  The atomic counters of the round-robin strategies are threaded; the
  accountant pointer of the cost strategy is an index into a store of accountants, since
  the proxy writes to the object the strategy reads.
  The locale \<open>cyclic_schedule\<close> holds the fairness argument once; round robin and
  weighted round robin are its two instances.
\<close>

section \<open>Results\<close>

datatype pick = Panic | NoPick | Pick bref

fun picked :: "pick \<Rightarrow> bref option" where
  "picked (Pick r) = Some r"
| "picked _ = None"

section \<open>Round robin\<close>

definition rr_pick :: "u64 \<Rightarrow> bref list \<Rightarrow> pick \<times> u64" where
  "rr_pick counter healthy =
     (if healthy = [] then (NoPick, counter)
      else (Pick (healthy ! (unat counter mod length healthy)), counter + 1))"

section \<open>Weighted round robin\<close>

definition wrr_total :: "heap \<Rightarrow> bref list \<Rightarrow> int" where
  "wrr_total h healthy =
     foldl (\<lambda>t r. if 0 < bk_weight (h r) then wrap64 (t + bk_weight (h r)) else t) 0 healthy"

fun wrr_scan :: "heap \<Rightarrow> int \<Rightarrow> int \<Rightarrow> bref list \<Rightarrow> bref option" where
  "wrr_scan h pos cum [] = None"
| "wrr_scan h pos cum (r # rs) =
     (if bk_weight (h r) \<le> 0 then wrr_scan h pos cum rs
      else let cum' = wrap64 (cum + bk_weight (h r))
           in if pos < cum' then Some r else wrr_scan h pos cum' rs)"

definition wrr_pick :: "heap \<Rightarrow> u64 \<Rightarrow> bref list \<Rightarrow> pick \<times> u64" where
  "wrr_pick h counter healthy =
     (if healthy = [] then (NoPick, counter)
      else let t = wrr_total h healthy
           in if t \<le> 0 then (Pick (healthy ! (unat counter mod length healthy)), counter + 1)
              else let pos = go_rem (int_of_u64 counter) t
                   in (case wrr_scan h pos 0 healthy of
                         Some r \<Rightarrow> (Pick r, counter + 1)
                       | None \<Rightarrow> (Pick (last healthy), counter + 1)))"

section \<open>Least connections and random\<close>

text \<open>The loop shared by least connections and least latency: keep the first minimum.\<close>

fun min_loop :: "(bref \<Rightarrow> int) \<Rightarrow> int \<Rightarrow> bref \<Rightarrow> bref list \<Rightarrow> bref" where
  "min_loop key m best [] = best"
| "min_loop key m best (r # rs) =
     (if key r < m then min_loop key (key r) r rs else min_loop key m best rs)"

definition lc_pick :: "heap \<Rightarrow> bref list \<Rightarrow> pick" where
  "lc_pick h healthy =
     (case healthy of [] \<Rightarrow> NoPick
      | r # rs \<Rightarrow> Pick (min_loop (\<lambda>q. bk_inflight (h q)) (bk_inflight (h r)) r rs))"

text \<open>\<^verbatim>\<open>rand.IntN(n)\<close> as a draw \<open>e\<close> reduced to \<open>[0, n)\<close>: every result is some draw's.\<close>

definition rand_pick :: "nat \<Rightarrow> bref list \<Rightarrow> pick" where
  "rand_pick e healthy = (if healthy = [] then NoPick else Pick (healthy ! (e mod length healthy)))"

section \<open>Cost-bounded least latency\<close>

type_synonym acc_ref = nat
type_synonym accounts = "acc_ref \<Rightarrow> accountant"

text \<open>\<^verbatim>\<open>s.accountant.Allowed(cloud)\<close> through the pointer.\<close>

definition acc_allowed :: "int \<Rightarrow> acc_ref option \<Rightarrow> string \<Rightarrow> accounts \<Rightarrow> bool \<times> accounts" where
  "acc_allowed now p cloud accs =
     (case p of None \<Rightarrow> (True, accs)
      | Some a \<Rightarrow> (case allowed now cloud (Some (accs a)) of
                    (ok, Some acc) \<Rightarrow> (ok, accs(a := acc))
                  | (ok, None) \<Rightarrow> (ok, accs)))"

fun cost_filter :: "heap \<Rightarrow> int \<Rightarrow> acc_ref option \<Rightarrow> bref list \<Rightarrow> accounts \<Rightarrow> bref list \<times> accounts" where
  "cost_filter h now p [] accs = ([], accs)"
| "cost_filter h now p (r # rs) accs =
     (let (ok, accs) = acc_allowed now p (bk_cloud (h r)) accs;
          (rest, accs) = cost_filter h now p rs accs
      in (if ok then r # rest else rest, accs))"

text \<open>The selection among the candidates, after the budget filter.\<close>

definition latency_select :: "heap \<Rightarrow> u64 \<Rightarrow> bref list \<Rightarrow> pick \<times> u64" where
  "latency_select h rr candidates =
     (let unsampled = filter (\<lambda>r. latency (h r) = 0) candidates
      in if unsampled \<noteq> [] then (Pick (unsampled ! (unat rr mod length unsampled)), rr + 1)
         else (case candidates of [] \<Rightarrow> (Panic, rr)
               | r # rs \<Rightarrow> (Pick (min_loop (\<lambda>q. latency (h q)) (latency (h r)) r rs), rr)))"

definition cost_pick ::
  "heap \<Rightarrow> int \<Rightarrow> acc_ref option \<Rightarrow> u64 \<Rightarrow> bref list \<Rightarrow> accounts \<Rightarrow> pick \<times> u64 \<times> accounts" where
  "cost_pick h now p rr healthy accs =
     (if healthy = [] then (NoPick, rr, accs)
      else let (kept, accs) = cost_filter h now p healthy accs;
               candidates = (if kept = [] then healthy else kept);
               (res, rr) = latency_select h rr candidates
           in (res, rr, accs))"

section \<open>Cyclic schedules\<close>

text \<open>
  A scheduler whose \<open>i\<close>-th pick, for \<open>i\<close> below some bound, is entry \<open>i mod n\<close> of a list
  of slots.  Any whole number of consecutive rounds then picks every slot equally often.
\<close>

lemma mset_rotates: "mset (rotate n xs) = mset xs"
proof (induction n)
  case (Suc n)
  have "mset (rotate1 ys) = mset ys" for ys :: "'a list" by (cases ys) simp_all
  with Suc show ?case by simp
qed simp

lemma count_image_Some: "count (image_mset Some M) (Some b) = count M b"
  by (induction M) simp_all

locale cyclic_schedule =
  fixes slots :: "'p \<Rightarrow> 'b list"
    and nth_pick :: "'p \<Rightarrow> nat \<Rightarrow> 'b option"
    and ok :: "'p \<Rightarrow> bool"
    and bound :: nat
  assumes at_slot: "ok p \<Longrightarrow> i < bound \<Longrightarrow> nth_pick p i = Some (slots p ! (i mod length (slots p)))"
    and slots_nonempty: "ok p \<Longrightarrow> slots p \<noteq> []"
begin

lemma one_round:
  assumes "ok p" and "c + length (slots p) \<le> bound"
  shows "List.map (nth_pick p) [c..<c + length (slots p)] = List.map Some (rotate c (slots p))"
proof (rule nth_equalityI)
  fix i assume "i < length (List.map (nth_pick p) [c..<c + length (slots p)])"
  then have i: "i < length (slots p)" by simp
  with assms show "List.map (nth_pick p) [c..<c + length (slots p)] ! i = List.map Some (rotate c (slots p)) ! i"
    by (simp add: at_slot nth_rotate)
qed simp

lemma rounds:
  assumes "ok p" and "c + k * length (slots p) \<le> bound"
  shows "mset (List.map (nth_pick p) [c..<c + k * length (slots p)])
       = repeat_mset k (image_mset Some (mset (slots p)))"
  using assms(2)
proof (induction k)
  case (Suc k)
  let ?n = "length (slots p)"
  from Suc.prems have "c + k * ?n \<le> bound" and le: "c + k * ?n + ?n \<le> bound" by simp_all
  have "c + Suc k * ?n = (c + k * ?n) + ?n" by simp
  then have "[c..<c + Suc k * ?n] = [c..<c + k * ?n] @ [c + k * ?n..<c + k * ?n + ?n]"
    by (simp only: upt_add_eq_append [OF le_add1])
  then have "mset (List.map (nth_pick p) [c..<c + Suc k * ?n])
      = mset (List.map (nth_pick p) [c..<c + k * ?n])
        + mset (List.map Some (rotate (c + k * ?n) (slots p)))"
    by (simp only: map_append mset_append one_round [OF assms(1) le])
  also have "\<dots> = repeat_mset k (image_mset Some (mset (slots p))) + image_mset Some (mset (slots p))"
    by (subst Suc.IH [OF \<open>c + k * ?n \<le> bound\<close>]) (simp only: mset_map mset_rotates)
  finally show ?case by (simp add: add.commute)
qed simp

lemma fair:
  assumes "ok p" and "c + k * length (slots p) \<le> bound"
  shows "count_list (List.map (nth_pick p) [c..<c + k * length (slots p)]) (Some b)
       = k * count_list (slots p) b"
proof -
  have "count_list (List.map (nth_pick p) [c..<c + k * length (slots p)]) (Some b)
      = count (repeat_mset k (image_mset Some (mset (slots p)))) (Some b)"
    by (simp only: rounds [OF assms, symmetric] count_mset)
  also have "\<dots> = k * count (mset (slots p)) b"
    by (simp add: count_image_Some)
  finally show ?thesis by (simp add: count_mset)
qed

end

subsection \<open>Round robin is a cyclic schedule\<close>

text \<open>The picks of \<open>m\<close> consecutive calls of a counter strategy on an unchanged healthy
  list, and the counter they leave.\<close>

fun pick_run :: "(u64 \<Rightarrow> pick \<times> u64) \<Rightarrow> nat \<Rightarrow> u64 \<Rightarrow> pick list \<times> u64" where
  "pick_run f 0 counter = ([], counter)"
| "pick_run f (Suc m) counter =
     (let (x, counter) = f counter; (xs, counter) = pick_run f m counter in (x # xs, counter))"

lemma pick_run_picks:
  assumes step: "\<And>c. snd (f c) = c + 1"
  shows "fst (pick_run f m (of_nat i)) = List.map (\<lambda>j. fst (f (of_nat j))) [i..<i + m]"
proof (induction m arbitrary: i)
  case (Suc m)
  have "snd (f (of_nat i)) = of_nat (Suc i)" by (simp add: step)
  then have "fst (pick_run f (Suc m) (of_nat i)) = fst (f (of_nat i)) # fst (pick_run f m (of_nat (Suc i)))"
    by (simp add: split_beta del: of_nat_Suc)
  also have "\<dots> = List.map (\<lambda>j. fst (f (of_nat j))) (i # [Suc i..<Suc i + m])"
    by (simp add: Suc.IH del: of_nat_Suc)
  also have "i # [Suc i..<Suc i + m] = [i..<i + Suc m]"
    by (simp add: upt_conv_Cons)
  finally show ?case .
qed simp

lemma count_picked: "count_list ps (Pick r) = count_list (List.map picked ps) (Some r)"
proof (induction ps)
  case (Cons p ps)
  then show ?case by (cases p) simp_all
qed simp

lemma pick_run_count:
  assumes "\<And>c. snd (f c) = c + 1"
  shows "count_list (fst (pick_run f m c)) (Pick r)
       = count_list (List.map (\<lambda>j. picked (fst (f (of_nat j)))) [unat c..<unat c + m]) (Some r)"
  using pick_run_picks [of f m "unat c", OF assms] by (simp add: count_picked comp_def)

definition rr_nth :: "bref list \<Rightarrow> nat \<Rightarrow> bref option" where
  "rr_nth healthy i = picked (fst (rr_pick (of_nat i) healthy))"

interpretation rr: cyclic_schedule "\<lambda>healthy. healthy" rr_nth "\<lambda>healthy. healthy \<noteq> []" "2 ^ 64"
  by unfold_locales (simp_all add: rr_nth_def rr_pick_def unsigned_of_nat take_bit_nat_eq_self)

text \<open>
  Over \<open>k\<close> times as many consecutive calls as there are healthy backends, round robin
  picks each healthy backend exactly \<open>k\<close> times, from any counter value short of the
  wrap-around of the \<^verbatim>\<open>uint64\<close>.
\<close>

theorem round_robin_fair:
  assumes "healthy \<noteq> []" and "unat counter + k * length healthy \<le> 2 ^ 64"
  shows "count_list (fst (pick_run (\<lambda>c. rr_pick c healthy) (k * length healthy) counter)) (Pick r)
       = k * count_list healthy r"
proof -
  have "snd (rr_pick c healthy) = c + 1" for c using assms(1) by (simp add: rr_pick_def)
  then show ?thesis
    using rr.fair [OF assms] by (simp only: pick_run_count rr_nth_def [abs_def])
qed

subsection \<open>Weighted round robin is round robin over the expanded list\<close>

text \<open>The reference: every backend repeated as often as its weight says.\<close>

definition expand :: "heap \<Rightarrow> bref list \<Rightarrow> bref list" where
  "expand h healthy = concat (List.map (\<lambda>r. replicate (nat (bk_weight (h r))) r) healthy)"

lemma expand_Nil [simp]: "expand h [] = []"
  and expand_Cons [simp]: "expand h (r # rs) = replicate (nat (bk_weight (h r))) r @ expand h rs"
  by (simp_all add: expand_def)

lemma wrr_total_expand_from:
  "0 \<le> t \<Longrightarrow> t + int (length (expand h rs)) < 2 ^ 63 \<Longrightarrow>
   foldl (\<lambda>t r. if 0 < bk_weight (h r) then wrap64 (t + bk_weight (h r)) else t) t rs
   = t + int (length (expand h rs))"
proof (induction rs arbitrary: t)
  case (Cons r rs)
  show ?case
  proof (cases "0 < bk_weight (h r)")
    case True
    with Cons.prems have w: "wrap64 (t + bk_weight (h r)) = t + bk_weight (h r)"
      by (intro wrap64_id in_int64_small) simp_all
    show ?thesis using True Cons.prems Cons.IH [of "t + bk_weight (h r)"] by (simp add: w)
  next
    case False
    with Cons show ?thesis by simp
  qed
qed simp

lemma wrr_total_expand:
  "int (length (expand h rs)) < 2 ^ 63 \<Longrightarrow> wrr_total h rs = int (length (expand h rs))"
  unfolding wrr_total_def by (subst wrr_total_expand_from) simp_all

lemma wrr_scan_expand:
  "0 \<le> cum \<Longrightarrow> cum + int (length (expand h rs)) < 2 ^ 63 \<Longrightarrow> i < length (expand h rs) \<Longrightarrow>
   wrr_scan h (cum + int i) cum rs = Some (expand h rs ! i)"
proof (induction rs arbitrary: cum i)
  case (Cons r rs)
  define n where "n = nat (bk_weight (h r))"
  show ?case
  proof (cases "bk_weight (h r) \<le> 0")
    case True
    with Cons show ?thesis by simp
  next
    case False
    then have n: "bk_weight (h r) = int n" by (simp add: n_def)
    with Cons.prems have w: "wrap64 (cum + int n) = cum + int n"
      by (intro wrap64_id in_int64_small) simp_all
    show ?thesis
    proof (cases "i < n")
      case True
      then show ?thesis using False by (simp add: n w nth_append)
    next
      case i: False
      then have "cum + int i = (cum + int n) + int (i - n)" by simp
      moreover have "wrr_scan h ((cum + int n) + int (i - n)) (cum + int n) rs = Some (expand h rs ! (i - n))"
        using Cons.prems i by (intro Cons.IH) (simp_all add: n)
      ultimately show ?thesis using False i by (simp add: n w nth_append)
    qed
  qed
qed simp

definition wrr_nth :: "heap \<times> bref list \<Rightarrow> nat \<Rightarrow> bref option" where
  "wrr_nth p i = picked (fst (wrr_pick (fst p) (of_nat i) (snd p)))"

definition wrr_ok :: "heap \<times> bref list \<Rightarrow> bool" where
  "wrr_ok p \<longleftrightarrow> expand (fst p) (snd p) \<noteq> [] \<and> int (length (expand (fst p) (snd p))) < 2 ^ 63"

text \<open>One pick, as an equation.\<close>

lemma wrr_pick_expand:
  assumes ok: "wrr_ok (h, healthy)" and c: "unat counter < 2 ^ 63"
  shows "wrr_pick h counter healthy
    = (Pick (expand h healthy ! (unat counter mod length (expand h healthy))), counter + 1)"
proof -
  define n where "n = length (expand h healthy)"
  have n: "0 < n" "int n < 2 ^ 63" and ne: "healthy \<noteq> []" using ok by (auto simp: wrr_ok_def n_def)
  have t: "wrr_total h healthy = int n" using ok by (simp add: n_def wrr_ok_def wrr_total_expand)
  have "go_rem (int_of_u64 counter) (int n) = int (unat counter mod n)"
    by (simp only: int_of_u64_unat [OF c] go_rem_int [OF n(1)])
  moreover have "wrr_scan h (0 + int (unat counter mod n)) 0 healthy = Some (expand h healthy ! (unat counter mod n))"
    using n by (intro wrr_scan_expand) (simp_all add: n_def [symmetric])
  ultimately show ?thesis
    using n ne by (simp add: wrr_pick_def t n_def [symmetric])
qed

interpretation wrr: cyclic_schedule "\<lambda>p. expand (fst p) (snd p)" wrr_nth wrr_ok "2 ^ 63"
proof
  fix p i assume ok: "wrr_ok p" and i: "i < (2 ^ 63 :: nat)"
  have "unat (of_nat i :: u64) = i" using i by (simp add: unsigned_of_nat take_bit_nat_eq_self)
  then show "wrr_nth p i = Some (expand (fst p) (snd p) ! (i mod length (expand (fst p) (snd p))))"
    using ok i wrr_pick_expand [of "fst p" "snd p" "of_nat i"] by (simp add: wrr_nth_def)
next
  fix p assume "wrr_ok p"
  then show "expand (fst p) (snd p) \<noteq> []" by (simp add: wrr_ok_def)
qed

text \<open>
  C11: Over \<open>k\<close> rounds of as many consecutive calls as the positive weights add up to,
  weighted round robin picks every healthy backend exactly \<open>k\<close> times its weight (times
  its multiplicity in the list), while the counter is below \<open>2 ^ 63\<close>.
\<close>

theorem weighted_round_robin_fair:
  assumes "expand h healthy \<noteq> []" and "unat counter + k * length (expand h healthy) \<le> 2 ^ 63"
    and "int (length (expand h healthy)) < 2 ^ 63"
  shows "count_list (fst (pick_run (\<lambda>c. wrr_pick h c healthy) (k * length (expand h healthy)) counter)) (Pick r)
       = k * (nat (bk_weight (h r)) * count_list healthy r)"
proof -
  have ok: "wrr_ok (h, healthy)" using assms by (simp add: wrr_ok_def)
  have rep: "count_list (replicate n q) r = (if q = r then n else 0)" for n q
    by (cases "q = r"; induction n) simp_all
  have cnt: "count_list (expand h xs) r = nat (bk_weight (h r)) * count_list xs r" for xs
    by (induction xs) (auto simp: count_list_append rep algebra_simps)
  have "expand h healthy \<noteq> [] \<Longrightarrow> healthy \<noteq> []" by auto
  then have "snd (wrr_pick h c healthy) = c + 1" for c
    using assms(1) by (simp add: wrr_pick_def Let_def split: option.splits)
  then show ?thesis
    using wrr.fair [OF ok, of "unat counter" k r] assms(2)
    by (simp only: pick_run_count wrr_nth_def [abs_def] fst_conv snd_conv cnt)
qed

text \<open>
  Weighted round robin with every weight 1 is plain round robin.
\<close>

theorem unit_weights_round_robin:
  assumes "\<forall>r \<in> set healthy. bk_weight (h r) = 1" and "unat counter < 2 ^ 63"
    and "int (length healthy) < 2 ^ 63"
  shows "wrr_pick h counter healthy = rr_pick counter healthy"
proof (cases "healthy = []")
  case False
  have e: "expand h healthy = healthy" using assms(1) by (induction healthy) simp_all
  then have "wrr_ok (h, healthy)" using assms False by (simp add: wrr_ok_def)
  from wrr_pick_expand [OF this assms(2)] False show ?thesis by (simp add: e rr_pick_def)
qed (simp add: wrr_pick_def rr_pick_def)

text \<open>
  From counter value \<open>2 ^ 63\<close> on, the conversion to a signed \<^verbatim>\<open>int\<close> makes the position
  negative or zero, and weighted round robin picks the first backend with a positive
  weight every time, whatever the other weights are.
\<close>

theorem weighted_round_robin_overflow:
  assumes "2 ^ 63 \<le> unat counter" and "0 < wrr_total h healthy"
    and "\<forall>r \<in> set healthy. in_int64 (bk_weight (h r))"
  shows "\<exists>r. find_first (\<lambda>r. 0 < bk_weight (h r)) healthy = Some r
           \<and> wrr_pick h counter healthy = (Pick r, counter + 1)"
proof -
  have scan: "find_first (\<lambda>r. 0 < bk_weight (h r)) rs = Some r \<Longrightarrow> pos \<le> 0 \<Longrightarrow>
      \<forall>r \<in> set rs. in_int64 (bk_weight (h r)) \<Longrightarrow> wrr_scan h pos 0 rs = Some r" for rs r pos
    by (induction rs) (auto split: if_splits)
  have fold: "\<forall>r \<in> set rs. \<not> 0 < bk_weight (h r) \<Longrightarrow>
      foldl (\<lambda>t r. if 0 < bk_weight (h r) then wrap64 (t + bk_weight (h r)) else t) t rs = t" for rs t
    by (induction rs) simp_all
  have ne: "healthy \<noteq> []" using assms(2) by (auto simp: wrr_total_def)
  obtain r where r: "find_first (\<lambda>r. 0 < bk_weight (h r)) healthy = Some r"
    using fold [of healthy 0] assms(2)
    by (cases "find_first (\<lambda>r. 0 < bk_weight (h r)) healthy")
      (auto simp: wrr_total_def find_first_None_iff)
  have "int (2 ^ 63) \<le> int (unat counter)" using assms(1) by (simp only: of_nat_le_iff)
  then have "2 ^ 63 \<le> uint counter" by simp
  then have "int_of_u64 counter < 0"
    using uint_lt2p [of counter] by (simp add: int_of_u64_big)
  then have "go_rem (int_of_u64 counter) (wrr_total h healthy) \<le> 0"
    using assms(2) by (rule go_rem_neg)
  from scan [OF r this assms(3)] r ne assms(2) show ?thesis by (simp add: wrr_pick_def Let_def)
qed

section \<open>Minimum selection\<close>

text \<open>The loop returns the first element with the least key.\<close>

lemma min_loop_first:
  "\<exists>pre post. b # rs = pre @ min_loop key (key b) b rs # post
     \<and> (\<forall>y \<in> set pre. key (min_loop key (key b) b rs) < key y)
     \<and> (\<forall>y \<in> set post. key (min_loop key (key b) b rs) \<le> key y)"
proof (induction rs arbitrary: b rule: rev_induct)
  case Nil
  show ?case by (intro exI [of _ "[]"]) simp
next
  case (snoc x rs)
  have app: "min_loop key (key c) c (rs @ [x])
      = (let d = min_loop key (key c) c rs in if key x < key d then x else d)" for c
    by (induction rs arbitrary: c) (simp_all add: Let_def)
  obtain pre post where IH: "b # rs = pre @ min_loop key (key b) b rs # post"
    "\<forall>y \<in> set pre. key (min_loop key (key b) b rs) < key y"
    "\<forall>y \<in> set post. key (min_loop key (key b) b rs) \<le> key y"
    using snoc.IH [of b] by blast
  show ?case
  proof (cases "key x < key (min_loop key (key b) b rs)")
    case True
    have "\<forall>y \<in> set (b # rs). key x < key y" using IH True by fastforce
    with True show ?thesis
      by (intro exI [of _ "b # rs"] exI [of _ "[]"]) (simp add: app Let_def)
  next
    case False
    with IH show ?thesis
      by (intro exI [of _ pre] exI [of _ "post @ [x]"]) (auto simp: app Let_def)
  qed
qed

lemma min_loop_least:
  assumes "q \<in> set (b # rs)"
  shows "key (min_loop key (key b) b rs) \<le> key q"
proof -
  obtain pre post where split: "b # rs = pre @ min_loop key (key b) b rs # post"
    and "\<forall>y \<in> set pre. key (min_loop key (key b) b rs) < key y"
    and "\<forall>y \<in> set post. key (min_loop key (key b) b rs) \<le> key y"
    using min_loop_first [of b rs key] by blast
  moreover have "q \<in> set pre \<or> q = min_loop key (key b) b rs \<or> q \<in> set post"
    using assms unfolding split by auto
  ultimately show ?thesis by (auto intro: less_imp_le)
qed

text \<open>
  Least connections picks the first of the healthy backends with the fewest requests
  in flight, and fails exactly when no backend is healthy.
\<close>

theorem least_connections_minimum:
  "(healthy = [] \<and> lc_pick h healthy = NoPick) \<or>
   (\<exists>pre r post. healthy = pre @ r # post \<and> lc_pick h healthy = Pick r
      \<and> (\<forall>q \<in> set pre. bk_inflight (h r) < bk_inflight (h q))
      \<and> (\<forall>q \<in> set post. bk_inflight (h r) \<le> bk_inflight (h q)))"
proof (cases healthy)
  case (Cons b rs)
  show ?thesis
    using min_loop_first [of b rs "\<lambda>q. bk_inflight (h q)"] by (auto simp: Cons lc_pick_def)
qed (simp add: lc_pick_def)

section \<open>The budget filter\<close>

lemma evict_idem [simp]: "evict now (evict now w) = evict now w"
  unfolding evict_def by (induction w) simp_all

lemma allowed_again:
  assumes "allowed now d (Some a) = (ok, Some a')"
  shows "fst (allowed now c (Some a')) = fst (allowed now c (Some a))"
  using assms
  by (auto simp: allowed_def window_sum_def Let_def split: option.splits if_splits)

lemma allowed_Some: "\<exists>ok a'. allowed now c (Some a) = (ok, Some a')"
  by (auto simp: allowed_def split: option.splits prod.splits)

lemma acc_allowed_again:
  "fst (acc_allowed now p c (snd (acc_allowed now p d accs))) = fst (acc_allowed now p c accs)"
proof (cases p)
  case (Some i)
  obtain ok a' where a': "allowed now d (Some (accs i)) = (ok, Some a')" using allowed_Some by blast
  obtain ok1 a1 where a1: "allowed now c (Some (accs i)) = (ok1, Some a1)" using allowed_Some by blast
  obtain ok2 a2 where a2: "allowed now c (Some a') = (ok2, Some a2)" using allowed_Some by blast
  show ?thesis using allowed_again [OF a', of c] by (simp add: acc_allowed_def Some a' a1 a2)
qed (simp add: acc_allowed_def)

text \<open>Earlier queries of the same pick do not change later answers.\<close>

lemma cost_filter_eq:
  "fst (cost_filter h now p rs accs) = filter (\<lambda>r. fst (acc_allowed now p (bk_cloud (h r)) accs)) rs"
proof (induction rs arbitrary: accs)
  case (Cons r rs)
  show ?case
    using Cons.IH [of "snd (acc_allowed now p (bk_cloud (h r)) accs)"]
    by (simp add: split_beta Let_def acc_allowed_again)
qed simp

text \<open>What the strategy may choose from: the healthy backends of clouds within budget, or
  all healthy backends when every cloud is over budget.\<close>

definition candidate :: "heap \<Rightarrow> int \<Rightarrow> acc_ref option \<Rightarrow> accounts \<Rightarrow> bref list \<Rightarrow> bref \<Rightarrow> bool" where
  "candidate h now p accs healthy r \<longleftrightarrow> r \<in> set healthy \<and>
     ((\<exists>q \<in> set healthy. fst (acc_allowed now p (bk_cloud (h q)) accs)) \<longrightarrow>
        fst (acc_allowed now p (bk_cloud (h r)) accs))"

lemma cost_pick_best:
  assumes "healthy \<noteq> []"
  shows "\<exists>r. fst (cost_pick h now p rr healthy accs) = Pick r \<and> candidate h now p accs healthy r
      \<and> (\<forall>q. candidate h now p accs healthy q \<longrightarrow>
           latency (h r) = 0 \<or> latency (h q) \<noteq> 0 \<and> latency (h r) \<le> latency (h q))"
proof -
  define fits where "fits r = fst (acc_allowed now p (bk_cloud (h r)) accs)" for r
  define cand where "cand = (if filter fits healthy = [] then healthy else filter fits healthy)"
  have mem: "q \<in> set cand \<longleftrightarrow> candidate h now p accs healthy q" for q
    by (auto simp: cand_def filter_empty_conv candidate_def fits_def)
  have pick: "fst (cost_pick h now p rr healthy accs) = fst (latency_select h rr cand)"
    using assms(1) by (simp add: cost_pick_def split_beta Let_def cost_filter_eq cand_def fits_def [abs_def])
  have ne: "cand \<noteq> []" using assms(1) by (simp add: cand_def)
  obtain r where sel: "fst (latency_select h rr cand) = Pick r" and r: "r \<in> set cand"
    and least: "latency (h r) = 0 \<or> (\<forall>q \<in> set cand. latency (h q) \<noteq> 0 \<and> latency (h r) \<le> latency (h q))"
  proof (cases "filter (\<lambda>r. latency (h r) = 0) cand = []")
    case False
    define u where "u = filter (\<lambda>r. latency (h r) = 0) cand"
    have "u ! (unat rr mod length u) \<in> set u" using False by (intro nth_mem) (simp add: u_def)
    then show ?thesis
      using False that [of "u ! (unat rr mod length u)"]
      by (simp add: latency_select_def u_def Let_def del: latency_0_iff)
  next
    case True
    from ne obtain b rs where c: "cand = b # rs" by (cases cand) auto
    define m where "m = min_loop (\<lambda>q. latency (h q)) (latency (h b)) b rs"
    obtain pre post where mp: "b # rs = pre @ m # post"
      "\<forall>y \<in> set pre. latency (h m) < latency (h y)" "\<forall>y \<in> set post. latency (h m) \<le> latency (h y)"
      using min_loop_first [of b rs "\<lambda>q. latency (h q)"] unfolding m_def by blast
    have nz: "\<forall>q \<in> set cand. latency (h q) \<noteq> 0" using True by (simp add: filter_empty_conv del: latency_0_iff)
    have "fst (latency_select h rr cand) = Pick m"
      using True by (simp add: latency_select_def c m_def Let_def split: if_splits)
    moreover have "m \<in> set cand" by (simp only: c mp(1)) simp
    moreover have "\<forall>q \<in> set cand. latency (h m) \<le> latency (h q)" using mp(2,3) by (auto simp only: c mp(1)) force
    ultimately show ?thesis using that [of m] nz by blast
  qed
  then show ?thesis unfolding pick using mem by blast
qed

text \<open>
  The cost-bounded strategy never routes to a cloud over its egress budget while a
  healthy backend of a cloud within its budget exists; among the candidates it prefers a
  backend without a latency sample, and otherwise takes one of least latency.  It fails
  only when no backend is healthy.
\<close>

theorem cost_bounded_choice:
  assumes "healthy \<noteq> []"
  shows "\<exists>r. fst (cost_pick h now p rr healthy accs) = Pick r \<and> candidate h now p accs healthy r
      \<and> (\<forall>q. candidate h now p accs healthy q \<longrightarrow>
           latency (h r) = 0 \<or> latency (h q) \<noteq> 0 \<and> latency (h r) \<le> latency (h q))"
  using assms by (rule cost_pick_best)

end
