(* ===== verification/Sticky.thy ===== *)
theory Sticky
  imports Backends
begin

text \<open>
  \<^verbatim>\<open>internal/pool/sticky.go\<close>: how a request names its client, and how the client's cloud is
  found.  The closures \<^verbatim>\<open>HashFromRequest\<close> returns are the constructors of \<open>hash_spec\<close>,
  with \<open>apply_hash\<close> as their bodies.  A request carries the parts the code reads: the
  header map of \<^verbatim>\<open>net/http\<close> (canonical keys, values in order) and the cookies in the order
  \<^verbatim>\<open>Request.Cookie\<close> scans them.
\<close>

section \<open>Requests\<close>

record request =
  rq_method :: string
  rq_remote_addr :: string
  rq_header :: "(string \<times> string list) list"
  rq_cookies :: "(string \<times> string) list"

definition token_byte :: "char \<Rightarrow> bool" where
  "token_byte c \<longleftrightarrow> (let n = (of_char c :: nat) in
     (48 \<le> n \<and> n \<le> 57) \<or> (65 \<le> n \<and> n \<le> 90) \<or> (97 \<le> n \<and> n \<le> 122)
     \<or> n \<in> {33, 35, 36, 37, 38, 39, 42, 43, 45, 46, 94, 95, 96, 124, 126})"

fun title_case :: "bool \<Rightarrow> string \<Rightarrow> string" where
  "title_case upper [] = []"
| "title_case upper (c # cs) =
     (if upper then upper_char c else lower_char c) # title_case (c = CHR ''-'') cs"

text \<open>\<^verbatim>\<open>textproto.CanonicalMIMEHeaderKey\<close> and \<^verbatim>\<open>Header.Get\<close>.\<close>

definition canonical_key :: "string \<Rightarrow> string" where
  "canonical_key s = (if list_all token_byte s then title_case True s else s)"

definition header_get :: "request \<Rightarrow> string \<Rightarrow> string" where
  "header_get r key =
     (case map_of (rq_header r) (canonical_key key) of
        None \<Rightarrow> '''' | Some [] \<Rightarrow> '''' | Some (v # _) \<Rightarrow> v)"

text \<open>\<^verbatim>\<open>Request.Cookie(name)\<close>; \<open>None\<close> is \<^verbatim>\<open>ErrNoCookie\<close>.\<close>

definition cookie :: "request \<Rightarrow> string \<Rightarrow> string option" where
  "cookie r name = (if name = '''' then None else map_of (rq_cookies r) name)"

section \<open>Clouds of the healthy backends\<close>

definition pick_by_cloud :: "heap \<Rightarrow> string \<Rightarrow> bref list \<Rightarrow> bref option" where
  "pick_by_cloud h cloud healthy =
     (let cloud = trim_space cloud
      in if cloud = '''' then None else find_first (\<lambda>r. bk_cloud (h r) = cloud) healthy)"

fun distinct_clouds_from :: "heap \<Rightarrow> string list \<Rightarrow> bref list \<Rightarrow> string list" where
  "distinct_clouds_from h seen [] = []"
| "distinct_clouds_from h seen (r # rs) =
     (let c = bk_cloud (h r)
      in if c \<notin> set seen \<and> c \<noteq> '''' then c # distinct_clouds_from h (c # seen) rs
         else distinct_clouds_from h seen rs)"

definition distinct_clouds :: "heap \<Rightarrow> bref list \<Rightarrow> string list" where
  "distinct_clouds h healthy = distinct_clouds_from h [] healthy"

text \<open>FNV-1a on 32 bits, as \<^verbatim>\<open>hash/fnv\<close> computes it.\<close>

definition fnv1a :: "string \<Rightarrow> u32" where
  "fnv1a s = foldl (\<lambda>h c. xor h (of_nat (of_char c)) * 16777619) 2166136261 s"

definition choose_cloud_by_hash :: "string \<Rightarrow> string list \<Rightarrow> string" where
  "choose_cloud_by_hash ident clouds =
     (if clouds = [] then '''' else clouds ! (unat (fnv1a ident) mod length clouds))"

section \<open>Naming the client\<close>

datatype hash_spec = HashRemoteAddr | HashHeader string | HashCookie string

fun apply_hash :: "hash_spec \<Rightarrow> request option \<Rightarrow> string" where
  "apply_hash _ None = ''''"
| "apply_hash HashRemoteAddr (Some r) = rq_remote_addr r"
| "apply_hash (HashHeader name) (Some r) = header_get r name"
| "apply_hash (HashCookie name) (Some r) = (case cookie r name of None \<Rightarrow> '''' | Some v \<Rightarrow> v)"

datatype sticky_error = InvalidStickySpec

definition hash_from_request :: "string \<Rightarrow> sticky_error + (hash_spec \<times> string)" where
  "hash_from_request spec =
     (if spec = ''remote_addr'' then Inr (HashRemoteAddr, '''')
      else if has_prefix ''header:'' spec then Inr (HashHeader (trim_prefix ''header:'' spec), '''')
      else if has_prefix ''cookie:'' spec
        then Inr (HashCookie (trim_prefix ''cookie:'' spec), trim_prefix ''cookie:'' spec)
      else Inl InvalidStickySpec)"

text \<open>
  The part of \<^verbatim>\<open>StickyByCloud.Pick\<close> before the fallback.  A nil \<^verbatim>\<open>HashFunc\<close> that is called
  panics.
\<close>

datatype route = RoutePanic | Pinned bref | Unpinned

definition route_to :: "bref option \<Rightarrow> route" where
  "route_to b = (case b of None \<Rightarrow> Unpinned | Some r \<Rightarrow> Pinned r)"

definition sticky_route ::
  "heap \<Rightarrow> hash_spec option \<Rightarrow> string \<Rightarrow> request option \<Rightarrow> bref list \<Rightarrow> route" where
  "sticky_route h hash cookie_name req healthy =
     (case req of
        None \<Rightarrow> Unpinned
      | Some r \<Rightarrow>
          if cookie_name \<noteq> '''' then
            (case cookie r cookie_name of
               None \<Rightarrow> Unpinned
             | Some v \<Rightarrow> if v = '''' then Unpinned else route_to (pick_by_cloud h v healthy))
          else (case hash of
             None \<Rightarrow> RoutePanic
           | Some f \<Rightarrow>
               let ident = apply_hash f req
               in if ident = '''' then Unpinned
                  else route_to (pick_by_cloud h
                    (choose_cloud_by_hash ident (distinct_clouds h healthy)) healthy)))"

section \<open>Facts\<close>

lemma fnv1a_vectors:
  "fnv1a '''' = 0x811C9DC5" "fnv1a ''a'' = 0xE40C292C" "fnv1a ''foobar'' = 0xBF9CF968"
  by code_simp+

lemma route_to_simps [simp]:
  "route_to b = Pinned r \<longleftrightarrow> b = Some r" "route_to b = Unpinned \<longleftrightarrow> b = None"
  "route_to b \<noteq> RoutePanic"
  by (auto simp: route_to_def split: option.splits)

lemma pick_by_cloud_Some:
  "pick_by_cloud h c healthy = Some r \<Longrightarrow> r \<in> set healthy \<and> bk_cloud (h r) = trim_space c"
  by (auto simp: pick_by_cloud_def Let_def split: if_splits dest: find_first_Some)

lemma sticky_route_member: "sticky_route h hash cn req healthy = Pinned r \<Longrightarrow> r \<in> set healthy"
  by (auto simp: sticky_route_def Let_def split: option.splits if_splits dest: pick_by_cloud_Some)

lemma sticky_route_no_panic: "hash \<noteq> None \<Longrightarrow> sticky_route h hash cn req healthy \<noteq> RoutePanic"
  by (auto simp: sticky_route_def Let_def split: option.splits)

lemma set_distinct_clouds_from:
  "set (distinct_clouds_from h seen rs) = (bk_cloud \<circ> h) ` set rs - set seen - {''''}"
  by (induction rs arbitrary: seen) (auto simp: Let_def)

lemma set_distinct_clouds: "set (distinct_clouds h rs) = (bk_cloud \<circ> h) ` set rs - {''''}"
  by (simp add: distinct_clouds_def set_distinct_clouds_from)

lemma distinct_distinct_clouds: "distinct (distinct_clouds h rs)"
proof -
  have "distinct (distinct_clouds_from h seen rs)" for seen
    by (induction rs arbitrary: seen) (auto simp: Let_def set_distinct_clouds_from)
  then show ?thesis by (simp add: distinct_clouds_def)
qed

lemma choose_cloud_in: "clouds \<noteq> [] \<Longrightarrow> choose_cloud_by_hash ident clouds \<in> set clouds"
  by (simp add: choose_cloud_by_hash_def)

definition trimmed :: "string \<Rightarrow> bool" where
  "trimmed c \<longleftrightarrow> trim_space c = c"

lemma pick_by_cloud_present:
  assumes "r \<in> set healthy" and "bk_cloud (h r) = c" and "c \<noteq> ''''" and "trimmed c"
  shows "\<exists>q. pick_by_cloud h c healthy = Some q \<and> bk_cloud (h q) = c"
proof -
  have "find_first (\<lambda>r. bk_cloud (h r) = c) healthy \<noteq> None"
    using assms(1,2) by (auto simp: find_first_None_iff)
  then obtain q where "find_first (\<lambda>r. bk_cloud (h r) = c) healthy = Some q" by blast
  then show ?thesis
    using assms(3,4) find_first_Some [of _ healthy q] by (auto simp: pick_by_cloud_def trimmed_def)
qed

text \<open>Clients named by a header or by their address: the cloud depends only on the
  identifier and on the list of clouds present.\<close>

lemma sticky_route_hash:
  assumes "apply_hash f (Some req) = ident" and "ident \<noteq> ''''"
    and "distinct_clouds h healthy \<noteq> []" and "\<forall>r \<in> set healthy. trimmed (bk_cloud (h r))"
  shows "\<exists>q. sticky_route h (Some f) '''' (Some req) healthy = Pinned q \<and> q \<in> set healthy
           \<and> bk_cloud (h q) = choose_cloud_by_hash ident (distinct_clouds h healthy)"
proof -
  define c where "c = choose_cloud_by_hash ident (distinct_clouds h healthy)"
  have c: "c \<in> (bk_cloud \<circ> h) ` set healthy" "c \<noteq> ''''"
    using choose_cloud_in [OF assms(3), of ident] by (auto simp: c_def set_distinct_clouds)
  then obtain r where "r \<in> set healthy" "bk_cloud (h r) = c" by auto
  then obtain q where q: "pick_by_cloud h c healthy = Some q" "bk_cloud (h q) = c"
    using pick_by_cloud_present c(2) assms(4) by blast
  then have "sticky_route h (Some f) '''' (Some req) healthy = Pinned q"
    using assms(1,2) by (simp add: sticky_route_def c_def)
  with q pick_by_cloud_Some [OF q(1)] show ?thesis by (simp add: c_def)
qed

end
