(* ===== verification/Routing.thy ===== *)
theory Routing
  imports Strategies Sticky
begin

text \<open>
  The strategies as one datatype, their dispatch, and the two wrappers of the engine:
  \<^verbatim>\<open>StickyByCloud\<close> (\<^verbatim>\<open>internal/pool/sticky.go\<close>) and \<^verbatim>\<open>KindAware\<close>
  (\<^verbatim>\<open>internal/pool/kind.go\<close>), whose fallback is a strategy again.  \<open>select\<close> is the
  dynamic dispatch \<^verbatim>\<open>s.Pick(req, healthy)\<close>; it threads the counters inside the strategy
  and the accountants.  The locale \<open>selector\<close> is what the pool relies on.
\<close>

section \<open>Kind sets\<close>

type_synonym string_set = "string set"

definition set_of :: "string list \<Rightarrow> string_set" where
  "set_of xs = set xs"

definition set_of_upper :: "string list \<Rightarrow> string_set" where
  "set_of_upper xs = set (List.map to_upper xs)"

definition kind_filter :: "heap \<Rightarrow> string_set \<Rightarrow> string_set \<Rightarrow> bref list \<Rightarrow> bool \<Rightarrow> bref list" where
  "kind_filter h write_kinds read_kinds healthy is_write =
     filter (\<lambda>r. if is_write then bk_kind (h r) \<in> write_kinds
                 else read_kinds = {} \<or> bk_kind (h r) \<in> read_kinds) healthy"

section \<open>Strategies\<close>

datatype strategy =
    RoundRobin u64
  | WeightedRoundRobin u64
  | LeastConnections
  | Random
  | CostBounded "acc_ref option" u64
  | StickyByCloud "hash_spec option" string "strategy option"
  | KindAware string_set string_set string_set strategy

definition new_cost_bounded :: "acc_ref option \<Rightarrow> strategy" where
  "new_cost_bounded a = CostBounded a 0"

definition new_sticky_by_cloud :: "hash_spec option \<Rightarrow> string \<Rightarrow> strategy option \<Rightarrow> strategy" where
  "new_sticky_by_cloud hash cookie_name fallback = StickyByCloud hash cookie_name fallback"

definition new_kind_aware :: "string list \<Rightarrow> string list \<Rightarrow> string list \<Rightarrow> strategy \<Rightarrow> strategy" where
  "new_kind_aware write_methods write_kinds read_kinds fallback =
     KindAware (set_of_upper write_methods) (set_of write_kinds) (set_of read_kinds) fallback"

fun strategy_name :: "strategy \<Rightarrow> string" where
  "strategy_name (RoundRobin _) = ''round_robin''"
| "strategy_name (WeightedRoundRobin _) = ''weighted_round_robin''"
| "strategy_name LeastConnections = ''least_connections''"
| "strategy_name Random = ''random''"
| "strategy_name (CostBounded _ _) = ''cost_bounded_least_latency''"
| "strategy_name (StickyByCloud _ _ _) = ''sticky_by_cloud''"
| "strategy_name (KindAware _ _ _ _) = ''kind_aware''"

datatype strategy_error = UnknownStrategy string

definition parse_strategy :: "string \<Rightarrow> strategy_error + strategy" where
  "parse_strategy name =
     (let n = to_lower (trim_space name) in
      if n = '''' \<or> n = ''weighted_round_robin'' then Inr (WeightedRoundRobin 0)
      else if n = ''round_robin'' then Inr (RoundRobin 0)
      else if n = ''least_connections'' then Inr LeastConnections
      else if n = ''random'' then Inr Random
      else if n = ''cost_bounded_least_latency'' then Inr (new_cost_bounded None)
      else if n = ''sticky_by_cloud'' then Inr (new_sticky_by_cloud None '''' None)
      else Inl (UnknownStrategy name))"

text \<open>What one pick sees of the world: the backends, the clock and a random draw.\<close>

record view =
  vw_heap :: heap
  vw_now :: int
  vw_draw :: nat

fun select :: "view \<Rightarrow> request option \<Rightarrow> strategy \<Rightarrow> bref list \<Rightarrow> accounts \<Rightarrow>
    pick \<times> strategy \<times> accounts" where
  "select v req (RoundRobin c) healthy accs =
     (let (p, c) = rr_pick c healthy in (p, RoundRobin c, accs))"
| "select v req (WeightedRoundRobin c) healthy accs =
     (let (p, c) = wrr_pick (vw_heap v) c healthy in (p, WeightedRoundRobin c, accs))"
| "select v req LeastConnections healthy accs = (lc_pick (vw_heap v) healthy, LeastConnections, accs)"
| "select v req Random healthy accs = (rand_pick (vw_draw v) healthy, Random, accs)"
| "select v req (CostBounded a rr) healthy accs =
     (let (p, rr, accs) = cost_pick (vw_heap v) (vw_now v) a rr healthy accs
      in (p, CostBounded a rr, accs))"
| "select v req (StickyByCloud hash cn fb) healthy accs =
     (if healthy = [] then (NoPick, StickyByCloud hash cn fb, accs)
      else (case sticky_route (vw_heap v) hash cn req healthy of
          RoutePanic \<Rightarrow> (Panic, StickyByCloud hash cn fb, accs)
        | Pinned r \<Rightarrow> (Pick r, StickyByCloud hash cn fb, accs)
        | Unpinned \<Rightarrow>
            (case fb of
               Some f \<Rightarrow> (let (p, f, accs) = select v req f healthy accs
                          in (p, StickyByCloud hash cn (Some f), accs))
             | None \<Rightarrow> (Pick (hd healthy), StickyByCloud hash cn fb, accs))))"
| "select v req (KindAware wm wk rk f) healthy accs =
     (if healthy = [] then (NoPick, KindAware wm wk rk f, accs)
      else (case req of
          None \<Rightarrow> (let (p, f, accs) = select v req f healthy accs in (p, KindAware wm wk rk f, accs))
        | Some r \<Rightarrow>
            let is_write = to_upper (rq_method r) \<in> wm;
                candidates = kind_filter (vw_heap v) wk rk healthy is_write
            in if candidates = [] \<and> is_write then (NoPick, KindAware wm wk rk f, accs)
               else let (p, f, accs) = select v req f (if candidates = [] then healthy else candidates) accs
                    in (p, KindAware wm wk rk f, accs)))"

section \<open>Picks are healthy backends\<close>

lemma rr_pick_member: "fst (rr_pick c healthy) = Pick r \<Longrightarrow> r \<in> set healthy"
  by (auto simp: rr_pick_def split: if_splits)

lemma wrr_scan_member: "wrr_scan h pos cum rs = Some r \<Longrightarrow> r \<in> set rs"
  by (induction h pos cum rs rule: wrr_scan.induct) (auto simp: Let_def split: if_splits)

lemma wrr_pick_member: "fst (wrr_pick h c healthy) = Pick r \<Longrightarrow> r \<in> set healthy"
  by (auto simp: wrr_pick_def Let_def dest: wrr_scan_member split: if_splits option.splits)

lemma min_loop_member: "min_loop key m b rs \<in> set (b # rs)"
proof (induction rs arbitrary: m b)
  case (Cons a rs)
  from Cons.IH [of "key a" a] Cons.IH [of m b] show ?case by auto
qed simp

lemma lc_pick_member: "lc_pick h healthy = Pick r \<Longrightarrow> r \<in> set healthy"
  using min_loop_member by (auto simp: lc_pick_def split: list.splits simp del: min_loop.simps)

lemma rand_pick_member: "rand_pick e healthy = Pick r \<Longrightarrow> r \<in> set healthy"
  by (auto simp: rand_pick_def split: if_splits)

lemma latency_select_member: "fst (latency_select h rr cand) = Pick r \<Longrightarrow> r \<in> set cand"
proof (cases "filter (\<lambda>r. latency (h r) = 0) cand = []")
  case True
  assume "fst (latency_select h rr cand) = Pick r"
  with True show ?thesis
    using min_loop_member [of "\<lambda>q. latency (h q)"]
    by (auto simp: latency_select_def Let_def split: list.splits simp del: min_loop.simps)
next
  case False
  define u where "u = filter (\<lambda>r. latency (h r) = 0) cand"
  assume "fst (latency_select h rr cand) = Pick r"
  with False have "r = u ! (unat rr mod length u)" by (simp add: latency_select_def u_def Let_def)
  moreover have "u ! (unat rr mod length u) \<in> set u" using False by (intro nth_mem) (simp add: u_def)
  ultimately show ?thesis by (simp add: u_def)
qed

lemma cost_pick_member: "fst (cost_pick h now p rr healthy accs) = Pick r \<Longrightarrow> r \<in> set healthy"
  by (auto simp: cost_pick_def Let_def split_beta cost_filter_eq
      dest!: latency_select_member split: if_splits)

lemmas pick_member = rr_pick_member wrr_pick_member lc_pick_member rand_pick_member cost_pick_member

lemma kind_filter_member: "r \<in> set (kind_filter h wk rk healthy w) \<Longrightarrow> r \<in> set healthy"
  by (simp add: kind_filter_def)

lemma select_member: "fst (select v req s healthy accs) = Pick r \<Longrightarrow> r \<in> set healthy"
proof (induction s arbitrary: healthy accs)
  case (StickyByCloud hash cn fb)
  then show ?case
    by (auto simp: split_beta dest: sticky_route_member split: if_splits route.splits option.splits)
next
  case (KindAware wm wk rk f)
  show ?case
  proof (cases req)
    case None
    with KindAware show ?thesis by (auto simp: split_beta split: if_splits)
  next
    case (Some q)
    let ?c = "kind_filter (vw_heap v) wk rk healthy (to_upper (rq_method q) \<in> wm)"
    have "fst (select v req f (if ?c = [] then healthy else ?c) accs) = Pick r"
      using KindAware.prems Some by (auto simp: split_beta Let_def split: if_splits)
    then have "r \<in> set (if ?c = [] then healthy else ?c)" by (rule KindAware.IH)
    then show ?thesis by (auto split: if_splits dest: kind_filter_member)
  qed
qed (auto simp: split_beta dest: pick_member)

lemma select_empty: "fst (select v req s [] accs) = NoPick"
  by (induction s) (simp_all add: rr_pick_def wrr_pick_def lc_pick_def rand_pick_def cost_pick_def)

section \<open>Strategies that cannot panic\<close>

text \<open>A sticky strategy with a nil hash function panics on its first request; every other
  strategy is safe to call.\<close>

fun callable :: "strategy \<Rightarrow> bool" where
  "callable (StickyByCloud hash cn fb) =
     (hash \<noteq> None \<and> (case fb of None \<Rightarrow> True | Some f \<Rightarrow> callable f))"
| "callable (KindAware wm wk rk f) = callable f"
| "callable _ = True"

text \<open>Strategies that do not refuse any request: those without a kind filter.\<close>

fun unfiltered :: "strategy \<Rightarrow> bool" where
  "unfiltered (StickyByCloud hash cn fb) = (case fb of None \<Rightarrow> True | Some f \<Rightarrow> unfiltered f)"
| "unfiltered (KindAware wm wk rk f) = False"
| "unfiltered _ = True"

lemma latency_select_picks: "cand \<noteq> [] \<Longrightarrow> \<exists>r. fst (latency_select h rr cand) = Pick r"
  by (auto simp: latency_select_def Let_def split: list.splits)

lemma base_picks:
  assumes "healthy \<noteq> []"
  shows "\<exists>r. fst (rr_pick c healthy) = Pick r" "\<exists>r. fst (wrr_pick h c healthy) = Pick r"
    "\<exists>r. lc_pick h healthy = Pick r" "\<exists>r. rand_pick e healthy = Pick r"
    "\<exists>r. fst (cost_pick h now p c healthy accs) = Pick r"
  using assms
  by (auto simp: rr_pick_def wrr_pick_def lc_pick_def rand_pick_def cost_pick_def Let_def split_beta
      intro!: latency_select_picks split: option.splits list.splits)

lemma select_serves:
  "callable s \<Longrightarrow> unfiltered s \<Longrightarrow> healthy \<noteq> [] \<Longrightarrow> \<exists>r. fst (select v req s healthy accs) = Pick r"
proof (induction s arbitrary: healthy accs)
  case (StickyByCloud hash cn fb)
  then show ?case
    using sticky_route_no_panic [of hash "vw_heap v" cn req healthy]
    by (auto simp: split_beta split: route.splits option.splits)
qed (auto simp: split_beta base_picks)

lemma select_no_panic: "callable s \<Longrightarrow> fst (select v req s healthy accs) \<noteq> Panic"
proof (induction s arbitrary: healthy accs)
  case (StickyByCloud hash cn fb)
  then show ?case
    using sticky_route_no_panic [of hash "vw_heap v" cn req healthy]
    by (auto simp: split_beta split: route.splits option.splits)
next
  case (KindAware wm wk rk f)
  then show ?case by (auto simp: split_beta Let_def split: option.splits)
next
  case (CostBounded a rr)
  then show ?case
    using base_picks(5) [of healthy "vw_heap v" "vw_now v" a rr accs]
    by (cases "healthy = []") (auto simp: split_beta cost_pick_def)
qed (auto simp: split_beta rr_pick_def wrr_pick_def lc_pick_def rand_pick_def Let_def
      split: option.splits list.splits)

text \<open>A pick changes counters only: the shape of a strategy is fixed.\<close>

lemma select_frame:
  "callable (fst (snd (select v req s healthy accs))) = callable s
   \<and> unfiltered (fst (snd (select v req s healthy accs))) = unfiltered s
   \<and> strategy_name (fst (snd (select v req s healthy accs))) = strategy_name s"
proof (induction s arbitrary: healthy accs)
  case (StickyByCloud hash cn fb)
  then show ?case by (auto simp: split_beta split: route.splits option.splits)
next
  case (KindAware wm wk rk f)
  then show ?case by (auto simp: split_beta Let_def split: option.splits)
qed (simp_all add: split_beta)

section \<open>Kind routing\<close>

text \<open>
  A request whose method is a write method is only ever sent to a healthy backend whose
  kind is one of the write kinds, and is refused when there is none, whatever the
  fallback strategy is.
\<close>

theorem writes_only_to_write_kinds:
  assumes "to_upper (rq_method q) \<in> wm"
  shows "(\<forall>r. fst (select v (Some q) (KindAware wm wk rk f) healthy accs) = Pick r \<longrightarrow>
            r \<in> set healthy \<and> bk_kind (vw_heap v r) \<in> wk)
       \<and> ((\<forall>r \<in> set healthy. bk_kind (vw_heap v r) \<notin> wk) \<longrightarrow>
            fst (select v (Some q) (KindAware wm wk rk f) healthy accs) = NoPick)"
proof -
  let ?c = "kind_filter (vw_heap v) wk rk healthy True"
  have mem: "r \<in> set ?c \<longleftrightarrow> r \<in> set healthy \<and> bk_kind (vw_heap v r) \<in> wk" for r
    by (auto simp: kind_filter_def)
  have sel: "fst (select v (Some q) (KindAware wm wk rk f) healthy accs)
      = (if ?c = [] then NoPick else fst (select v (Some q) f ?c accs))"
    using assms by (auto simp: split_beta Let_def kind_filter_def)
  have "(\<forall>r \<in> set healthy. bk_kind (vw_heap v r) \<notin> wk) \<Longrightarrow> ?c = []"
    by (auto simp: kind_filter_def filter_empty_conv)
  then show ?thesis
    unfolding sel
    by (auto simp only: if_True simp_thms split: if_splits
        dest!: select_member mem [THEN iffD1])
qed

text \<open>
  A request that is not a write is always served while some backend is healthy, if the
  fallback strategy serves: by a backend of a read kind when one is healthy, by any
  healthy backend otherwise.
\<close>

theorem reads_always_served:
  assumes "to_upper (rq_method q) \<notin> wm" and "healthy \<noteq> []" and "callable f" and "unfiltered f"
  shows "\<exists>r. fst (select v (Some q) (KindAware wm wk rk f) healthy accs) = Pick r \<and> r \<in> set healthy
      \<and> (rk \<noteq> {} \<and> (\<exists>b \<in> set healthy. bk_kind (vw_heap v b) \<in> rk) \<longrightarrow> bk_kind (vw_heap v r) \<in> rk)"
proof -
  let ?k = "kind_filter (vw_heap v) wk rk healthy False"
  define cand where "cand = (if ?k = [] then healthy else ?k)"
  have sel: "fst (select v (Some q) (KindAware wm wk rk f) healthy accs)
      = fst (select v (Some q) f cand accs)"
    using assms(1,2) by (auto simp: split_beta Let_def cand_def)
  have "cand \<noteq> []" using assms(2) by (simp add: cand_def)
  then obtain r where r: "fst (select v (Some q) f cand accs) = Pick r"
    using select_serves [OF assms(3,4)] by blast
  then have "r \<in> set cand" by (rule select_member)
  then show ?thesis
    using r sel by (auto simp: cand_def kind_filter_def filter_empty_conv split: if_splits)
qed

section \<open>Session affinity\<close>

lemma cookie_select:
  assumes "cn \<noteq> ''''" and "cookie q cn = Some c" and "c \<noteq> ''''" and "trimmed c"
    and "\<exists>r \<in> set healthy. bk_cloud (vw_heap v r) = c"
  shows "\<exists>r. find_first (\<lambda>r. bk_cloud (vw_heap v r) = c) healthy = Some r
      \<and> select v (Some q) (StickyByCloud hash cn fb) healthy accs = (Pick r, StickyByCloud hash cn fb, accs)"
proof -
  obtain r where r: "find_first (\<lambda>r. bk_cloud (vw_heap v r) = c) healthy = Some r"
    using assms(5) find_first_None_iff [of "\<lambda>r. bk_cloud (vw_heap v r) = c" healthy]
    by (cases "find_first (\<lambda>r. bk_cloud (vw_heap v r) = c) healthy") auto
  then have "sticky_route (vw_heap v) hash cn (Some q) healthy = Pinned r"
    using assms(1-4) by (simp add: sticky_route_def pick_by_cloud_def trimmed_def)
  moreover have "healthy \<noteq> []" using assms(5) by auto
  ultimately show ?thesis using r by simp
qed

text \<open>
  A client whose cookie names the cloud of some healthy backend is sent to the first
  healthy backend of that cloud; the fallback strategy is not consulted and no counter
  moves.
\<close>

theorem cookie_pins_cloud:
  assumes "cn \<noteq> ''''" and "cookie q cn = Some c" and "c \<noteq> ''''" and "trimmed c"
    and "\<exists>r \<in> set healthy. bk_cloud (vw_heap v r) = c"
  shows "\<exists>r. find_first (\<lambda>r. bk_cloud (vw_heap v r) = c) healthy = Some r
      \<and> select v (Some q) (StickyByCloud hash cn fb) healthy accs = (Pick r, StickyByCloud hash cn fb, accs)"
  using assms by (rule cookie_select)

text \<open>
  Hash-based affinity is deterministic: as long as the healthy backends show the same
  list of distinct clouds, two requests with the same non-empty identifier go to the same
  cloud, whatever the fallback strategy and the rest of the requests are.
\<close>

theorem hash_affinity_same_cloud:
  assumes "apply_hash f (Some q1) = apply_hash f (Some q2)" and "apply_hash f (Some q1) \<noteq> ''''"
    and "distinct_clouds (vw_heap v1) healthy1 = distinct_clouds (vw_heap v2) healthy2"
    and "distinct_clouds (vw_heap v1) healthy1 \<noteq> []"
    and "\<forall>r \<in> set healthy1. trimmed (bk_cloud (vw_heap v1 r))"
    and "\<forall>r \<in> set healthy2. trimmed (bk_cloud (vw_heap v2 r))"
  shows "\<exists>r1 r2. fst (select v1 (Some q1) (StickyByCloud (Some f) '''' fb1) healthy1 accs1) = Pick r1
      \<and> fst (select v2 (Some q2) (StickyByCloud (Some f) '''' fb2) healthy2 accs2) = Pick r2
      \<and> bk_cloud (vw_heap v1 r1) = bk_cloud (vw_heap v2 r2)"
proof -
  obtain r1 where r1: "sticky_route (vw_heap v1) (Some f) '''' (Some q1) healthy1 = Pinned r1" "r1 \<in> set healthy1"
    "bk_cloud (vw_heap v1 r1) = choose_cloud_by_hash (apply_hash f (Some q1)) (distinct_clouds (vw_heap v1) healthy1)"
    using sticky_route_hash [OF refl assms(2,4,5)] by blast
  obtain r2 where r2: "sticky_route (vw_heap v2) (Some f) '''' (Some q2) healthy2 = Pinned r2" "r2 \<in> set healthy2"
    "bk_cloud (vw_heap v2 r2) = choose_cloud_by_hash (apply_hash f (Some q2)) (distinct_clouds (vw_heap v2) healthy2)"
    using sticky_route_hash [OF refl, of f q2 "vw_heap v2" healthy2] assms by auto
  from r1(2) r2(2) have "healthy1 \<noteq> []" "healthy2 \<noteq> []" by auto
  with r1 r2 assms(1,3) show ?thesis by simp
qed

section \<open>The selector interface\<close>

text \<open>What a pool needs from whatever picks among its healthy backends.\<close>

locale selector =
  fixes elect :: "'e \<Rightarrow> 's \<Rightarrow> bref list \<Rightarrow> pick \<times> 's"
  assumes elect_member: "fst (elect e s healthy) = Pick r \<Longrightarrow> r \<in> set healthy"
    and elect_empty: "fst (elect e s []) = NoPick"
begin

text \<open>Filtering before choosing keeps what the filter tests.\<close>

lemma elect_filtered:
  "fst (elect e s (filter p rs)) = Pick r \<Longrightarrow> r \<in> set rs \<and> p r"
  using elect_member [of e s "filter p rs" r] by simp

lemma elect_none: "\<forall>r \<in> set rs. \<not> p r \<Longrightarrow> fst (elect e s (filter p rs)) = NoPick"
  by (simp add: filter_False elect_empty)

end

text \<open>The dispatch, with the strategy and the accountants as its state.\<close>

definition elect_by :: "view \<times> request option \<Rightarrow> strategy \<times> accounts \<Rightarrow> bref list \<Rightarrow>
    pick \<times> (strategy \<times> accounts)" where
  "elect_by e s healthy = select (fst e) (snd e) (fst s) healthy (snd s)"

interpretation sel: selector elect_by
  by unfold_locales (auto simp: elect_by_def select_empty intro: select_member)

end
