(* ===== verification/Pool.thy ===== *)
theory Pool
  imports Routing
begin

text \<open>
  \<^verbatim>\<open>Pool\<close> of \<^verbatim>\<open>internal/pool/pool.go\<close>: the list of backend pointers and the strategy,
  behind a mutex (each operation is one atomic step).  \<open>pool_ok\<close> is its invariant: the
  names of the backends are distinct.  The locale \<open>registry\<close> states what the admin API
  relies on; the pool is its instance.
\<close>

section \<open>Operations\<close>

record pool =
  pl_all :: "bref list"
  pl_strategy :: strategy

definition new_pool :: "bref list \<Rightarrow> strategy \<Rightarrow> pool" where
  "new_pool backends s = \<lparr>pl_all = backends, pl_strategy = s\<rparr>"

definition healthy_of :: "heap \<Rightarrow> bref list \<Rightarrow> bref list" where
  "healthy_of h rs = filter (\<lambda>r. bk_healthy (h r)) rs"

definition pool_pick :: "view \<Rightarrow> request option \<Rightarrow> pool \<Rightarrow> accounts \<Rightarrow> pick \<times> pool \<times> accounts" where
  "pool_pick v req p accs =
     (let (x, s, accs) = select v req (pl_strategy p) (healthy_of (vw_heap v) (pl_all p)) accs
      in (x, p\<lparr>pl_strategy := s\<rparr>, accs))"

definition pool_backends :: "pool \<Rightarrow> bref list" where
  "pool_backends p = pl_all p"

definition pool_find :: "heap \<Rightarrow> pool \<Rightarrow> string \<Rightarrow> bref option" where
  "pool_find h p name = find_first (\<lambda>r. bk_name (h r) = name) (pl_all p)"

definition pool_replace :: "bref list \<Rightarrow> strategy option \<Rightarrow> pool \<Rightarrow> pool" where
  "pool_replace backends s p =
     (let p = p\<lparr>pl_all := backends\<rparr>
      in (case s of None \<Rightarrow> p | Some s \<Rightarrow> p\<lparr>pl_strategy := s\<rparr>))"

definition pool_add :: "heap \<Rightarrow> bref \<Rightarrow> pool \<Rightarrow> bool \<times> pool" where
  "pool_add h r p =
     (if \<exists>q \<in> set (pl_all p). bk_name (h q) = bk_name (h r) then (False, p)
      else (True, p\<lparr>pl_all := pl_all p @ [r]\<rparr>))"

definition pool_remove :: "heap \<Rightarrow> string \<Rightarrow> pool \<Rightarrow> bool \<times> pool" where
  "pool_remove h name p =
     (if \<exists>q \<in> set (pl_all p). bk_name (h q) = name
      then (True, p\<lparr>pl_all := remove_first (\<lambda>r. bk_name (h r) = name) (pl_all p)\<rparr>)
      else (False, p))"

section \<open>Picking\<close>

text \<open>The pool's pick in terms of the selector interface.\<close>

lemma pool_pick_elect:
  "fst (pool_pick v req p accs)
   = fst (elect_by (v, req) (pl_strategy p, accs) (filter (\<lambda>r. bk_healthy (vw_heap v r)) (pl_all p)))"
  by (simp add: pool_pick_def elect_by_def healthy_of_def split_beta)

lemma pool_pick_all: "pl_all (fst (snd (pool_pick v req p accs))) = pl_all p"
  by (simp add: pool_pick_def split_beta)

lemma pool_pick_member:
  "fst (pool_pick v req p accs) = Pick r \<Longrightarrow> r \<in> set (pl_all p) \<and> bk_healthy (vw_heap v r)"
  unfolding pool_pick_elect by (rule sel.elect_filtered)

lemma pool_pick_none:
  "\<forall>r \<in> set (pl_all p). \<not> bk_healthy (vw_heap v r) \<Longrightarrow> fst (pool_pick v req p accs) = NoPick"
  unfolding pool_pick_elect by (rule sel.elect_none)

lemma pool_pick_no_panic: "callable (pl_strategy p) \<Longrightarrow> fst (pool_pick v req p accs) \<noteq> Panic"
  by (simp add: pool_pick_def split_beta select_no_panic)

text \<open>
  Whatever the strategy, the pool only ever hands out a backend that it holds and that
  is healthy at that moment; with no healthy backend every pick fails, and does so
  without a panic.
\<close>

theorem pool_pick_healthy:
  "(\<forall>r. fst (pool_pick v req p accs) = Pick r \<longrightarrow> r \<in> set (pl_all p) \<and> bk_healthy (vw_heap v r))
   \<and> ((\<forall>r \<in> set (pl_all p). \<not> bk_healthy (vw_heap v r)) \<longrightarrow> fst (pool_pick v req p accs) = NoPick)"
  using pool_pick_member pool_pick_none by blast

text \<open>
  With a strategy that has no nil hash function and no kind filter, a pick succeeds
  exactly when some backend of the pool is healthy.
\<close>

theorem pool_pick_available:
  assumes "callable (pl_strategy p)" and "unfiltered (pl_strategy p)"
  shows "(\<exists>r. fst (pool_pick v req p accs) = Pick r) \<longleftrightarrow> (\<exists>r \<in> set (pl_all p). bk_healthy (vw_heap v r))"
proof
  assume "\<exists>r \<in> set (pl_all p). bk_healthy (vw_heap v r)"
  then have "healthy_of (vw_heap v) (pl_all p) \<noteq> []" by (auto simp: healthy_of_def filter_empty_conv)
  from select_serves [OF assms this, of v req accs]
  show "\<exists>r. fst (pool_pick v req p accs) = Pick r" by (simp add: pool_pick_def split_beta)
next
  assume "\<exists>r. fst (pool_pick v req p accs) = Pick r"
  then show "\<exists>r \<in> set (pl_all p). bk_healthy (vw_heap v r)"
    unfolding pool_pick_elect using sel.elect_filtered by blast
qed

section \<open>The registry interface\<close>

text \<open>
  A registry of named items: a partial map from names to items under insertion of an item
  under its own name, which refuses a name in use, and deletion by name.
\<close>

locale registry =
  fixes wf :: "'p \<Rightarrow> bool"
    and key :: "'b \<Rightarrow> string"
    and look :: "'p \<Rightarrow> string \<Rightarrow> 'b option"
    and ins :: "'b \<Rightarrow> 'p \<Rightarrow> bool \<times> 'p"
    and del :: "string \<Rightarrow> 'p \<Rightarrow> bool \<times> 'p"
  assumes ins_new: "wf p \<Longrightarrow> look p (key b) = None \<Longrightarrow>
            fst (ins b p) \<and> look (snd (ins b p)) = (look p)(key b \<mapsto> b)"
    and ins_dup: "look p (key b) \<noteq> None \<Longrightarrow> ins b p = (False, p)"
    and del_hit: "wf p \<Longrightarrow> look p n \<noteq> None \<Longrightarrow>
            fst (del n p) \<and> look (snd (del n p)) = (look p)(n := None)"
    and del_miss: "look p n = None \<Longrightarrow> del n p = (False, p)"
    and wf_ins: "wf p \<Longrightarrow> wf (snd (ins b p))"
    and wf_del: "wf p \<Longrightarrow> wf (snd (del n p))"
begin

lemma ins_accepts_iff: "wf p \<Longrightarrow> fst (ins b p) \<longleftrightarrow> look p (key b) = None"
  using ins_new [of p b] ins_dup [of p b] by fastforce

lemma del_accepts_iff: "wf p \<Longrightarrow> fst (del n p) \<longleftrightarrow> look p n \<noteq> None"
  using del_hit [of p n] del_miss [of p n] by fastforce

lemma ins_del_roundtrip:
  assumes "wf p" and "look p (key b) = None"
  shows "look (snd (del (key b) (snd (ins b p)))) = look p"
proof -
  have l: "look (snd (ins b p)) = (look p)(key b \<mapsto> b)" using ins_new [OF assms] by simp
  then have "look (snd (ins b p)) (key b) \<noteq> None" by simp
  from del_hit [OF wf_ins [OF assms(1)] this] show ?thesis
    using assms(2) by (auto simp: l fun_eq_iff)
qed

lemma ins_other: "wf p \<Longrightarrow> n \<noteq> key b \<Longrightarrow> look (snd (ins b p)) n = look p n"
  using ins_new [of p b] ins_dup [of p b] by (cases "look p (key b) = None") auto

lemma del_other: "wf p \<Longrightarrow> n \<noteq> m \<Longrightarrow> look (snd (del m p)) n = look p n"
  using del_hit [of p m] del_miss [of p m] by (cases "look p m = None") auto

lemma del_gone: "wf p \<Longrightarrow> look (snd (del n p)) n = None"
  using del_hit [of p n] del_miss [of p n] by (cases "look p n = None") auto

end

definition pool_ok :: "heap \<Rightarrow> pool \<Rightarrow> bool" where
  "pool_ok h p \<longleftrightarrow> distinct (List.map (\<lambda>r. bk_name (h r)) (pl_all p))"

lemma pool_find_None: "pool_find h p n = None \<longleftrightarrow> (\<forall>r \<in> set (pl_all p). bk_name (h r) \<noteq> n)"
  by (simp add: pool_find_def find_first_None_iff)

lemma pool_find_Some: "pool_find h p n = Some r \<Longrightarrow> r \<in> set (pl_all p) \<and> bk_name (h r) = n"
  unfolding pool_find_def by (rule find_first_Some)

lemma pool_find_filter:
  "n \<noteq> m \<Longrightarrow> find_first (\<lambda>r. bk_name (h r) = n) (filter (\<lambda>r. bk_name (h r) \<noteq> m) rs)
     = find_first (\<lambda>r. bk_name (h r) = n) rs"
  by (induction rs) auto

lemma pool_remove_filter:
  "pool_ok h p \<Longrightarrow> pool_remove h n p = (if pool_find h p n = None then (False, p)
     else (True, p\<lparr>pl_all := filter (\<lambda>r. bk_name (h r) \<noteq> n) (pl_all p)\<rparr>))"
  unfolding pool_remove_def pool_ok_def
  by (auto simp: pool_find_None remove_first_unique [of "\<lambda>r. bk_name (h r)"])

lemma pool_add_eq:
  "pool_add h r p = (if pool_find h p (bk_name (h r)) = None
     then (True, p\<lparr>pl_all := pl_all p @ [r]\<rparr>) else (False, p))"
  by (auto simp: pool_add_def pool_find_None)

lemma pool_ok_add: "pool_ok h p \<Longrightarrow> pool_ok h (snd (pool_add h r p))"
  by (auto simp: pool_ok_def pool_add_def)

lemma pool_ok_remove: "pool_ok h p \<Longrightarrow> pool_ok h (snd (pool_remove h n p))"
  by (simp add: pool_remove_filter) (simp add: pool_ok_def distinct_map_filter)

text \<open>The pool does not see an object allocated outside it.\<close>

lemma pool_fresh:
  assumes "\<forall>r \<in> set (pl_all p). r < n"
  shows "pool_find (h(n := b)) p = pool_find h p" and "pool_ok (h(n := b)) p = pool_ok h p"
proof -
  have m: "List.map (\<lambda>r. bk_name ((h(n := b)) r)) (pl_all p) = List.map (\<lambda>r. bk_name (h r)) (pl_all p)"
    using assms by (intro map_cong) auto
  then show "pool_ok (h(n := b)) p = pool_ok h p" by (simp only: pool_ok_def)
  show "pool_find (h(n := b)) p = pool_find h p"
    unfolding pool_find_def using assms by (intro ext find_first_cong) auto
qed

interpretation reg: registry "pool_ok h" "\<lambda>r. bk_name (h r)" "pool_find h" "pool_add h" "pool_remove h"
  for h
proof
  fix p b
  assume "pool_find h p (bk_name (h b)) = None"
  then show "fst (pool_add h b p) \<and> pool_find h (snd (pool_add h b p)) = (pool_find h p)(bk_name (h b) \<mapsto> b)"
    by (auto simp: pool_add_eq pool_find_def find_first_append fun_eq_iff split: option.splits)
next
  fix p n
  assume "pool_ok h p" and "pool_find h p n \<noteq> None"
  then show "fst (pool_remove h n p) \<and> pool_find h (snd (pool_remove h n p)) = (pool_find h p)(n := None)"
    by (auto simp: pool_remove_filter fun_eq_iff)
      (auto simp: pool_find_def pool_find_filter find_first_None_iff)
next
  fix p b n
  assume "pool_ok h p"
  then show "pool_ok h (snd (pool_add h b p))" and "pool_ok h (snd (pool_remove h n p))"
    by (rule pool_ok_add, rule pool_ok_remove)
qed (auto simp: pool_find_None pool_add_def pool_remove_def)

text \<open>
  Adding a backend under a free name and removing that name again leaves every lookup
  as it was, and in between finds exactly the added backend under its name.
\<close>

theorem pool_add_remove_roundtrip:
  assumes "pool_ok h p" and "pool_find h p (bk_name (h r)) = None"
  shows "pool_find h (snd (pool_add h r p)) = (pool_find h p)(bk_name (h r) \<mapsto> r)
       \<and> pool_find h (snd (pool_remove h (bk_name (h r)) (snd (pool_add h r p)))) = pool_find h p"
  using reg.ins_new [OF assms] reg.ins_del_roundtrip [OF assms] by blast

text \<open>Histories of registry operations; removal is by name, addition by pointer.\<close>

datatype pool_op = OpAdd bref | OpRemove string

fun pool_step :: "heap \<Rightarrow> pool_op \<Rightarrow> pool \<Rightarrow> pool" where
  "pool_step h (OpAdd r) p = snd (pool_add h r p)"
| "pool_step h (OpRemove n) p = snd (pool_remove h n p)"

text \<open>
  From a pool with distinct names, no sequence of additions and removals ever makes two
  of its backends share a name.
\<close>

theorem pool_names_distinct:
  assumes "pool_ok h p"
  shows "pool_ok h (fold (pool_step h) xs p)"
  using assms
proof (induction xs arbitrary: p)
  case (Cons x xs)
  have "pool_ok h (pool_step h x p)"
    using Cons.prems reg.wf_ins reg.wf_del by (cases x) simp_all
  then show ?case using Cons.IH by simp
qed simp

end
