(* ===== verification/Config.thy ===== *)
theory Config
  imports GoBase CostAccountant Backends
begin

text \<open>
  \<^verbatim>\<open>internal/config/config.go\<close>: the configuration structs, the defaults and the
  validation.  Optional blocks (nil pointers) are \<open>option\<close>s.  A YAML mapping is an
  association list in the order Go iterates it.  The YAML decoder, the file system and
  \<^verbatim>\<open>url.Parse\<close> are parameters.  An error of the joined list is a \<open>cfg_error\<close>.
  The lemmas give the declarative meaning of an accepted configuration.
\<close>

section \<open>Structs\<close>

record cfg_acme =
  am_domains :: "string list"
  am_email :: string
  am_cache_dir :: string
  am_directory_url :: string
  am_staging :: bool

record cfg_tracing =
  tr_endpoint :: string
  tr_service_name :: string
  tr_sampler_ratio :: f64
  tr_insecure :: bool
  tr_headers :: "(string \<times> string) list"

record cfg_kind_routing =
  kr_write_methods :: "string list"
  kr_write_kinds :: "string list"
  kr_read_kinds :: "string list"

record cfg_sticky =
  st_hash :: string
  st_fallback_strategy :: string
  st_cookie_ttl :: int

record cfg_cost =
  co_prices :: "(string \<times> f64) list"
  co_budgets :: "(string \<times> budget) list"

record cfg_listen =
  li_proxy :: string
  li_proxy_tls :: string
  li_metrics :: string
  li_admin :: string

record cfg_front_tls =
  ft_cert_file :: string
  ft_key_file :: string
  ft_client_ca_file :: string

record cfg_admin =
  ad_bearer_token_env :: string

record cfg_backend_tls =
  bt_cert_file :: string
  bt_key_file :: string
  bt_ca_file :: string
  bt_server_name :: string
  bt_insecure_skip_verify :: bool

record cfg_backend =
  cb_name :: string
  cb_url :: string
  cb_cloud :: string
  cb_region :: string
  cb_weight :: int
  cb_kind :: string
  cb_tls :: "cfg_backend_tls option"

record cfg_health =
  he_interval :: int
  he_timeout :: int
  he_path :: string
  he_unhealthy_threshold :: int
  he_healthy_threshold :: int
  he_status_floor :: int
  he_status_ceil :: int

record cfg_proxy =
  px_request_timeout :: int
  px_max_idle_conns :: int
  px_pass_headers :: "string list"

record cfg_log =
  lg_level :: string
  lg_format :: string

record config =
  cf_listen :: cfg_listen
  cf_admin :: cfg_admin
  cf_backends :: "cfg_backend list"
  cf_health :: cfg_health
  cf_strategy :: string
  cf_sticky :: "cfg_sticky option"
  cf_kind_routing :: "cfg_kind_routing option"
  cf_proxy :: cfg_proxy
  cf_proxy_tls :: "cfg_front_tls option"
  cf_cost :: "cfg_cost option"
  cf_tracing :: "cfg_tracing option"
  cf_acme :: "cfg_acme option"
  cf_log :: cfg_log

section \<open>Defaults\<close>

definition or_str :: "string \<Rightarrow> string \<Rightarrow> string" where
  "or_str d s = (if s = '''' then d else s)"

definition or_int :: "int \<Rightarrow> int \<Rightarrow> int" where
  "or_int d n = (if n = 0 then d else n)"

definition seconds :: "int \<Rightarrow> int" where
  "seconds n = n * 1000000000"

definition default_health :: "cfg_health \<Rightarrow> cfg_health" where
  "default_health h = h\<lparr>
     he_interval := or_int (seconds 5) (he_interval h),
     he_timeout := or_int (seconds 2) (he_timeout h),
     he_path := or_str ''/healthz'' (he_path h),
     he_unhealthy_threshold := or_int 2 (he_unhealthy_threshold h),
     he_healthy_threshold := or_int 2 (he_healthy_threshold h),
     he_status_floor := or_int 200 (he_status_floor h),
     he_status_ceil := or_int 399 (he_status_ceil h)\<rparr>"

definition default_sticky :: "cfg_sticky \<Rightarrow> cfg_sticky" where
  "default_sticky s = s\<lparr>
     st_fallback_strategy := or_str ''weighted_round_robin'' (st_fallback_strategy s),
     st_cookie_ttl := or_int (seconds (24 * 3600)) (st_cookie_ttl s)\<rparr>"

definition default_kind_routing :: "cfg_kind_routing \<Rightarrow> cfg_kind_routing" where
  "default_kind_routing k = k\<lparr>
     kr_write_methods := (if kr_write_methods k = []
       then [''POST'', ''PUT'', ''DELETE'', ''PATCH''] else kr_write_methods k),
     kr_write_kinds := (if kr_write_kinds k = [] then [''writeable''] else kr_write_kinds k)\<rparr>"

definition default_tracing :: "cfg_tracing \<Rightarrow> cfg_tracing" where
  "default_tracing t = t\<lparr>
     tr_service_name := or_str ''openvcc'' (tr_service_name t),
     tr_sampler_ratio := (if f64_eq (tr_sampler_ratio t) (Fin 0) then Fin 1 else tr_sampler_ratio t)\<rparr>"

definition default_acme :: "cfg_acme \<Rightarrow> cfg_acme" where
  "default_acme a = a\<lparr>am_cache_dir := or_str ''/var/lib/openvcc/acme'' (am_cache_dir a)\<rparr>"

definition apply_defaults :: "config \<Rightarrow> config" where
  "apply_defaults c = c\<lparr>
     cf_listen := (cf_listen c)\<lparr>li_proxy := or_str '':8080'' (li_proxy (cf_listen c)),
                                li_metrics := or_str '':9090'' (li_metrics (cf_listen c))\<rparr>,
     cf_strategy := or_str ''weighted_round_robin'' (cf_strategy c),
     cf_health := default_health (cf_health c),
     cf_proxy := (cf_proxy c)\<lparr>px_request_timeout := or_int (seconds 30) (px_request_timeout (cf_proxy c)),
                              px_max_idle_conns := or_int 64 (px_max_idle_conns (cf_proxy c))\<rparr>,
     cf_log := (cf_log c)\<lparr>lg_level := or_str ''info'' (lg_level (cf_log c)),
                          lg_format := or_str ''json'' (lg_format (cf_log c))\<rparr>,
     cf_backends := List.map (\<lambda>b. b\<lparr>cb_weight := or_int 1 (cb_weight b)\<rparr>) (cf_backends c),
     cf_sticky := map_option default_sticky (cf_sticky c),
     cf_kind_routing := map_option default_kind_routing (cf_kind_routing c),
     cf_tracing := map_option default_tracing (cf_tracing c),
     cf_acme := map_option default_acme (cf_acme c)\<rparr>"

section \<open>Validation\<close>

datatype cfg_error =
    NoBackends
  | NameRequired nat
  | DuplicateName nat string
  | UrlRequired nat string
  | InvalidUrl nat string
  | BadScheme nat string
  | NoHost nat string
  | NegativeWeight nat string
  | HealthInterval
  | HealthTimeout
  | TimeoutOverInterval
  | UnhealthyThreshold
  | HealthyThreshold
  | ListenProxyRequired
  | ProxyTlsFiles
  | TlsPair nat string
  | BudgetWindow string
  | BudgetMax string
  | StickyHashRequired
  | StickyHashInvalid string
  | StickyFallback
  | TracingEndpoint
  | SamplerRatio f64
  | AcmeDomains
  | AcmeProxyTls
  | AcmeProxy
  | NoWriteable "string list"

definition report_if :: "bool \<Rightarrow> cfg_error \<Rightarrow> cfg_error list" where
  "report_if bad e = (if bad then [e] else [])"

definition check_url :: "(string \<Rightarrow> url option) \<Rightarrow> nat \<Rightarrow> cfg_backend \<Rightarrow> cfg_error list" where
  "check_url parse_url i b =
     (if cb_url b = '''' then [UrlRequired i (cb_name b)]
      else (case parse_url (cb_url b) of
          None \<Rightarrow> [InvalidUrl i (cb_name b)]
        | Some u \<Rightarrow>
            if url_scheme u \<noteq> ''http'' \<and> url_scheme u \<noteq> ''https'' then [BadScheme i (cb_name b)]
            else if url_host u = '''' then [NoHost i (cb_name b)] else []))"

fun check_backends :: "(string \<Rightarrow> url option) \<Rightarrow> nat \<Rightarrow> string list \<Rightarrow> cfg_backend list \<Rightarrow> cfg_error list" where
  "check_backends parse_url i seen [] = []"
| "check_backends parse_url i seen (b # bs) =
     (if cb_name b = '''' then [NameRequired i]
      else if cb_name b \<in> set seen then [DuplicateName i (cb_name b)] else [])
     @ check_url parse_url i b
     @ report_if (cb_weight b < 0) (NegativeWeight i (cb_name b))
     @ check_backends parse_url (Suc i) (if cb_name b = '''' then seen else cb_name b # seen) bs"

fun check_tls_pairs :: "nat \<Rightarrow> cfg_backend list \<Rightarrow> cfg_error list" where
  "check_tls_pairs i [] = []"
| "check_tls_pairs i (b # bs) =
     (case cb_tls b of
        None \<Rightarrow> []
      | Some t \<Rightarrow> report_if ((bt_cert_file t = '''') \<noteq> (bt_key_file t = '''')) (TlsPair i (cb_name b)))
     @ check_tls_pairs (Suc i) bs"

definition check_health :: "cfg_health \<Rightarrow> cfg_error list" where
  "check_health h =
     report_if (he_interval h \<le> 0) HealthInterval
     @ report_if (he_timeout h \<le> 0) HealthTimeout
     @ report_if (he_timeout h > he_interval h) TimeoutOverInterval
     @ report_if (he_unhealthy_threshold h < 1) UnhealthyThreshold
     @ report_if (he_healthy_threshold h < 1) HealthyThreshold"

definition check_budget :: "string \<times> budget \<Rightarrow> cfg_error list" where
  "check_budget kb =
     report_if (bg_window (snd kb) \<le> 0) (BudgetWindow (fst kb))
     @ report_if (f64_le (bg_max_gb (snd kb)) (Fin 0)) (BudgetMax (fst kb))"

definition valid_sticky_hash :: "string \<Rightarrow> bool" where
  "valid_sticky_hash s \<longleftrightarrow> s = ''remote_addr''
     \<or> (length s > length ''cookie:'' \<and> take (length ''cookie:'') s = ''cookie:'')
     \<or> (length s > length ''header:'' \<and> take (length ''header:'') s = ''header:'')"

definition check_sticky :: "cfg_sticky \<Rightarrow> cfg_error list" where
  "check_sticky s =
     (if st_hash s = '''' then [StickyHashRequired]
      else if \<not> valid_sticky_hash (st_hash s) then [StickyHashInvalid (st_hash s)] else [])
     @ report_if (st_fallback_strategy s = ''sticky_by_cloud'') StickyFallback"

definition check_tracing :: "cfg_tracing \<Rightarrow> cfg_error list" where
  "check_tracing t =
     report_if (tr_endpoint t = '''') TracingEndpoint
     @ report_if (f64_less (tr_sampler_ratio t) (Fin 0) \<or> f64_less (Fin 1) (tr_sampler_ratio t))
         (SamplerRatio (tr_sampler_ratio t))"

definition check_acme :: "cfg_listen \<Rightarrow> cfg_acme \<Rightarrow> cfg_error list" where
  "check_acme l a =
     report_if (am_domains a = []) AcmeDomains
     @ report_if (li_proxy_tls l = '''') AcmeProxyTls
     @ report_if (li_proxy l = '''') AcmeProxy"

definition check_kinds :: "cfg_backend list \<Rightarrow> cfg_kind_routing \<Rightarrow> cfg_error list" where
  "check_kinds bs k =
     (if kr_write_kinds k \<noteq> [] \<and> \<not> (\<exists>b \<in> set bs. cb_kind b \<in> set (kr_write_kinds k))
      then [NoWriteable (kr_write_kinds k)] else [])"

definition on_block :: "('a \<Rightarrow> cfg_error list) \<Rightarrow> 'a option \<Rightarrow> cfg_error list" where
  "on_block f b = (case b of None \<Rightarrow> [] | Some x \<Rightarrow> f x)"

definition validate :: "(string \<Rightarrow> url option) \<Rightarrow> config \<Rightarrow> cfg_error list" where
  "validate parse_url c =
     report_if (cf_backends c = []) NoBackends
     @ check_backends parse_url 0 [] (cf_backends c)
     @ check_health (cf_health c)
     @ report_if (li_proxy (cf_listen c) = '''') ListenProxyRequired
     @ report_if (li_proxy_tls (cf_listen c) \<noteq> '''' \<and> cf_acme c = None \<and>
         (case cf_proxy_tls c of None \<Rightarrow> True | Some t \<Rightarrow> ft_cert_file t = '''' \<or> ft_key_file t = ''''))
         ProxyTlsFiles
     @ check_tls_pairs 0 (cf_backends c)
     @ on_block (\<lambda>k. concat (List.map check_budget (co_budgets k))) (cf_cost c)
     @ on_block check_sticky (cf_sticky c)
     @ on_block check_tracing (cf_tracing c)
     @ on_block (check_acme (cf_listen c)) (cf_acme c)
     @ on_block (check_kinds (cf_backends c)) (cf_kind_routing c)"

section \<open>Loading\<close>

datatype load_error = ReadError | YamlError | Rejected "cfg_error list"

definition parse_config ::
  "(string \<Rightarrow> config option) \<Rightarrow> (string \<Rightarrow> url option) \<Rightarrow> string \<Rightarrow> load_error + config" where
  "parse_config decode parse_url data =
     (case decode data of
        None \<Rightarrow> Inl YamlError
      | Some c \<Rightarrow>
          let c = apply_defaults c; errs = validate parse_url c
          in if errs = [] then Inr c else Inl (Rejected errs))"

definition load_config ::
  "(string \<Rightarrow> string option) \<Rightarrow> (string \<Rightarrow> config option) \<Rightarrow> (string \<Rightarrow> url option) \<Rightarrow> string \<Rightarrow>
   load_error + config" where
  "load_config read decode parse_url path =
     (case read path of None \<Rightarrow> Inl ReadError | Some data \<Rightarrow> parse_config decode parse_url data)"

section \<open>What validation decides\<close>

definition backend_valid :: "(string \<Rightarrow> url option) \<Rightarrow> cfg_backend \<Rightarrow> bool" where
  "backend_valid parse_url b \<longleftrightarrow> cb_name b \<noteq> '''' \<and> 0 \<le> cb_weight b \<and> cb_url b \<noteq> '''' \<and>
     (\<exists>u. parse_url (cb_url b) = Some u \<and> url_scheme u \<in> {''http'', ''https''} \<and> url_host u \<noteq> '''')"

definition tls_valid :: "cfg_backend \<Rightarrow> bool" where
  "tls_valid b \<longleftrightarrow> (\<forall>t. cb_tls b = Some t \<longrightarrow> (bt_cert_file t = '''' \<longleftrightarrow> bt_key_file t = ''''))"

definition health_valid :: "cfg_health \<Rightarrow> bool" where
  "health_valid h \<longleftrightarrow> 0 < he_timeout h \<and> he_timeout h \<le> he_interval h
     \<and> 1 \<le> he_unhealthy_threshold h \<and> 1 \<le> he_healthy_threshold h"

definition blocks_valid :: "config \<Rightarrow> bool" where
  "blocks_valid c \<longleftrightarrow>
     (\<forall>k. cf_cost c = Some k \<longrightarrow>
        (\<forall>(n, b) \<in> set (co_budgets k). 0 < bg_window b \<and> \<not> f64_le (bg_max_gb b) (Fin 0))) \<and>
     (\<forall>s. cf_sticky c = Some s \<longrightarrow>
        valid_sticky_hash (st_hash s) \<and> st_fallback_strategy s \<noteq> ''sticky_by_cloud'') \<and>
     (\<forall>t. cf_tracing c = Some t \<longrightarrow> tr_endpoint t \<noteq> ''''
        \<and> \<not> f64_less (tr_sampler_ratio t) (Fin 0) \<and> \<not> f64_less (Fin 1) (tr_sampler_ratio t)) \<and>
     (\<forall>a. cf_acme c = Some a \<longrightarrow> am_domains a \<noteq> [] \<and> li_proxy_tls (cf_listen c) \<noteq> '''') \<and>
     (\<forall>k. cf_kind_routing c = Some k \<longrightarrow> kr_write_kinds k = []
        \<or> (\<exists>b \<in> set (cf_backends c). cb_kind b \<in> set (kr_write_kinds k))) \<and>
     (li_proxy_tls (cf_listen c) \<noteq> '''' \<and> cf_acme c = None \<longrightarrow>
        (\<exists>t. cf_proxy_tls c = Some t \<and> ft_cert_file t \<noteq> '''' \<and> ft_key_file t \<noteq> ''''))"

definition config_valid :: "(string \<Rightarrow> url option) \<Rightarrow> config \<Rightarrow> bool" where
  "config_valid parse_url c \<longleftrightarrow> cf_backends c \<noteq> [] \<and> distinct (List.map cb_name (cf_backends c))
     \<and> (\<forall>b \<in> set (cf_backends c). backend_valid parse_url b \<and> tls_valid b)
     \<and> health_valid (cf_health c) \<and> li_proxy (cf_listen c) \<noteq> '''' \<and> blocks_valid c"

lemma report_if_Nil [simp]: "report_if bad e = [] \<longleftrightarrow> \<not> bad"
  by (simp add: report_if_def)

lemma check_url_Nil:
  "check_url parse_url i b = [] \<longleftrightarrow> cb_url b \<noteq> '''' \<and>
     (\<exists>u. parse_url (cb_url b) = Some u \<and> url_scheme u \<in> {''http'', ''https''} \<and> url_host u \<noteq> '''')"
  by (auto simp: check_url_def split: option.splits)

lemma check_backend_Nil:
  "check_url parse_url i b = [] \<and> 0 \<le> cb_weight b \<and> cb_name b \<noteq> '''' \<longleftrightarrow> backend_valid parse_url b"
  unfolding check_url_Nil backend_valid_def by argo

lemma check_backends_Cons_Nil:
  "check_backends parse_url i seen (b # bs) = [] \<longleftrightarrow>
     backend_valid parse_url b \<and> cb_name b \<notin> set seen
     \<and> check_backends parse_url (Suc i) (cb_name b # seen) bs = []"
  unfolding check_backend_Nil [where i = i, symmetric]
  by (cases "cb_name b = ''''"; cases "cb_name b \<in> set seen") (simp_all add: not_less)

lemma check_backends_Nil:
  "check_backends parse_url i seen bs = [] \<longleftrightarrow> distinct (List.map cb_name bs)
     \<and> (\<forall>b \<in> set bs. backend_valid parse_url b \<and> cb_name b \<notin> set seen)"
proof (induction bs arbitrary: i seen)
  case (Cons b bs)
  have "cb_name b \<notin> cb_name ` set bs \<longleftrightarrow> (\<forall>x \<in> set bs. cb_name x \<noteq> cb_name b)"
    by (auto simp: image_iff)
  then show ?case
    unfolding check_backends_Cons_Nil Cons.IH by (simp add: ball_conj_distrib) argo
qed simp

lemma check_tls_pairs_Nil: "check_tls_pairs i bs = [] \<longleftrightarrow> (\<forall>b \<in> set bs. tls_valid b)"
proof (induction bs arbitrary: i)
  case (Cons b bs)
  then show ?case by (cases "cb_tls b") (auto simp: tls_valid_def)
qed simp

lemma check_health_Nil: "check_health h = [] \<longleftrightarrow> health_valid h"
  by (auto simp: check_health_def health_valid_def)

lemma check_sticky_Nil:
  "check_sticky s = [] \<longleftrightarrow> valid_sticky_hash (st_hash s) \<and> st_fallback_strategy s \<noteq> ''sticky_by_cloud''"
  by (auto simp: check_sticky_def valid_sticky_hash_def)

lemma validate_Nil: "validate parse_url c = [] \<longleftrightarrow> config_valid parse_url c"
proof -
  have cost: "on_block (\<lambda>k. concat (List.map check_budget (co_budgets k))) (cf_cost c) = []
      \<longleftrightarrow> (\<forall>k. cf_cost c = Some k \<longrightarrow>
        (\<forall>(n, b) \<in> set (co_budgets k). 0 < bg_window b \<and> \<not> f64_le (bg_max_gb b) (Fin 0)))"
    by (cases "cf_cost c") (simp_all add: on_block_def check_budget_def not_le split_beta)
  have sticky: "on_block check_sticky (cf_sticky c) = [] \<longleftrightarrow>
     (\<forall>s. cf_sticky c = Some s \<longrightarrow>
        valid_sticky_hash (st_hash s) \<and> st_fallback_strategy s \<noteq> ''sticky_by_cloud'')"
    by (cases "cf_sticky c") (simp_all add: on_block_def check_sticky_Nil)
  have tracing: "on_block check_tracing (cf_tracing c) = [] \<longleftrightarrow>
     (\<forall>t. cf_tracing c = Some t \<longrightarrow> tr_endpoint t \<noteq> ''''
        \<and> \<not> f64_less (tr_sampler_ratio t) (Fin 0) \<and> \<not> f64_less (Fin 1) (tr_sampler_ratio t))"
    by (cases "cf_tracing c") (simp_all add: on_block_def check_tracing_def)
  have kinds: "on_block (check_kinds (cf_backends c)) (cf_kind_routing c) = [] \<longleftrightarrow>
     (\<forall>k. cf_kind_routing c = Some k \<longrightarrow> kr_write_kinds k = []
        \<or> (\<exists>b \<in> set (cf_backends c). cb_kind b \<in> set (kr_write_kinds k)))"
    by (cases "cf_kind_routing c") (auto simp: on_block_def check_kinds_def)
  have acme: "on_block (check_acme (cf_listen c)) (cf_acme c) = [] \<and> li_proxy (cf_listen c) \<noteq> ''''
      \<longleftrightarrow> (\<forall>a. cf_acme c = Some a \<longrightarrow> am_domains a \<noteq> [] \<and> li_proxy_tls (cf_listen c) \<noteq> '''')
          \<and> li_proxy (cf_listen c) \<noteq> ''''"
    by (cases "cf_acme c") (auto simp: on_block_def check_acme_def)
  have front: "\<not> (li_proxy_tls (cf_listen c) \<noteq> '''' \<and> cf_acme c = None \<and>
         (case cf_proxy_tls c of None \<Rightarrow> True | Some t \<Rightarrow> ft_cert_file t = '''' \<or> ft_key_file t = ''''))
      \<longleftrightarrow> (li_proxy_tls (cf_listen c) \<noteq> '''' \<and> cf_acme c = None \<longrightarrow>
        (\<exists>t. cf_proxy_tls c = Some t \<and> ft_cert_file t \<noteq> '''' \<and> ft_key_file t \<noteq> ''''))"
    by (cases "cf_proxy_tls c") auto
  have backends: "check_backends parse_url 0 [] (cf_backends c) = [] \<and> check_tls_pairs 0 (cf_backends c) = []
      \<longleftrightarrow> distinct (List.map cb_name (cf_backends c))
          \<and> (\<forall>b \<in> set (cf_backends c). backend_valid parse_url b \<and> tls_valid b)"
    unfolding check_backends_Nil check_tls_pairs_Nil by (simp add: ball_conj_distrib)
  show ?thesis
    unfolding validate_def config_valid_def blocks_valid_def append_is_Nil_conv report_if_Nil
      check_health_Nil front cost sticky tracing kinds not_not
    using acme backends by argo
qed

lemma defaults_idem: "apply_defaults (apply_defaults c) = apply_defaults c"
proof -
  have "default_health (default_health h) = default_health h" for h
    by (simp add: default_health_def or_int_def or_str_def seconds_def)
  moreover have "default_sticky (default_sticky s) = default_sticky s" for s
    by (simp add: default_sticky_def or_int_def or_str_def seconds_def)
  moreover have "default_kind_routing (default_kind_routing k) = default_kind_routing k" for k
    by (simp add: default_kind_routing_def)
  moreover have "default_tracing (default_tracing t) = default_tracing t" for t
    by (simp add: default_tracing_def or_str_def f64_eq_def)
  moreover have "default_acme (default_acme a) = default_acme a" for a
    by (simp add: default_acme_def or_str_def)
  ultimately show ?thesis
    by (simp add: apply_defaults_def option.map_comp comp_def or_int_def or_str_def seconds_def)
qed

lemma defaulted_weights:
  assumes "b \<in> set (cf_backends (apply_defaults c))"
  shows "cb_weight b \<noteq> 0"
proof -
  from assms obtain b0 where "b = b0\<lparr>cb_weight := or_int 1 (cb_weight b0)\<rparr>"
    by (auto simp: apply_defaults_def)
  then show ?thesis by (simp add: or_int_def)
qed


lemma loaded_valid:
  assumes "load_config read decode parse_url path = Inr c"
  shows "config_valid parse_url c \<and> (\<exists>c0. c = apply_defaults c0)"
  using assms unfolding load_config_def parse_config_def Let_def
  by (cases "read path"; cases "decode (the (read path))") (auto simp: validate_Nil split: if_splits)

text \<open>
  In a loaded configuration every backend has a weight of at least one, and the defaults
  are stable: applying them to it again changes nothing.
\<close>

theorem loaded_config_settled:
  assumes "load_config read decode parse_url path = Inr c"
  shows "apply_defaults c = c \<and> (\<forall>b \<in> set (cf_backends c). 1 \<le> cb_weight b)"
proof -
  from loaded_valid [OF assms] obtain c0 where c: "c = apply_defaults c0"
    and v: "config_valid parse_url c" by blast
  have "1 \<le> cb_weight b" if b: "b \<in> set (cf_backends c)" for b
  proof -
    have "cb_weight b \<noteq> 0" using defaulted_weights b unfolding c by blast
    moreover have "0 \<le> cb_weight b" using v b by (simp add: config_valid_def backend_valid_def)
    ultimately show ?thesis by simp
  qed
  moreover have "apply_defaults c = c" unfolding c by (rule defaults_idem)
  ultimately show ?thesis by blast
qed

end
