(* ===== verification/Tls.thy ===== *)
theory Tls
  imports Config
begin

text \<open>
  The TLS configurations: \<^verbatim>\<open>internal/proxy/tls.go\<close> (towards backends) and \<^verbatim>\<open>buildFrontTLS\<close>
  and \<^verbatim>\<open>newAutocertManager\<close> of \<^verbatim>\<open>internal/engine/engine.go\<close> (towards clients).  Files,
  key pairs and PEM parsing are parameters, gathered in \<open>files\<close>: \<open>fs_keypair\<close> is
  \<^verbatim>\<open>tls.LoadX509KeyPair\<close>, \<open>fs_certs\<close> the certificates \<^verbatim>\<open>AppendCertsFromPEM\<close> finds (it
  reports success when there is one).
\<close>

record files =
  fs_read :: "string \<Rightarrow> string option"
  fs_keypair :: "string \<Rightarrow> string \<Rightarrow> string option"
  fs_certs :: "string \<Rightarrow> string list"

datatype client_auth = NoClientCert | RequireAndVerifyClientCert

record tls_config =
  tc_server_name :: string
  tc_insecure_skip_verify :: bool
  tc_min_version :: nat
  tc_certificates :: "string list"
  tc_root_cas :: "string list option"
  tc_client_cas :: "string list option"
  tc_client_auth :: client_auth

definition version_tls12 :: nat where
  "version_tls12 = 0x0303"

definition empty_tls_config :: tls_config where
  "empty_tls_config = \<lparr>tc_server_name = '''', tc_insecure_skip_verify = False, tc_min_version = 0,
     tc_certificates = [], tc_root_cas = None, tc_client_cas = None, tc_client_auth = NoClientCert\<rparr>"

datatype tls_error = KeypairError | CaReadError string | CaEmpty | FrontFilesRequired

definition load_ca_pool :: "files \<Rightarrow> string \<Rightarrow> tls_error + string list" where
  "load_ca_pool fs path =
     (case fs_read fs path of
        None \<Rightarrow> Inl (CaReadError path)
      | Some pem \<Rightarrow> if fs_certs fs pem = [] then Inl CaEmpty else Inr (fs_certs fs pem))"

definition build_backend_tls_config ::
  "files \<Rightarrow> cfg_backend_tls option \<Rightarrow> tls_error + tls_config option" where
  "build_backend_tls_config fs spec =
     (case spec of
        None \<Rightarrow> Inr None
      | Some s \<Rightarrow>
          let tc = empty_tls_config\<lparr>tc_server_name := bt_server_name s,
                     tc_insecure_skip_verify := bt_insecure_skip_verify s,
                     tc_min_version := version_tls12\<rparr>;
              certs = (if bt_cert_file s \<noteq> '''' \<and> bt_key_file s \<noteq> ''''
                       then map_option (\<lambda>c. [c]) (fs_keypair fs (bt_cert_file s) (bt_key_file s))
                       else Some [])
          in (case certs of
                None \<Rightarrow> Inl KeypairError
              | Some cs \<Rightarrow>
                  let tc = tc\<lparr>tc_certificates := cs\<rparr>
                  in if bt_ca_file s \<noteq> '''' then
                       (case load_ca_pool fs (bt_ca_file s) of
                          Inl e \<Rightarrow> Inl e
                        | Inr cas \<Rightarrow> Inr (Some (tc\<lparr>tc_root_cas := Some cas\<rparr>)))
                     else Inr (Some tc)))"

definition build_front_tls :: "files \<Rightarrow> cfg_front_tls option \<Rightarrow> tls_error + tls_config" where
  "build_front_tls fs cfg =
     (case cfg of
        None \<Rightarrow> Inl FrontFilesRequired
      | Some t \<Rightarrow>
          if ft_cert_file t = '''' \<or> ft_key_file t = '''' then Inl FrontFilesRequired
          else (case fs_keypair fs (ft_cert_file t) (ft_key_file t) of
              None \<Rightarrow> Inl KeypairError
            | Some cert \<Rightarrow>
                let tc = empty_tls_config\<lparr>tc_certificates := [cert], tc_min_version := version_tls12\<rparr>
                in if ft_client_ca_file t \<noteq> '''' then
                     (case fs_read fs (ft_client_ca_file t) of
                        None \<Rightarrow> Inl (CaReadError (ft_client_ca_file t))
                      | Some pem \<Rightarrow>
                          if fs_certs fs pem = [] then Inl CaEmpty
                          else Inr (tc\<lparr>tc_client_cas := Some (fs_certs fs pem),
                                       tc_client_auth := RequireAndVerifyClientCert\<rparr>))
                   else Inr tc))"

text \<open>The ACME manager: what \<^verbatim>\<open>autocert\<close> is configured with.\<close>

record acme_manager =
  am_cache :: string
  am_hosts :: "string list"
  am_contact :: string
  am_directory :: "string option"

definition staging_directory :: string where
  "staging_directory = ''https://acme-staging-v02.api.letsencrypt.org/directory''"

definition new_autocert_manager :: "cfg_acme \<Rightarrow> acme_manager" where
  "new_autocert_manager a =
     (let dir = (if am_directory_url a = '''' \<and> am_staging a then staging_directory else am_directory_url a)
      in \<lparr>am_cache = am_cache_dir a, am_hosts = am_domains a, am_contact = am_email a,
          am_directory = (if dir = '''' then None else Some dir)\<rparr>)"

section \<open>What a built configuration promises\<close>

lemma load_ca_pool_Inr:
  "load_ca_pool fs path = Inr cas \<longleftrightarrow> (\<exists>pem. fs_read fs path = Some pem \<and> cas = fs_certs fs pem \<and> cas \<noteq> [])"
  by (auto simp: load_ca_pool_def split: option.splits if_splits)

text \<open>
  A front TLS configuration that builds serves exactly the configured certificate, with
  TLS 1.2 at least; with a client CA file it demands verified client certificates against
  a non-empty set of authorities, and without one it demands none.
\<close>

theorem front_tls_enforces:
  assumes "build_front_tls fs (Some t) = Inr tc"
  shows "(\<exists>cert. fs_keypair fs (ft_cert_file t) (ft_key_file t) = Some cert \<and> tc_certificates tc = [cert])
       \<and> tc_min_version tc = version_tls12
       \<and> (if ft_client_ca_file t \<noteq> ''''
          then tc_client_auth tc = RequireAndVerifyClientCert
             \<and> (\<exists>pem. fs_read fs (ft_client_ca_file t) = Some pem \<and> tc_client_cas tc = Some (fs_certs fs pem)
                   \<and> fs_certs fs pem \<noteq> [])
          else tc_client_auth tc = NoClientCert \<and> tc_client_cas tc = None)"
  using assms unfolding build_front_tls_def Let_def
  by (auto simp: empty_tls_config_def split: if_splits option.splits)

text \<open>
  A backend TLS configuration that builds skips certificate verification only where the
  configuration says so, trusts only the authorities of the configured CA file, and is
  absent exactly when the backend has no TLS block.
\<close>

theorem backend_tls_enforces:
  assumes "build_backend_tls_config fs spec = Inr res"
  shows "(res = None \<longleftrightarrow> spec = None)
       \<and> (\<forall>s tc. spec = Some s \<and> res = Some tc \<longrightarrow>
            tc_insecure_skip_verify tc = bt_insecure_skip_verify s
          \<and> tc_server_name tc = bt_server_name s \<and> tc_min_version tc = version_tls12
          \<and> (bt_ca_file s \<noteq> '''' \<longrightarrow> (\<exists>cas. cas \<noteq> [] \<and> tc_root_cas tc = Some cas \<and> load_ca_pool fs (bt_ca_file s) = Inr cas))
          \<and> (bt_cert_file s \<noteq> '''' \<and> bt_key_file s \<noteq> '''' \<longrightarrow>
               (\<exists>c. fs_keypair fs (bt_cert_file s) (bt_key_file s) = Some c \<and> tc_certificates tc = [c])))"
proof (cases spec)
  case None
  with assms show ?thesis by (simp add: build_backend_tls_config_def)
next
  case (Some s)
  with assms show ?thesis
    unfolding build_backend_tls_config_def Let_def
    by (cases "bt_ca_file s = ''''"; cases "bt_cert_file s \<noteq> '''' \<and> bt_key_file s \<noteq> ''''")
      (auto simp: load_ca_pool_Inr empty_tls_config_def split: option.splits sum.splits)
qed

end
