(* ===== verification/Metrics.thy ===== *)
theory Metrics
  imports GoBase
begin

text \<open>
  \<^verbatim>\<open>internal/metrics/metrics.go\<close>.  The Prometheus client is not part of the repository; of
  a collector the program fixes the name, the label names and the kind, and from then on
  it only calls methods.  So the model has the collectors' descriptions, and the handlers
  return the calls they make (\<open>metric_call\<close>).  Durations are nanoseconds, byte and
  in-flight counts integers, before their conversion to \<^verbatim>\<open>float64\<close>.
\<close>

datatype metric_kind = Counter | Gauge | Histogram

datatype collector =
    Requests
  | RequestDuration
  | BackendUp
  | HealthCheckDur
  | ActiveBackends
  | ProxyErrors
  | BackendInflight
  | EgressBytes
  | BackendLatencyEMA

record metric_desc =
  md_name :: string
  md_kind :: metric_kind
  md_labels :: "string list"

definition namespace :: string where
  "namespace = ''openvcc''"

definition metric :: "string \<Rightarrow> metric_kind \<Rightarrow> string list \<Rightarrow> metric_desc" where
  "metric name k ls = \<lparr>md_name = namespace @ ''_'' @ name, md_kind = k, md_labels = ls\<rparr>"

fun describe :: "collector \<Rightarrow> metric_desc" where
  "describe Requests = metric ''requests_total'' Counter [''backend'', ''cloud'', ''code'']"
| "describe RequestDuration = metric ''request_duration_seconds'' Histogram [''backend'', ''cloud'']"
| "describe BackendUp = metric ''backend_up'' Gauge [''backend'', ''cloud'']"
| "describe HealthCheckDur = metric ''health_check_duration_seconds'' Histogram [''backend'']"
| "describe ActiveBackends = metric ''active_backends'' Gauge []"
| "describe ProxyErrors = metric ''proxy_errors_total'' Counter [''backend'', ''cloud'', ''kind'']"
| "describe BackendInflight = metric ''backend_inflight'' Gauge [''backend'', ''cloud'']"
| "describe EgressBytes = metric ''egress_bytes_total'' Counter [''cloud'']"
| "describe BackendLatencyEMA = metric ''backend_latency_ema_seconds'' Gauge [''backend'', ''cloud'']"

text \<open>The order in which \<^verbatim>\<open>New\<close> registers them; \<^verbatim>\<open>MustRegister\<close> panics on a name in use.\<close>

definition registered :: "collector list" where
  "registered = [Requests, RequestDuration, BackendUp, HealthCheckDur, ActiveBackends,
                 ProxyErrors, BackendInflight, EgressBytes, BackendLatencyEMA]"

fun must_register :: "string list \<Rightarrow> collector list \<Rightarrow> string list option" where
  "must_register names [] = Some names"
| "must_register names (c # cs) =
     (if md_name (describe c) \<in> set names then None
      else must_register (names @ [md_name (describe c)]) cs)"

definition new_collectors :: "string list \<Rightarrow> string list option" where
  "new_collectors names = must_register names registered"

text \<open>The calls, each with its label values.\<close>

datatype metric_call =
    MInc collector "string list"
  | MAdd collector "string list" int
  | MSet collector "string list" int
  | MObserve collector "string list" int

text \<open>
  A call panics unless it has one value per label and the method belongs to the kind of
  the collector (the latter is enforced by Go's types).
\<close>

fun call_ok :: "metric_call \<Rightarrow> bool" where
  "call_ok (MInc c ls) \<longleftrightarrow> md_kind (describe c) = Counter \<and> length ls = length (md_labels (describe c))"
| "call_ok (MAdd c ls n) \<longleftrightarrow>
     md_kind (describe c) = Counter \<and> length ls = length (md_labels (describe c)) \<and> 0 \<le> n"
| "call_ok (MSet c ls n) \<longleftrightarrow> md_kind (describe c) = Gauge \<and> length ls = length (md_labels (describe c))"
| "call_ok (MObserve c ls n) \<longleftrightarrow>
     md_kind (describe c) = Histogram \<and> length ls = length (md_labels (describe c))"

text \<open>The calls of a handler whose collectors may be nil.\<close>

definition if_metrics :: "bool \<Rightarrow> metric_call list \<Rightarrow> metric_call list" where
  "if_metrics on cs = (if on then cs else [])"

lemma if_metrics_simps [simp]:
  "if_metrics True cs = cs" "if_metrics False cs = []" "list_all call_ok (if_metrics on cs) \<longleftrightarrow> (on \<longrightarrow> list_all call_ok cs)"
  by (simp_all add: if_metrics_def)

lemma metric_simps [simp]:
  "md_name (metric n k ls) = namespace @ ''_'' @ n" "md_kind (metric n k ls) = k" "md_labels (metric n k ls) = ls"
  by (simp_all add: metric_def)

lemma must_register_Some:
  "must_register names cs = (if distinct (List.map (\<lambda>c. md_name (describe c)) cs)
      \<and> set (List.map (\<lambda>c. md_name (describe c)) cs) \<inter> set names = {}
    then Some (names @ List.map (\<lambda>c. md_name (describe c)) cs) else None)"
  by (induction cs arbitrary: names) auto

lemma registered_distinct: "distinct (List.map (\<lambda>c. md_name (describe c)) registered)"
  by (simp add: registered_def namespace_def)

text \<open>The calls of a component are safe, and there are none without collectors.\<close>

definition calls_ok :: "bool \<Rightarrow> metric_call list \<Rightarrow> bool" where
  "calls_ok m calls \<longleftrightarrow> list_all call_ok calls \<and> (\<not> m \<longrightarrow> calls = [])"

lemma calls_ok_append [simp]: "calls_ok m (xs @ ys) \<longleftrightarrow> calls_ok m xs \<and> calls_ok m ys"
  by (auto simp: calls_ok_def)

lemma calls_ok_if [simp]: "calls_ok m (if_metrics m cs) \<longleftrightarrow> (m \<longrightarrow> list_all call_ok cs)"
  by (simp add: calls_ok_def if_metrics_def)

end
