(* ===== verification/Proxy.thy ===== *)
theory Proxy
  imports Pool Tls Metrics
begin

text \<open>
  \<^verbatim>\<open>internal/proxy/proxy.go\<close>: the reverse proxy.  A request runs in five atomic steps,
  between which other requests, reloads and admin calls may run: \<open>serve_choose\<close> (the pool's
  pick), \<open>serve_admit\<close> (count the backend in flight, set the affinity cookie),
  \<open>serve_connect\<close> (\<^verbatim>\<open>proxyFor\<close>), \<open>serve_respond\<close> (the upstream exchange and the accounting) and
  \<open>serve_release\<close> (the deferred decrement).  \<open>serve_pick\<close> and \<open>serve_finish\<close> are the first
  two and the last two without anything in between.
  What the backend and the client's connection do is a parameter (\<open>upstream\<close>); what
  \<^verbatim>\<open>httputil.ReverseProxy\<close> does with it is \<open>reverse_proxy\<close>.  Log lines are left out;
  spans are in \<open>Serving\<close>.  \<^verbatim>\<open>int(ttl.Seconds())\<close> is the whole number of seconds (the rounding of the float
  is below its fraction for any ttl under \<open>2 ^ 22\<close> seconds).
\<close>

section \<open>Response writers\<close>

type_synonym headers = "(string \<times> string) list"

definition header_set :: "string \<Rightarrow> string \<Rightarrow> headers \<Rightarrow> headers" where
  "header_set k v hs = filter (\<lambda>p. fst p \<noteq> k) hs @ [(k, v)]"

definition header_del :: "string \<Rightarrow> headers \<Rightarrow> headers" where
  "header_del k hs = filter (\<lambda>p. fst p \<noteq> k) hs"

text \<open>What reaches the underlying \<^verbatim>\<open>http.ResponseWriter\<close>: heads and counted body bytes.\<close>

datatype sent = Head int headers | Data int

record status_writer =
  sw_code :: int
  sw_wrote_header :: bool
  sw_bytes :: int
  sw_header :: headers
  sw_sent :: "sent list"

definition new_status_writer :: status_writer where
  "new_status_writer = \<lparr>sw_code = 200, sw_wrote_header = False, sw_bytes = 0, sw_header = [], sw_sent = []\<rparr>"

definition write_header :: "int \<Rightarrow> status_writer \<Rightarrow> status_writer" where
  "write_header code s =
     (let s = (if \<not> sw_wrote_header s then s\<lparr>sw_code := code, sw_wrote_header := True\<rparr> else s)
      in s\<lparr>sw_sent := sw_sent s @ [Head code (sw_header s)]\<rparr>)"

text \<open>\<open>n\<close> is the count the underlying writer returns.\<close>

definition write_body :: "int \<Rightarrow> status_writer \<Rightarrow> status_writer" where
  "write_body n s = s\<lparr>sw_wrote_header := True, sw_bytes := wrap64 (sw_bytes s + n),
                      sw_sent := sw_sent s @ [Data n]\<rparr>"

definition update_header :: "(headers \<Rightarrow> headers) \<Rightarrow> status_writer \<Rightarrow> status_writer" where
  "update_header f s = s\<lparr>sw_header := f (sw_header s)\<rparr>"

text \<open>\<^verbatim>\<open>http.Error\<close> with a text of \<open>len\<close> bytes, to which it adds a line end.\<close>

definition http_error :: "int \<Rightarrow> int \<Rightarrow> status_writer \<Rightarrow> status_writer" where
  "http_error len code s =
     write_body (len + 1)
       (write_header code
         (update_header (\<lambda>hs. header_set ''X-Content-Type-Options'' ''nosniff''
            (header_set ''Content-Type'' ''text/plain; charset=utf-8'' (header_del ''Content-Length'' hs))) s))"

section \<open>The affinity cookie\<close>

definition cookie_byte :: "char \<Rightarrow> bool" where
  "cookie_byte c \<longleftrightarrow> (let n = (of_char c :: nat) in
     32 \<le> n \<and> n < 127 \<and> c \<noteq> CHR 0x22 \<and> c \<noteq> CHR '';'' \<and> c \<noteq> CHR 0x5C)"

definition sanitize_cookie_value :: "string \<Rightarrow> string" where
  "sanitize_cookie_value v =
     (let v = filter cookie_byte v
      in if v = '''' then v
         else if CHR '' '' \<in> set v \<or> CHR '','' \<in> set v then CHR 0x22 # v @ [CHR 0x22] else v)"

text \<open>How a server reads the value back (\<^verbatim>\<open>parseCookieValue\<close> with quotes allowed).\<close>

definition parse_cookie_value :: "string \<Rightarrow> string option" where
  "parse_cookie_value raw =
     (let v = (if 1 < length raw \<and> hd raw = CHR 0x22 \<and> last raw = CHR 0x22 then butlast (tl raw) else raw)
      in if list_all cookie_byte v then Some v else None)"

definition is_token :: "string \<Rightarrow> bool" where
  "is_token s \<longleftrightarrow> s \<noteq> '''' \<and> list_all token_byte s"

definition max_age_attr :: "int \<Rightarrow> string" where
  "max_age_attr n = (if 0 < n then ''; Max-Age='' @ itoa n else if n < 0 then ''; Max-Age=0'' else '''')"

text \<open>The line \<^verbatim>\<open>http.SetCookie\<close> adds; an invalid name adds none.\<close>

definition cookie_line :: "string \<Rightarrow> string \<Rightarrow> int \<Rightarrow> string" where
  "cookie_line name v max_age =
     (if is_token name
      then name @ ''='' @ sanitize_cookie_value v @ ''; Path=/'' @ max_age_attr max_age
           @ ''; HttpOnly; SameSite=Lax''
      else '''')"

definition set_cookie :: "string \<Rightarrow> string \<Rightarrow> int \<Rightarrow> status_writer \<Rightarrow> status_writer" where
  "set_cookie name v max_age s =
     (if cookie_line name v max_age \<noteq> ''''
      then update_header (\<lambda>hs. hs @ [(''Set-Cookie'', cookie_line name v max_age)]) s else s)"

definition whole_seconds :: "int \<Rightarrow> int" where
  "whole_seconds d = sgn d * (\<bar>d\<bar> div 1000000000)"

section \<open>The handler\<close>

text \<open>A cached \<^verbatim>\<open>ReverseProxy\<close>: the backend its closures captured and the TLS
  configuration of its transport (\<open>None\<close> is the shared transport).\<close>

record rev_proxy =
  rp_target :: bref
  rp_tls :: "tls_config option"

type_synonym tls_lookup = "string \<Rightarrow> tls_config option"

record handler =
  ph_metrics :: bool
  ph_cfg :: cfg_proxy
  ph_timeout :: int
  ph_proxies :: "string \<rightharpoonup> rev_proxy"
  ph_tls_by_backend :: "tls_lookup option"
  ph_accountant :: "acc_ref option"
  ph_cookie_name :: string
  ph_cookie_ttl :: int

definition new_handler :: "bool \<Rightarrow> cfg_proxy \<Rightarrow> handler" where
  "new_handler m cfg =
     \<lparr>ph_metrics = m, ph_cfg = cfg, ph_timeout = px_request_timeout cfg, ph_proxies = Map.empty,
      ph_tls_by_backend = None, ph_accountant = None, ph_cookie_name = '''', ph_cookie_ttl = 0\<rparr>"

text \<open>The transport, for the fields a configuration decides.\<close>

record transport =
  tp_max_idle :: int
  tp_max_idle_per_host :: int
  tp_dial_timeout :: int
  tp_tls_handshake_timeout :: int
  tp_tls :: "tls_config option"

definition new_base_transport :: "cfg_proxy \<Rightarrow> transport" where
  "new_base_transport cfg =
     \<lparr>tp_max_idle = 256, tp_max_idle_per_host = px_max_idle_conns cfg, tp_dial_timeout = seconds 5,
      tp_tls_handshake_timeout = seconds 10, tp_tls = None\<rparr>"

definition transport_of :: "handler \<Rightarrow> rev_proxy \<Rightarrow> transport" where
  "transport_of ph rp = (new_base_transport (ph_cfg ph))\<lparr>tp_tls := rp_tls rp\<rparr>"

definition set_accountant :: "acc_ref option \<Rightarrow> handler \<Rightarrow> handler" where
  "set_accountant a ph = ph\<lparr>ph_accountant := a\<rparr>"

definition set_sticky_cookie :: "string \<Rightarrow> int \<Rightarrow> handler \<Rightarrow> handler" where
  "set_sticky_cookie name ttl ph = ph\<lparr>ph_cookie_name := name, ph_cookie_ttl := ttl\<rparr>"

definition set_tls_by_backend :: "tls_lookup option \<Rightarrow> handler \<Rightarrow> handler" where
  "set_tls_by_backend fn ph = ph\<lparr>ph_tls_by_backend := fn, ph_proxies := Map.empty\<rparr>"

definition forget :: "string \<Rightarrow> handler \<Rightarrow> handler" where
  "forget name ph = ph\<lparr>ph_proxies := (ph_proxies ph)(name := None)\<rparr>"

definition build_proxy :: "handler \<Rightarrow> heap \<Rightarrow> bref \<Rightarrow> rev_proxy" where
  "build_proxy ph h r =
     \<lparr>rp_target = r,
      rp_tls = (case ph_tls_by_backend ph of None \<Rightarrow> None | Some f \<Rightarrow> f (bk_name (h r)))\<rparr>"

definition proxy_for :: "heap \<Rightarrow> bref \<Rightarrow> handler \<Rightarrow> rev_proxy \<times> handler" where
  "proxy_for h r ph =
     (case ph_proxies ph (bk_name (h r)) of
        Some rp \<Rightarrow> (rp, ph)
      | None \<Rightarrow>
          let rp = build_proxy ph h r
          in (rp, ph\<lparr>ph_proxies := (ph_proxies ph)(bk_name (h r) \<mapsto> rp)\<rparr>))"

datatype go_err = DeadlineExceeded | Canceled | OtherError

definition err_kind :: "go_err \<Rightarrow> string" where
  "err_kind e = (case e of DeadlineExceeded \<Rightarrow> ''timeout'' | Canceled \<Rightarrow> ''canceled'' | OtherError \<Rightarrow> ''transport'')"

section \<open>The upstream exchange\<close>

text \<open>
  What the round trip yields: the interim (1xx) responses, then either a failure or a final
  response: its status, its headers, the counts of the body writes to the client and
  whether the copy broke off.
\<close>

datatype upstream =
    Failed "(int \<times> headers) list" go_err
  | Responded "(int \<times> headers) list" int headers "int list" bool

text \<open>\<^verbatim>\<open>ReverseProxy\<close> forwards an interim response and clears the header map.\<close>

fun forward_interim :: "(int \<times> headers) list \<Rightarrow> status_writer \<Rightarrow> status_writer" where
  "forward_interim [] s = s"
| "forward_interim ((code, hs) # rest) s =
     forward_interim rest (update_header (\<lambda>_. []) (write_header code (update_header (\<lambda>old. old @ hs) s)))"

definition error_handler ::
  "handler \<Rightarrow> heap \<Rightarrow> rev_proxy \<Rightarrow> go_err \<Rightarrow> status_writer \<Rightarrow> status_writer \<times> metric_call list" where
  "error_handler ph h rp e s =
     (http_error 14 502 s,
      if_metrics (ph_metrics ph)
        [MInc ProxyErrors [bk_name (h (rp_target rp)), bk_cloud (h (rp_target rp)), err_kind e]])"

definition modify_response :: "heap \<Rightarrow> rev_proxy \<Rightarrow> headers \<Rightarrow> headers" where
  "modify_response h rp hs =
     header_set ''X-Cloud'' (bk_cloud (h (rp_target rp))) (header_set ''X-Backend'' (bk_name (h (rp_target rp))) hs)"

text \<open>
  \<^verbatim>\<open>rp.ServeHTTP(sw, r)\<close>.  A 101 response cannot be served, because the writer offers no
  \<^verbatim>\<open>Hijack\<close>: it goes to the error handler.  A broken copy panics with
  \<^verbatim>\<open>http.ErrAbortHandler\<close>, the flag of the result.
\<close>

definition reverse_proxy ::
  "handler \<Rightarrow> heap \<Rightarrow> rev_proxy \<Rightarrow> upstream \<Rightarrow> status_writer \<Rightarrow> (status_writer \<times> metric_call list) \<times> bool" where
  "reverse_proxy ph h rp u s =
     (case u of
        Failed interim e \<Rightarrow> (error_handler ph h rp e (forward_interim interim s), False)
      | Responded interim code hs writes broken \<Rightarrow>
          let s = forward_interim interim s; hs = modify_response h rp hs
          in if code = 101 then (error_handler ph h rp OtherError s, False)
             else ((fold write_body writes (write_header code (update_header (\<lambda>old. old @ hs) s)), []), broken))"

section \<open>Serving a request\<close>

text \<open>The shared state; backends and accountants are allocated at \<open>wo_next\<close> and
  \<open>wo_next_acc\<close>.\<close>

record world =
  wo_heap :: heap
  wo_next :: bref
  wo_pool :: pool
  wo_handler :: handler
  wo_accounts :: accounts
  wo_next_acc :: acc_ref

datatype admission =
    ServePanic
  | Refused status_writer "metric_call list"
  | Admitted bref status_writer "metric_call list"

definition inflight_gauge :: "handler \<Rightarrow> heap \<Rightarrow> bref \<Rightarrow> metric_call list" where
  "inflight_gauge ph h r =
     if_metrics (ph_metrics ph) [MSet BackendInflight [bk_name (h r), bk_cloud (h r)] (bk_inflight (h r))]"

definition affinity_cookie :: "handler \<Rightarrow> backend \<Rightarrow> status_writer \<Rightarrow> status_writer" where
  "affinity_cookie ph b s =
     (if ph_cookie_name ph \<noteq> '''' \<and> bk_cloud b \<noteq> ''''
      then set_cookie (ph_cookie_name ph) (bk_cloud b) (whole_seconds (ph_cookie_ttl ph)) s else s)"

text \<open>
  The start of a request, in the two steps between which other goroutines can run: the pool
  chooses a backend, then the backend is counted in flight and the affinity cookie is set.
\<close>

datatype choice =
    ChoicePanic
  | TurnedAway status_writer "metric_call list"
  | Chosen bref

definition serve_choose :: "int \<Rightarrow> nat \<Rightarrow> request \<Rightarrow> world \<Rightarrow> choice \<times> world" where
  "serve_choose now draw req w =
     (let (x, p, accs) = pool_pick \<lparr>vw_heap = wo_heap w, vw_now = now, vw_draw = draw\<rparr> (Some req)
                           (wo_pool w) (wo_accounts w)
      in (case x of
            Panic \<Rightarrow> ChoicePanic
          | NoPick \<Rightarrow>
              (if ph_metrics (wo_handler w)
               then TurnedAway (http_error 20 502 new_status_writer)
                      [MInc ProxyErrors [''none'', ''none'', ''no_backend'']]
               else ChoicePanic)
          | Pick r \<Rightarrow> Chosen r,
          w\<lparr>wo_pool := p, wo_accounts := accs\<rparr>))"

definition serve_admit :: "bref \<Rightarrow> world \<Rightarrow> status_writer \<times> metric_call list \<times> world" where
  "serve_admit r w =
     (let h = modify inc_inflight r (wo_heap w); ph = wo_handler w
      in (affinity_cookie ph (h r) new_status_writer, inflight_gauge ph h r, w\<lparr>wo_heap := h\<rparr>))"

text \<open>Both steps, undisturbed.\<close>

definition serve_pick :: "int \<Rightarrow> nat \<Rightarrow> request \<Rightarrow> world \<Rightarrow> admission \<times> world" where
  "serve_pick now draw req w =
     (case serve_choose now draw req w of
        (ChoicePanic, w) \<Rightarrow> (ServePanic, w)
      | (TurnedAway s calls, w) \<Rightarrow> (Refused s calls, w)
      | (Chosen r, w) \<Rightarrow> (let (s, calls, w) = serve_admit r w in (Admitted r s calls, w)))"

definition serve_connect :: "bref \<Rightarrow> world \<Rightarrow> rev_proxy \<times> world" where
  "serve_connect r w =
     (let (rp, ph) = proxy_for (wo_heap w) r (wo_handler w) in (rp, w\<lparr>wo_handler := ph\<rparr>))"

text \<open>
  The end of a request, again in two steps: the exchange with its bookkeeping, where \<open>dur\<close>
  is the measured duration and \<open>now\<close> the accountant's clock, and the deferred release.
\<close>

definition serve_respond :: "int \<Rightarrow> int \<Rightarrow> upstream \<Rightarrow> bref \<Rightarrow> rev_proxy \<Rightarrow> status_writer \<Rightarrow> world \<Rightarrow>
    status_writer \<times> world \<times> metric_call list" where
  "serve_respond now dur u r rp s w =
     (let ph = wo_handler w;
          ((s, calls), broken) = reverse_proxy ph (wo_heap w) rp u s;
          b = wo_heap w r
      in if broken then (s, w, calls)
         else let h = modify (record_latency dur []) r (wo_heap w);
                  accs = (case ph_accountant ph of
                            None \<Rightarrow> wo_accounts w
                          | Some a \<Rightarrow> if 0 < sw_bytes s
                              then (wo_accounts w)(a := the (add_egress now (bk_cloud b) (sw_bytes s)
                                      (Some (wo_accounts w a))))
                              else wo_accounts w)
              in (s, w\<lparr>wo_heap := h, wo_accounts := accs\<rparr>,
                  calls @ if_metrics (ph_metrics ph)
                    ([MInc Requests [bk_name b, bk_cloud b, itoa (sw_code s)],
                      MObserve RequestDuration [bk_name b, bk_cloud b] dur]
                     @ (if 0 < sw_bytes s then [MAdd EgressBytes [bk_cloud b] (sw_bytes s)] else [])
                     @ (if 0 < latency (h r)
                        then [MSet BackendLatencyEMA [bk_name b, bk_cloud b] (latency (h r))] else []))))"

definition serve_release :: "bref \<Rightarrow> world \<Rightarrow> world \<times> metric_call list" where
  "serve_release r w =
     (let h = modify dec_inflight r (wo_heap w)
      in (w\<lparr>wo_heap := h\<rparr>, inflight_gauge (wo_handler w) h r))"

definition serve_finish :: "int \<Rightarrow> int \<Rightarrow> upstream \<Rightarrow> bref \<Rightarrow> rev_proxy \<Rightarrow> status_writer \<Rightarrow> world \<Rightarrow>
    status_writer \<times> world \<times> metric_call list" where
  "serve_finish now dur u r rp s w =
     (let (s, w, calls) = serve_respond now dur u r rp s w;
          (w, calls') = serve_release r w
      in (s, w, calls @ calls'))"

lemmas serve_finish_defs = serve_finish_def serve_respond_def serve_release_def split_beta Let_def

section \<open>The cache of reverse proxies\<close>

text \<open>A table filled on demand: the first fetch under a key stores what later fetches find.\<close>

locale memo_table =
  fixes look :: "'s \<Rightarrow> string \<Rightarrow> 'v option"
    and fetch :: "'k \<Rightarrow> 's \<Rightarrow> 'v \<times> 's"
    and evict :: "string \<Rightarrow> 's \<Rightarrow> 's"
    and key :: "'k \<Rightarrow> string"
    and build :: "'s \<Rightarrow> 'k \<Rightarrow> 'v"
  assumes fetch_hit: "look s (key k) = Some v \<Longrightarrow> fetch k s = (v, s)"
    and fetch_miss: "look s (key k) = None \<Longrightarrow>
          fst (fetch k s) = build s k \<and> look (snd (fetch k s)) = (look s)(key k \<mapsto> build s k)"
    and evict_look: "look (evict n s) = (look s)(n := None)"
begin

lemma fetch_stored: "look (snd (fetch k s)) (key k) = Some (fst (fetch k s))"
  by (cases "look s (key k)") (simp_all add: fetch_hit fetch_miss)

text \<open>Two keys of one name share the entry of the first.\<close>

lemma fetch_shared: "key k' = key k \<Longrightarrow> fst (fetch k' (snd (fetch k s))) = fst (fetch k s)"
  using fetch_hit [of "snd (fetch k s)" k' "fst (fetch k s)"] fetch_stored [of k s] by simp

lemma fetch_after_evict: "fst (fetch k (evict (key k) s)) = build (evict (key k) s) k"
  by (rule conjunct1, rule fetch_miss) (simp add: evict_look)

lemma fetch_other: "n \<noteq> key k \<Longrightarrow> look (snd (fetch k s)) n = look s n"
  by (cases "look s (key k)") (simp_all add: fetch_hit fetch_miss)

end

interpretation cache: memo_table ph_proxies "\<lambda>r ph. proxy_for h r ph" forget "\<lambda>r. bk_name (h r)"
  "\<lambda>ph r. build_proxy ph h r" for h
  by unfold_locales (auto simp: proxy_for_def forget_def Let_def)

text \<open>The operations other parts of the program perform on the handler.\<close>

datatype handler_op =
    Connect bref
  | Forget string
  | SetTls "tls_lookup option"
  | SetAccountant "acc_ref option"
  | SetCookie string int

fun handler_step :: "heap \<Rightarrow> handler_op \<Rightarrow> handler \<Rightarrow> handler" where
  "handler_step h (Connect r) ph = snd (proxy_for h r ph)"
| "handler_step h (Forget n) ph = forget n ph"
| "handler_step h (SetTls f) ph = set_tls_by_backend f ph"
| "handler_step h (SetAccountant a) ph = set_accountant a ph"
| "handler_step h (SetCookie n ttl) ph = set_sticky_cookie n ttl ph"

text \<open>Every cached proxy belongs to a backend of its key's name and carries the TLS
  configuration that is current for that name.\<close>

definition proxies_ok :: "heap \<Rightarrow> handler \<Rightarrow> bool" where
  "proxies_ok h ph \<longleftrightarrow> (\<forall>n rp. ph_proxies ph n = Some rp \<longrightarrow>
     bk_name (h (rp_target rp)) = n
     \<and> rp_tls rp = (case ph_tls_by_backend ph of None \<Rightarrow> None | Some f \<Rightarrow> f n))"

lemma proxies_ok_new: "proxies_ok h (new_handler m cfg)"
  by (simp add: proxies_ok_def new_handler_def)

lemma proxies_ok_connect: "proxies_ok h ph \<Longrightarrow> proxies_ok h (snd (proxy_for h r ph))"
  by (auto simp: proxies_ok_def proxy_for_def build_proxy_def Let_def split: option.splits)

lemma proxies_ok_step: "proxies_ok h ph \<Longrightarrow> proxies_ok h (handler_step h x ph)"
  by (cases x) (simp_all add: proxies_ok_connect, auto simp: proxies_ok_def forget_def
      set_tls_by_backend_def set_accountant_def set_sticky_cookie_def)

text \<open>
  After any sequence of handler operations, the reverse proxy a request is given points
  to a backend with the name of the one that was picked, and its transport has the TLS
  configuration now installed for that name: a rotated certificate is never served from
  the cache.
\<close>

theorem proxy_tls_current:
  assumes "ph = fold (handler_step h) ops (new_handler m cfg)"
  shows "bk_name (h (rp_target (fst (proxy_for h r ph)))) = bk_name (h r)
       \<and> tp_tls (transport_of ph (fst (proxy_for h r ph)))
           = (case ph_tls_by_backend ph of None \<Rightarrow> None | Some f \<Rightarrow> f (bk_name (h r)))"
proof -
  have "proxies_ok h (fold (handler_step h) ops ph0)" if "proxies_ok h ph0" for ph0
    using that by (induction ops arbitrary: ph0) (simp_all add: proxies_ok_step)
  from this [OF proxies_ok_new] have ok: "proxies_ok h ph" by (simp only: assms)
  show ?thesis
    using proxies_ok_connect [OF ok, of r] cache.fetch_stored [of h r ph] ok
    by (auto simp: proxies_ok_def proxy_for_def build_proxy_def transport_of_def Let_def split: option.splits)
qed

section \<open>The writer\<close>

text \<open>The status a client takes from what is sent: the first head that is not interim, or
  200 when the body comes without one.\<close>

fun client_status :: "sent list \<Rightarrow> int" where
  "client_status [] = 200"
| "client_status (Head c hs # rest) = (if 100 \<le> c \<and> c < 200 \<and> c \<noteq> 101 then client_status rest else c)"
| "client_status (Data n # rest) = 200"

fun data_sent :: "sent list \<Rightarrow> int" where
  "data_sent [] = 0"
| "data_sent (Head c hs # rest) = data_sent rest"
| "data_sent (Data n # rest) = n + data_sent rest"

lemma data_sent_append [simp]: "data_sent (xs @ ys) = data_sent xs + data_sent ys"
  by (induction xs rule: data_sent.induct) simp_all

definition fresh :: "status_writer \<Rightarrow> bool" where
  "fresh s \<longleftrightarrow> sw_code s = 200 \<and> \<not> sw_wrote_header s \<and> sw_bytes s = 0 \<and> sw_sent s = []"

definition counted :: "status_writer \<Rightarrow> bool" where
  "counted s \<longleftrightarrow> sw_bytes s = wrap64 (data_sent (sw_sent s))"

lemmas writer_defs = write_header_def write_body_def update_header_def Let_def

lemma counted_ops [simp]:
  "counted s \<Longrightarrow> counted (write_header c s)" "counted s \<Longrightarrow> counted (write_body n s)"
  "counted (update_header f s) = counted s"
  by (simp_all add: counted_def writer_defs)

lemma counted_fold_write: "counted s \<Longrightarrow> counted (fold write_body ns s)"
  by (induction ns arbitrary: s) simp_all

lemma counted_interim: "counted s \<Longrightarrow> counted (forward_interim cs s)"
  by (induction cs s rule: forward_interim.induct) simp_all

lemma counted_http_error: "counted s \<Longrightarrow> counted (http_error len c s)"
  by (simp add: http_error_def)

lemma reverse_proxy_counted: "counted s \<Longrightarrow> counted (fst (fst (reverse_proxy ph h rp u s)))"
  by (cases u) (simp_all add: reverse_proxy_def error_handler_def Let_def counted_interim
      counted_fold_write counted_http_error)

lemma fold_write_frame:
  "sw_code (fold write_body ns s) = sw_code s
   \<and> sw_sent (fold write_body ns s) = sw_sent s @ List.map Data ns
   \<and> sw_wrote_header (fold write_body ns s) = (sw_wrote_header s \<or> ns \<noteq> [])"
  by (induction ns arbitrary: s) (simp_all add: writer_defs)

lemma interim_frame:
  "sw_wrote_header s \<Longrightarrow> sw_code (forward_interim cs s) = sw_code s \<and> sw_wrote_header (forward_interim cs s)"
  by (induction cs s rule: forward_interim.induct) (simp_all add: writer_defs)

fun interim_of :: "upstream \<Rightarrow> (int \<times> headers) list" where
  "interim_of (Failed cs e) = cs"
| "interim_of (Responded cs code hs ns broken) = cs"

fun final_ok :: "upstream \<Rightarrow> bool" where
  "final_ok (Failed cs e) \<longleftrightarrow> True"
| "final_ok (Responded cs code hs ns broken) \<longleftrightarrow> code = 101 \<or> 200 \<le> code"

lemma reverse_proxy_status:
  assumes "fresh s" and "interim_of u = []" and "final_ok u"
  shows "sw_code (fst (fst (reverse_proxy ph h rp u s)))
       = client_status (sw_sent (fst (fst (reverse_proxy ph h rp u s))))"
  using assms by (cases u)
    (auto simp: reverse_proxy_def error_handler_def http_error_def fresh_def fold_write_frame writer_defs)

lemma reverse_proxy_interim_status:
  assumes "fresh s" and "interim_of u = (c, hs) # rest"
  shows "sw_code (fst (fst (reverse_proxy ph h rp u s))) = c"
proof -
  let ?s1 = "update_header (\<lambda>_. []) (write_header c (update_header (\<lambda>old. old @ hs) s))"
  have "sw_code ?s1 = c" and "sw_wrote_header ?s1" using assms(1) by (simp_all add: fresh_def writer_defs)
  then have i: "sw_code (forward_interim rest ?s1) = c \<and> sw_wrote_header (forward_interim rest ?s1)"
    by (simp add: interim_frame)
  show ?thesis
  proof (cases u)
    case (Failed cs e)
    with assms(2) i show ?thesis
      by (simp add: reverse_proxy_def error_handler_def http_error_def) (simp add: writer_defs)
  next
    case (Responded cs code hs' ns broken)
    with assms(2) i show ?thesis
      by (simp add: reverse_proxy_def error_handler_def http_error_def fold_write_frame Let_def)
        (simp add: writer_defs)
  qed
qed

text \<open>
  C33: Of an exchange without interim responses the proxy records the status the client
  sees; of one with interim responses it records the first interim status instead.  In
  both cases the recorded byte count is that of the body bytes written to the client
  (modulo \<open>2 ^ 64\<close>).
\<close>

theorem recorded_status:
  assumes "fresh s" and "final_ok u"
  shows "let s' = fst (fst (reverse_proxy ph h rp u s))
         in sw_code s' = (case interim_of u of [] \<Rightarrow> client_status (sw_sent s') | (c, hs) # _ \<Rightarrow> c)
          \<and> sw_bytes s' = wrap64 (data_sent (sw_sent s'))"
proof -
  have "counted s" using assms(1) by (simp add: fresh_def counted_def)
  from reverse_proxy_counted [OF this] have c: "counted (fst (fst (reverse_proxy ph h rp u s)))" .
  show ?thesis
  proof (cases "interim_of u")
    case Nil
    with c reverse_proxy_status [OF assms(1) Nil assms(2), of ph h rp] show ?thesis
      by (simp add: counted_def Let_def)
  next
    case (Cons x rest)
    obtain c hs where x: "x = (c, hs)" by fastforce
    from c reverse_proxy_interim_status [OF assms(1) Cons [unfolded x], of ph h rp] Cons x show ?thesis
      by (simp add: counted_def Let_def)
  qed
qed

section \<open>The affinity cookie reaches the client\<close>

fun final_headers :: "sent list \<Rightarrow> headers" where
  "final_headers [] = []"
| "final_headers (Head c hs # rest) = (if 100 \<le> c \<and> c < 200 \<and> c \<noteq> 101 then final_headers rest else hs)"
| "final_headers (Data n # rest) = []"

fun all_interim :: "sent list \<Rightarrow> bool" where
  "all_interim [] = True"
| "all_interim (Head c hs # rest) \<longleftrightarrow> 100 \<le> c \<and> c < 200 \<and> c \<noteq> 101 \<and> all_interim rest"
| "all_interim (Data n # rest) = False"

lemma final_headers_append: "all_interim xs \<Longrightarrow> final_headers (xs @ ys) = final_headers ys"
  by (induction xs rule: all_interim.induct) simp_all

lemma all_interim_append [simp]: "all_interim (xs @ ys) \<longleftrightarrow> all_interim xs \<and> all_interim ys"
  by (induction xs rule: all_interim.induct) simp_all

definition interim_codes :: "(int \<times> headers) list \<Rightarrow> bool" where
  "interim_codes cs \<longleftrightarrow> (\<forall>(c, hs) \<in> set cs. 100 \<le> c \<and> c < 200 \<and> c \<noteq> 101)"

lemma forward_interim_sent:
  "all_interim (sw_sent s) \<Longrightarrow> interim_codes cs \<Longrightarrow> all_interim (sw_sent (forward_interim cs s))
     \<and> sw_header (forward_interim cs s) = (if cs = [] then sw_header s else [])"
  by (induction cs s rule: forward_interim.induct) (simp_all add: interim_codes_def writer_defs)

definition the_cookie :: "handler \<Rightarrow> backend \<Rightarrow> string \<times> string" where
  "the_cookie ph b =
     (''Set-Cookie'', cookie_line (ph_cookie_name ph) (bk_cloud b) (whole_seconds (ph_cookie_ttl ph)))"

lemma affinity_header:
  assumes "is_token (ph_cookie_name ph)" and "bk_cloud b \<noteq> ''''"
  shows "sw_header (affinity_cookie ph b new_status_writer) = [the_cookie ph b]
       \<and> sw_sent (affinity_cookie ph b new_status_writer) = []"
  using assms
  by (auto simp: affinity_cookie_def set_cookie_def the_cookie_def cookie_line_def is_token_def
      update_header_def new_status_writer_def)

text \<open>
  With session affinity on, the final response to a request served by a backend of some
  cloud carries the affinity cookie of that cloud, unless the backend sent an interim
  response first: forwarding one clears the header map and the cookie is missing.
\<close>

theorem cookie_delivery:
  assumes "is_token (ph_cookie_name ph)" and "bk_cloud b \<noteq> ''''"
    and "interim_codes cs" and "200 \<le> code" and "\<forall>(k, v) \<in> set hs. k \<noteq> ''Set-Cookie''"
  shows "the_cookie ph b \<in> set (final_headers (sw_sent (fst (fst
           (reverse_proxy ph h rp (Responded cs code hs ns broken)
             (affinity_cookie ph b new_status_writer))))))
       \<longleftrightarrow> cs = []"
proof -
  let ?s = "forward_interim cs (affinity_cookie ph b new_status_writer)"
  let ?hs = "modify_response h rp hs"
  have a: "all_interim (sw_sent ?s)" "sw_header ?s = (if cs = [] then [the_cookie ph b] else [])"
    using forward_interim_sent [of "affinity_cookie ph b new_status_writer" cs] assms(3)
      affinity_header [OF assms(1,2)] by simp_all
  have sent: "sw_sent (fst (fst (reverse_proxy ph h rp (Responded cs code hs ns broken)
      (affinity_cookie ph b new_status_writer)))) = sw_sent ?s @ Head code (sw_header ?s @ ?hs) # List.map Data ns"
    using assms(4) by (simp add: reverse_proxy_def fold_write_frame Let_def) (simp add: writer_defs)
  have "the_cookie ph b \<notin> set ?hs"
    using assms(5) by (auto simp: modify_response_def header_set_def the_cookie_def)
  then show ?thesis
    unfolding sent using a assms(4) by (simp add: final_headers_append)
qed

lemma cookie_value_roundtrip:
  assumes "list_all cookie_byte v"
  shows "parse_cookie_value (sanitize_cookie_value v) = Some v"
proof -
  have f: "filter cookie_byte v = v" using assms by (simp add: list_all_iff filter_id_conv)
  have q: "\<not> cookie_byte (CHR 0x22)" by (simp add: cookie_byte_def)
  have "hd v \<noteq> CHR 0x22" if "v \<noteq> []" using assms q that by (cases v) auto
  then show ?thesis
    using assms by (auto simp: sanitize_cookie_value_def f parse_cookie_value_def)
qed


section \<open>What a request changes\<close>

lemma serve_pick_cases:
  "serve_pick now draw req w =
     (let x = pool_pick \<lparr>vw_heap = wo_heap w, vw_now = now, vw_draw = draw\<rparr> (Some req) (wo_pool w) (wo_accounts w);
          w' = w\<lparr>wo_pool := fst (snd x), wo_accounts := snd (snd x)\<rparr>
      in case fst x of
           Panic \<Rightarrow> (ServePanic, w')
         | NoPick \<Rightarrow> (if ph_metrics (wo_handler w)
             then Refused (http_error 20 502 new_status_writer) [MInc ProxyErrors [''none'', ''none'', ''no_backend'']]
             else ServePanic, w')
         | Pick r \<Rightarrow> (Admitted r (affinity_cookie (wo_handler w) (modify inc_inflight r (wo_heap w) r) new_status_writer)
                       (inflight_gauge (wo_handler w) (modify inc_inflight r (wo_heap w)) r),
                     w'\<lparr>wo_heap := modify inc_inflight r (wo_heap w)\<rparr>))"
  by (simp add: serve_pick_def serve_choose_def serve_admit_def split_beta Let_def split: pick.splits)

lemma serve_pick_heap:
  "wo_heap (snd (serve_pick now draw req w)) =
     (case fst (serve_pick now draw req w) of
        Admitted r s calls \<Rightarrow> modify inc_inflight r (wo_heap w) | _ \<Rightarrow> wo_heap w)"
  by (simp add: serve_pick_cases Let_def split: pick.splits)

lemma serve_pick_frame:
  "wo_handler (snd (serve_pick now draw req w)) = wo_handler w
   \<and> pl_all (wo_pool (snd (serve_pick now draw req w))) = pl_all (wo_pool w)"
  by (simp add: serve_pick_cases Let_def pool_pick_all split: pick.splits)

lemma serve_finish_heap:
  "wo_heap (fst (snd (serve_finish now dur u r rp s w))) =
     modify dec_inflight r (if snd (reverse_proxy (wo_handler w) (wo_heap w) rp u s) then wo_heap w
                            else modify (record_latency dur []) r (wo_heap w))"
  by (simp add: serve_finish_defs)

lemma serve_finish_frame:
  "wo_handler (fst (snd (serve_finish now dur u r rp s w))) = wo_handler w
   \<and> wo_pool (fst (snd (serve_finish now dur u r rp s w))) = wo_pool w"
  by (simp add: serve_finish_defs)

lemma serve_finish_accounts:
  "wo_accounts (fst (snd (serve_finish now dur u r rp s w))) =
     (let x = reverse_proxy (wo_handler w) (wo_heap w) rp u s; n = sw_bytes (fst (fst x))
      in if snd x then wo_accounts w
         else case ph_accountant (wo_handler w) of None \<Rightarrow> wo_accounts w
              | Some a \<Rightarrow> if 0 < n
                  then (wo_accounts w)(a := the (add_egress now (bk_cloud (wo_heap w r)) n (Some (wo_accounts w a))))
                  else wo_accounts w)"
  by (simp add: serve_finish_defs)

lemma serve_finish_writer:
  "fst (serve_finish now dur u r rp s w) = fst (fst (reverse_proxy (wo_handler w) (wo_heap w) rp u s))"
  by (simp add: serve_finish_defs)

text \<open>
  When no backend of the pool is healthy a request is answered with status 502 and
  counted as \<^verbatim>\<open>no_backend\<close>; no backend is touched.  This answer needs the collectors:
  a handler without them panics here instead.
\<close>

theorem outage_answer:
  assumes "\<forall>r \<in> set (pl_all (wo_pool w)). \<not> bk_healthy (wo_heap w r)"
  shows "wo_heap (snd (serve_pick now draw req w)) = wo_heap w
       \<and> (if ph_metrics (wo_handler w)
          then \<exists>s. fst (serve_pick now draw req w) =
                 Refused s [MInc ProxyErrors [''none'', ''none'', ''no_backend'']]
                 \<and> client_status (sw_sent s) = 502 \<and> sw_code s = 502
          else fst (serve_pick now draw req w) = ServePanic)"
proof -
  have "fst (pool_pick \<lparr>vw_heap = wo_heap w, vw_now = now, vw_draw = draw\<rparr> (Some req) (wo_pool w) (wo_accounts w))
      = NoPick"
    by (rule pool_pick_none) (use assms in simp)
  then show ?thesis
    by (simp add: serve_pick_cases Let_def http_error_def new_status_writer_def writer_defs)
qed

text \<open>
  With collectors and a strategy that cannot panic, admission never panics; a request
  is admitted only to a backend that the pool holds and that is healthy at that moment,
  and admission counts exactly that backend as one more in flight.
\<close>

theorem admission:
  assumes "ph_metrics (wo_handler w)" and "callable (pl_strategy (wo_pool w))"
  shows "fst (serve_pick now draw req w) \<noteq> ServePanic
       \<and> (\<forall>r s calls. fst (serve_pick now draw req w) = Admitted r s calls \<longrightarrow>
            r \<in> set (pl_all (wo_pool w)) \<and> bk_healthy (wo_heap w r)
          \<and> wo_heap (snd (serve_pick now draw req w)) = (wo_heap w)(r := inc_inflight (wo_heap w r)))"
proof -
  let ?v = "\<lparr>vw_heap = wo_heap w, vw_now = now, vw_draw = draw\<rparr>"
  have "fst (pool_pick ?v (Some req) (wo_pool w) (wo_accounts w)) \<noteq> Panic"
    using assms(2) by (rule pool_pick_no_panic)
  then show ?thesis
    using pool_pick_member [of ?v "Some req" "wo_pool w" "wo_accounts w"] assms(1)
    by (auto simp: serve_pick_cases Let_def modify_def split: pick.splits)
qed

definition account_egress :: "int \<Rightarrow> string \<Rightarrow> int \<Rightarrow> acc_ref option \<Rightarrow> accounts \<Rightarrow> accounts" where
  "account_egress now cloud n a accs =
     (case a of None \<Rightarrow> accs
      | Some p \<Rightarrow> if 0 < n \<and> cloud \<noteq> '''' then accs(p := (accs p)\<lparr>ac_tally := (ac_tally (accs p))(cloud \<mapsto>
            window_add now n (case ac_tally (accs p) cloud of None \<Rightarrow> new_ring_window | Some w \<Rightarrow> w))\<rparr>)
         else accs)"

text \<open>
  C26: A finished exchange charges the cloud of the backend that was picked with exactly the
  body bytes written to the client, the error text of a failed exchange included; an
  exchange whose copy broke off charges nothing, however much was written.
\<close>

theorem egress_charged:
  assumes "fresh s"
  shows "wo_accounts (fst (snd (serve_finish now dur u r rp s w))) =
           (if snd (reverse_proxy (wo_handler w) (wo_heap w) rp u s) then wo_accounts w
            else account_egress now (bk_cloud (wo_heap w r))
                   (wrap64 (data_sent (sw_sent (fst (serve_finish now dur u r rp s w)))))
                   (ph_accountant (wo_handler w)) (wo_accounts w))"
proof -
  have "counted s" using assms by (simp add: fresh_def counted_def)
  from reverse_proxy_counted [OF this]
  have "sw_bytes (fst (fst (reverse_proxy (wo_handler w) (wo_heap w) rp u s)))
      = wrap64 (data_sent (sw_sent (fst (serve_finish now dur u r rp s w))))"
    by (simp add: serve_finish_writer counted_def)
  then show ?thesis
    by (simp add: serve_finish_accounts account_egress_def add_egress_def Let_def not_le fun_upd_idem split: option.splits)
qed

text \<open>
  Every metric call of a request, whatever the upstream does, names the right kind of
  collector with one value per label (and adds no negative amount), so none panics.
\<close>

theorem proxy_metrics_safe:
  "(\<forall>r s calls. fst (serve_pick now draw req w) = Admitted r s calls \<or>
        fst (serve_pick now draw req w) = Refused s calls \<longrightarrow> list_all call_ok calls)
   \<and> calls_ok (ph_metrics (wo_handler w)) (snd (snd (serve_finish now dur u r rp s w)))"
proof -
  have g: "list_all call_ok (inflight_gauge ph h r)" "calls_ok (ph_metrics ph) (inflight_gauge ph h r)" for ph h r
    by (simp_all add: inflight_gauge_def)
  have rp: "calls_ok (ph_metrics ph) (snd (fst (reverse_proxy ph h rp u s)))" for ph h s
    by (cases u) (simp_all add: reverse_proxy_def error_handler_def Let_def calls_ok_def)
  show ?thesis
    by (intro conjI allI impI)
      (auto simp: serve_pick_cases serve_finish_defs g rp split: pick.splits if_splits)
qed

end
