(* ===== verification/Admin.thy ===== *)
theory Admin
  imports Proxy
begin

text \<open>
  \<^verbatim>\<open>internal/admin/admin.go\<close>: the authenticated admin API on the shared world.  A request
  carries its path as the list of segments \<^verbatim>\<open>ServeMux\<close> matches; decoding of JSON bodies
  and \<^verbatim>\<open>url.Parse\<close> are parameters; a reply is its status and the data it encodes.
  \<^verbatim>\<open>Reload\<close> is the function the engine passes in.
\<close>

section \<open>Requests and replies\<close>

record admin_request = request +
  aq_path :: "string list"
  aq_body :: string

record backend_dto =
  dto_name :: string
  dto_url :: string
  dto_cloud :: string
  dto_region :: string
  dto_weight :: int
  dto_kind :: string
  dto_healthy :: bool
  dto_inflight :: int

definition to_dto :: "backend \<Rightarrow> backend_dto" where
  "to_dto b = \<lparr>dto_name = bk_name b, dto_url = url_string (bk_url b), dto_cloud = bk_cloud b,
     dto_region = bk_region b, dto_weight = bk_weight b, dto_kind = bk_kind b,
     dto_healthy = bk_healthy b, dto_inflight = bk_inflight b\<rparr>"

datatype 'e admin_error =
    DecodeBody
  | HealthyRequired
  | UnknownBackend string
  | NameUrlRequired
  | UrlInvalid
  | BackendExists string
  | ReloadNotConfigured
  | ReloadFailed 'e

datatype 'e reply_body =
    NoBody
  | PlainText string
  | ErrorBody "'e admin_error"
  | OneBackend backend_dto
  | AllBackends "backend_dto list"
  | Reloaded

record 'e reply =
  re_status :: int
  re_challenge :: bool
  re_body :: "'e reply_body"

definition reply_json :: "int \<Rightarrow> 'e reply_body \<Rightarrow> 'e reply" where
  "reply_json code b = \<lparr>re_status = code, re_challenge = False, re_body = b\<rparr>"

definition reply_error :: "int \<Rightarrow> 'e admin_error \<Rightarrow> 'e reply" where
  "reply_error code e = reply_json code (ErrorBody e)"

text \<open>The parts of the server and its decoders.\<close>

record 'e server =
  sv_proxy :: bool
  sv_token :: string
  sv_reload :: "(world \<Rightarrow> 'e option \<times> world) option"
  sv_decode_health :: "string \<Rightarrow> bool option option"
  sv_decode_backend :: "string \<Rightarrow> backend_dto option"
  sv_parse_url :: "string \<Rightarrow> url option"

record 'e server_options =
  ao_token :: string
  ao_reload :: "(world \<Rightarrow> 'e option \<times> world) option"

definition new_server :: "bool \<Rightarrow> 'e server_options \<Rightarrow> (string \<Rightarrow> bool option option) \<Rightarrow>
    (string \<Rightarrow> backend_dto option) \<Rightarrow> (string \<Rightarrow> url option) \<Rightarrow> 'e server" where
  "new_server proxy opts decode_health decode_backend parse_url =
     \<lparr>sv_proxy = proxy, sv_token = ao_token opts, sv_reload = ao_reload opts,
      sv_decode_health = decode_health, sv_decode_backend = decode_backend, sv_parse_url = parse_url\<rparr>"

lemma new_server_fields [simp]:
  "sv_proxy (new_server proxy opts dh db pu) = proxy" "sv_token (new_server proxy opts dh db pu) = ao_token opts"
  "sv_reload (new_server proxy opts dh db pu) = ao_reload opts" "sv_decode_health (new_server proxy opts dh db pu) = dh"
  "sv_decode_backend (new_server proxy opts dh db pu) = db" "sv_parse_url (new_server proxy opts dh db pu) = pu"
  by (simp_all add: new_server_def)

section \<open>Endpoints\<close>

definition set_backend_health :: "'e server \<Rightarrow> string \<Rightarrow> string \<Rightarrow> world \<Rightarrow> 'e reply \<times> world" where
  "set_backend_health sv name body w =
     (case sv_decode_health sv body of
        None \<Rightarrow> (reply_error 400 DecodeBody, w)
      | Some None \<Rightarrow> (reply_error 400 HealthyRequired, w)
      | Some (Some v) \<Rightarrow>
          (case pool_find (wo_heap w) (wo_pool w) name of
             None \<Rightarrow> (reply_error 404 (UnknownBackend name), w)
           | Some r \<Rightarrow>
               let h = modify (set_healthy v) r (wo_heap w)
               in (reply_json 200 (OneBackend (to_dto (h r))), w\<lparr>wo_heap := h\<rparr>)))"

definition list_backends :: "world \<Rightarrow> 'e reply \<times> world" where
  "list_backends w =
     (reply_json 200 (AllBackends (List.map (\<lambda>r. to_dto (wo_heap w r)) (pool_backends (wo_pool w)))), w)"

definition url_ok :: "url \<Rightarrow> bool" where
  "url_ok u \<longleftrightarrow> (url_scheme u = ''http'' \<or> url_scheme u = ''https'') \<and> url_host u \<noteq> ''''"

definition add_backend :: "'e server \<Rightarrow> string \<Rightarrow> world \<Rightarrow> 'e reply \<times> world" where
  "add_backend sv body w =
     (case sv_decode_backend sv body of
        None \<Rightarrow> (reply_error 400 DecodeBody, w)
      | Some d \<Rightarrow>
          if dto_name d = '''' \<or> dto_url d = '''' then (reply_error 400 NameUrlRequired, w)
          else (case sv_parse_url sv (dto_url d) of
              None \<Rightarrow> (reply_error 400 UrlInvalid, w)
            | Some u \<Rightarrow>
                if \<not> url_ok u then (reply_error 400 UrlInvalid, w)
                else
                  let weight = (if dto_weight d \<le> 0 then 1 else dto_weight d);
                      r = wo_next w;
                      h = (wo_heap w)(r := with_kind (dto_kind d)
                            (new_backend (dto_name d) u (dto_cloud d) (dto_region d) weight));
                      w = w\<lparr>wo_heap := h, wo_next := Suc r\<rparr>;
                      (added, p) = pool_add h r (wo_pool w)
                  in if \<not> added then (reply_error 409 (BackendExists (dto_name d)), w)
                     else (reply_json 201 (OneBackend (to_dto (h r))), w\<lparr>wo_pool := p\<rparr>)))"

definition remove_backend :: "'e server \<Rightarrow> string \<Rightarrow> world \<Rightarrow> 'e reply \<times> world" where
  "remove_backend sv name w =
     (let (removed, p) = pool_remove (wo_heap w) name (wo_pool w) in
      if \<not> removed then (reply_error 404 (UnknownBackend name), w)
      else let w = w\<lparr>wo_pool := p\<rparr>;
               w = (if sv_proxy sv then w\<lparr>wo_handler := forget name (wo_handler w)\<rparr> else w)
           in (reply_json 204 NoBody, w))"

definition reload_config :: "'e server \<Rightarrow> world \<Rightarrow> 'e reply \<times> world" where
  "reload_config sv w =
     (case sv_reload sv of
        None \<Rightarrow> (reply_error 503 ReloadNotConfigured, w)
      | Some f \<Rightarrow>
          (case f w of
             (Some e, w) \<Rightarrow> (reply_error 500 (ReloadFailed e), w)
           | (None, w) \<Rightarrow> (reply_json 200 Reloaded, w)))"

section \<open>Routing and authentication\<close>

datatype endpoint =
    ListEp
  | AddEp
  | RemoveEp string
  | HealthEp string
  | ReloadEp
  | NotFoundEp
  | MethodNotAllowedEp

text \<open>\<^verbatim>\<open>ServeMux\<close> on the five patterns; a GET pattern also serves HEAD, a wildcard matches
  one non-empty segment.\<close>

definition endpoint_of :: "string \<Rightarrow> string list \<Rightarrow> endpoint" where
  "endpoint_of m path =
     (if path = [''admin'', ''backends''] then
        (if m = ''GET'' \<or> m = ''HEAD'' then ListEp else if m = ''POST'' then AddEp else MethodNotAllowedEp)
      else if path = [''admin'', ''reload''] then (if m = ''POST'' then ReloadEp else MethodNotAllowedEp)
      else (case path of
          [a, b, name] \<Rightarrow>
            if a = ''admin'' \<and> b = ''backends'' \<and> name \<noteq> ''''
            then (if m = ''DELETE'' then RemoveEp name else MethodNotAllowedEp) else NotFoundEp
        | [a, b, name, c] \<Rightarrow>
            if a = ''admin'' \<and> b = ''backends'' \<and> name \<noteq> '''' \<and> c = ''health''
            then (if m = ''PUT'' then HealthEp name else MethodNotAllowedEp) else NotFoundEp
        | _ \<Rightarrow> NotFoundEp))"

definition serve_mux :: "'e server \<Rightarrow> admin_request \<Rightarrow> world \<Rightarrow> 'e reply \<times> world" where
  "serve_mux sv q w =
     (case endpoint_of (rq_method q) (aq_path q) of
        ListEp \<Rightarrow> list_backends w
      | AddEp \<Rightarrow> add_backend sv (aq_body q) w
      | RemoveEp name \<Rightarrow> remove_backend sv name w
      | HealthEp name \<Rightarrow> set_backend_health sv name (aq_body q) w
      | ReloadEp \<Rightarrow> reload_config sv w
      | NotFoundEp \<Rightarrow> (reply_json 404 (PlainText ''404 page not found''), w)
      | MethodNotAllowedEp \<Rightarrow> (reply_json 405 (PlainText ''Method Not Allowed''), w))"

definition unauthorized :: "'e reply" where
  "unauthorized = \<lparr>re_status = 401, re_challenge = True, re_body = PlainText ''unauthorized''\<rparr>"

definition auth :: "'e server \<Rightarrow> admin_request \<Rightarrow> world \<Rightarrow> 'e reply \<times> world" where
  "auth sv q w =
     (if sv_token sv = '''' then
        (reply_json 403 (PlainText ''admin disabled: no bearer token configured''), w)
      else
        let hdr = header_get (request.truncate q) ''Authorization'' in
        if \<not> has_prefix ''Bearer '' hdr then (unauthorized, w)
        else let got = drop (length ''Bearer '') hdr in
          if got = '''' \<or> got \<noteq> sv_token sv then (unauthorized, w)
          else serve_mux sv q w)"
section \<open>Authentication\<close>

lemma bearer_prefix: "has_prefix p s \<longleftrightarrow> s = p @ drop (length p) s"
  unfolding has_prefix_iff by (metis append_eq_conv_conj)

text \<open>
  C28: The admin API does nothing for a caller without the token: unless the server has a
  non-empty token and the request presents exactly it as a bearer token, the world is
  unchanged and the answer is 401, or 403 when no token is configured.  With the token the
  request reaches its endpoint.
\<close>

theorem admin_needs_token:
  "auth sv q w =
     (if sv_token sv = '''' then
        (reply_json 403 (PlainText ''admin disabled: no bearer token configured''), w)
      else if header_get (request.truncate q) ''Authorization'' = ''Bearer '' @ sv_token sv
      then serve_mux sv q w else (unauthorized, w))"
proof -
  let ?p = "''Bearer ''"
  let ?h = "header_get (request.truncate q) ''Authorization''"
  have "?h = ?p @ sv_token sv \<longleftrightarrow> has_prefix ?p ?h \<and> drop (length ?p) ?h = sv_token sv"
    unfolding bearer_prefix [of ?p] by (metis append_eq_conv_conj)
  then show ?thesis
    unfolding auth_def Let_def by (cases "has_prefix ?p ?h") auto
qed

section \<open>The endpoints\<close>

text \<open>Every backend the pool holds has been allocated, and their names are distinct.\<close>

definition world_ok :: "world \<Rightarrow> bool" where
  "world_ok w \<longleftrightarrow> pool_ok (wo_heap w) (wo_pool w) \<and> (\<forall>r \<in> set (pl_all (wo_pool w)). r < wo_next w)"

lemma add_backend_added:
  assumes "sv_decode_backend sv body = Some d" and "dto_name d \<noteq> ''''" and "dto_url d \<noteq> ''''"
    and "sv_parse_url sv (dto_url d) = Some u" and "url_ok u"
  shows "add_backend sv body w =
     (let r = wo_next w;
          h = (wo_heap w)(r := with_kind (dto_kind d) (new_backend (dto_name d) u (dto_cloud d) (dto_region d)
                (if dto_weight d \<le> 0 then 1 else dto_weight d)));
          w = w\<lparr>wo_heap := h, wo_next := Suc r\<rparr>
      in if fst (pool_add h r (wo_pool w))
         then (reply_json 201 (OneBackend (to_dto (h r))), w\<lparr>wo_pool := snd (pool_add h r (wo_pool w))\<rparr>)
         else (reply_error 409 (BackendExists (dto_name d)), w))"
  using assms by (simp add: add_backend_def split_beta Let_def)

lemma new_backend_name [simp]: "bk_name (with_kind k (new_backend n u c g m)) = n"
  by (simp add: new_backend_def with_kind_def)

text \<open>
  C29: A well-formed request to add a backend under a free name is answered with 201 and
  makes exactly that name resolve to a new, healthy, idle backend of positive weight with
  the given fields; under a name in use it is answered with 409 and every name resolves as
  before.
\<close>

theorem admin_add:
  assumes "world_ok w"
    and "sv_decode_backend sv body = Some d" and "dto_name d \<noteq> ''''" and "dto_url d \<noteq> ''''"
    and "sv_parse_url sv (dto_url d) = Some u" and "url_ok u"
  shows "let (re, w') = add_backend sv body w
         in world_ok w' \<and>
           (if pool_find (wo_heap w) (wo_pool w) (dto_name d) = None
            then re_status re = 201
              \<and> pool_find (wo_heap w') (wo_pool w')
                  = (pool_find (wo_heap w) (wo_pool w))(dto_name d \<mapsto> wo_next w)
              \<and> wo_heap w' (wo_next w) = \<lparr>bk_name = dto_name d, bk_url = u, bk_cloud = dto_cloud d,
                   bk_region = dto_region d, bk_weight = max 1 (dto_weight d), bk_kind = dto_kind d,
                   bk_healthy = True, bk_inflight = 0, bk_latency_ns = 0\<rparr>
            else re_status re = 409 \<and> pool_find (wo_heap w') (wo_pool w') = pool_find (wo_heap w) (wo_pool w))"
proof -
  define r where "r = wo_next w"
  define b where "b = with_kind (dto_kind d) (new_backend (dto_name d) u (dto_cloud d) (dto_region d)
                (if dto_weight d \<le> 0 then 1 else dto_weight d))"
  define h where "h = (wo_heap w)(r := b)"
  have n: "bk_name (h r) = dto_name d" by (simp add: h_def b_def)
  have old: "\<forall>q \<in> set (pl_all (wo_pool w)). q < r" and ok: "pool_ok (wo_heap w) (wo_pool w)"
    using assms(1) by (simp_all add: world_ok_def r_def)
  from pool_fresh [OF old, of "wo_heap w" b]
  have find: "pool_find h (wo_pool w) = pool_find (wo_heap w) (wo_pool w)"
    and hok: "pool_ok h (wo_pool w)" using ok by (simp_all add: h_def)
  have add: "add_backend sv body w =
      (if fst (pool_add h r (wo_pool w))
         then (reply_json 201 (OneBackend (to_dto (h r))),
               w\<lparr>wo_heap := h, wo_next := Suc r, wo_pool := snd (pool_add h r (wo_pool w))\<rparr>)
         else (reply_error 409 (BackendExists (dto_name d)), w\<lparr>wo_heap := h, wo_next := Suc r\<rparr>))"
    unfolding add_backend_added [OF assms(2-6), of w] h_def b_def r_def Let_def by simp
  show ?thesis
  proof (cases "pool_find h (wo_pool w) (dto_name d)")
    case None
    have acc: "fst (pool_add h r (wo_pool w))"
      and look: "pool_find h (snd (pool_add h r (wo_pool w))) = (pool_find h (wo_pool w))(dto_name d \<mapsto> r)"
      using reg.ins_new [OF hok, of r] None by (simp_all add: n)
    have "world_ok (snd (add_backend sv body w))"
      using reg.wf_ins [OF hok, of r] old acc None
      by (auto simp: add world_ok_def pool_add_eq n)
    moreover have "h r = \<lparr>bk_name = dto_name d, bk_url = u, bk_cloud = dto_cloud d,
                   bk_region = dto_region d, bk_weight = max 1 (dto_weight d), bk_kind = dto_kind d,
                   bk_healthy = True, bk_inflight = 0, bk_latency_ns = 0\<rparr>"
      by (simp add: h_def b_def with_kind_def new_backend_def max_def)
    ultimately show ?thesis
      using None acc look find by (simp add: add r_def [symmetric] reply_json_def)
  next
    case (Some q)
    then have "pool_add h r (wo_pool w) = (False, wo_pool w)"
      using reg.ins_dup [of h "wo_pool w" r] by (simp add: n)
    then show ?thesis
      using Some find hok old by (auto simp: add world_ok_def reply_error_def reply_json_def)
  qed
qed

text \<open>
  Removing a backend that exists answers 204, frees exactly its name, and drops the
  reverse proxy cached for it; removing an unknown name answers 404 and changes nothing.
\<close>

theorem admin_remove:
  assumes "world_ok w" and "sv_proxy sv"
  shows "let (re, w') = remove_backend sv name w
         in world_ok w' \<and>
           (if pool_find (wo_heap w) (wo_pool w) name \<noteq> None
            then re_status re = 204
              \<and> pool_find (wo_heap w') (wo_pool w') = (pool_find (wo_heap w) (wo_pool w))(name := None)
              \<and> ph_proxies (wo_handler w') = (ph_proxies (wo_handler w))(name := None)
            else re_status re = 404 \<and> w' = w)"
proof -
  let ?h = "wo_heap w" and ?p = "wo_pool w"
  have ok: "pool_ok ?h ?p" and old: "\<forall>r \<in> set (pl_all ?p). r < wo_next w"
    using assms(1) by (simp_all add: world_ok_def)
  show ?thesis
  proof (cases "pool_find ?h ?p name")
    case None
    then have "pool_remove ?h name ?p = (False, ?p)" by (rule reg.del_miss)
    then show ?thesis
      using None assms(1) by (simp add: remove_backend_def reply_error_def reply_json_def)
  next
    case (Some r)
    then have "fst (pool_remove ?h name ?p)"
      "pool_find ?h (snd (pool_remove ?h name ?p)) = (pool_find ?h ?p)(name := None)"
      using reg.del_hit [OF ok, of name] by simp_all
    moreover have "pool_ok ?h (snd (pool_remove ?h name ?p))" using ok by (rule reg.wf_del)
    moreover have "\<forall>r \<in> set (pl_all (snd (pool_remove ?h name ?p))). r < wo_next w"
      using old by (simp add: pool_remove_filter [OF ok] Some)
    ultimately show ?thesis
      using Some assms(2)
      by (simp add: remove_backend_def split_beta Let_def reply_json_def forget_def world_ok_def)
  qed
qed

text \<open>
  Overriding the health of a known backend answers 200 and sets its health flag, and
  nothing else of the world; an unknown name, an undecodable body or a missing flag is
  answered with 404 or 400 and changes nothing.
\<close>

theorem admin_health:
  "set_backend_health sv name body w =
     (case (sv_decode_health sv body, pool_find (wo_heap w) (wo_pool w) name) of
        (Some (Some v), Some r) \<Rightarrow>
          (reply_json 200 (OneBackend ((to_dto (wo_heap w r))\<lparr>dto_healthy := v\<rparr>)),
           w\<lparr>wo_heap := (wo_heap w)(r := (wo_heap w r)\<lparr>bk_healthy := v\<rparr>)\<rparr>)
      | (Some (Some v), None) \<Rightarrow> (reply_error 404 (UnknownBackend name), w)
      | (Some None, _) \<Rightarrow> (reply_error 400 HealthyRequired, w)
      | (None, _) \<Rightarrow> (reply_error 400 DecodeBody, w))"
  by (simp add: set_backend_health_def to_dto_def set_healthy_def modify_def Let_def
      split: option.splits)

text \<open>
  Reads are harmless: a request that is not a POST, PUT or DELETE never changes the
  world, and the listing shows exactly the pool's backends in order.
\<close>

theorem admin_reads_only:
  assumes "rq_method q \<notin> {''POST'', ''PUT'', ''DELETE''}"
  shows "snd (auth sv q w) = w
       \<and> (endpoint_of (rq_method q) (aq_path q) = ListEp \<longrightarrow>
            fst (serve_mux sv q w) =
              reply_json 200 (AllBackends (List.map (\<lambda>r. to_dto (wo_heap w r)) (pl_all (wo_pool w)))))"
proof -
  have "endpoint_of (rq_method q) (aq_path q) \<in> {ListEp, NotFoundEp, MethodNotAllowedEp}"
    using assms by (auto simp: endpoint_of_def split: list.splits)
  then have "snd (serve_mux sv q w) = w"
    by (auto simp: serve_mux_def list_backends_def)
  then show ?thesis
    by (simp add: auth_def Let_def serve_mux_def list_backends_def pool_backends_def)
qed

lemma set_backend_health_frame:
  "wo_pool (snd (set_backend_health sv name body w)) = wo_pool w
   \<and> wo_next (snd (set_backend_health sv name body w)) = wo_next w
   \<and> wo_handler (snd (set_backend_health sv name body w)) = wo_handler w
   \<and> bk_name (wo_heap (snd (set_backend_health sv name body w)) r) = bk_name (wo_heap w r)
   \<and> bk_inflight (wo_heap (snd (set_backend_health sv name body w)) r) = bk_inflight (wo_heap w r)"
  by (simp add: set_backend_health_def set_healthy_def modify_def Let_def split: option.splits)

end
