(* ===== verification/Health.thy ===== *)
theory Health
  imports Pool Config Metrics
begin

text \<open>
  \<^verbatim>\<open>internal/health/health.go\<close>: the active health checker.  Its state is a map from backend
  names to streaks.  A probe's HTTP exchange is a parameter (\<open>probe\<close>).  The goroutines
  of one round finish in any order; each \<^verbatim>\<open>record\<close> is one step (its mutex), so a round is
  a list of backends in the order in which they report.  The locale \<open>hysteresis\<close>
  states the threshold behaviour on its own; the checker is its instance.
\<close>

section \<open>State\<close>

record streak =
  sk_up :: int
  sk_down :: int

type_synonym streaks = "string \<rightharpoonup> streak"

record checker =
  hc_cfg :: cfg_health
  hc_metrics :: bool
  hc_state :: streaks

definition new_checker :: "cfg_health \<Rightarrow> bool \<Rightarrow> checker" where
  "new_checker cfg m = \<lparr>hc_cfg = cfg, hc_metrics = m, hc_state = Map.empty\<rparr>"

section \<open>Operations\<close>

definition streak_of :: "streaks \<Rightarrow> string \<Rightarrow> streak" where
  "streak_of st n = (case st n of None \<Rightarrow> \<lparr>sk_up = 0, sk_down = 0\<rparr> | Some s \<Rightarrow> s)"

text \<open>
  \<^verbatim>\<open>record\<close> reads the backend's flag and writes it in separate atomic operations.  Its mutex
  keeps other probes out between the two, but not the admin API, which sets the flag without
  it.  \<open>judge_result\<close> runs to the decision (\<open>None\<close> leaves the flag alone), \<open>announce\<close> carries
  it out, \<open>up_gauge\<close> is the gauge's update after the unlock.
\<close>

definition judge_result :: "bref \<Rightarrow> bool \<Rightarrow> checker \<Rightarrow> heap \<Rightarrow> checker \<times> bool option" where
  "judge_result r ok c h =
     (let name = bk_name (h r);
          s = streak_of (hc_state c) name;
          prev = bk_healthy (h r);
          s = (if ok then \<lparr>sk_up = wrap64 (sk_up s + 1), sk_down = 0\<rparr>
               else \<lparr>sk_up = 0, sk_down = wrap64 (sk_down s + 1)\<rparr>)
      in (c\<lparr>hc_state := (hc_state c)(name \<mapsto> s)\<rparr>,
          if ok \<and> \<not> prev \<and> he_healthy_threshold (hc_cfg c) \<le> sk_up s then Some True
          else if \<not> ok \<and> prev \<and> he_unhealthy_threshold (hc_cfg c) \<le> sk_down s then Some False
          else None))"

definition announce :: "bref \<Rightarrow> bool option \<Rightarrow> heap \<Rightarrow> heap" where
  "announce r d h = (case d of None \<Rightarrow> h | Some v \<Rightarrow> modify (set_healthy v) r h)"

definition up_gauge :: "checker \<Rightarrow> bref \<Rightarrow> heap \<Rightarrow> metric_call list" where
  "up_gauge c r h =
     if_metrics (hc_metrics c)
       [MSet BackendUp [bk_name (h r), bk_cloud (h r)] (if bk_healthy (h r) then 1 else 0)]"

definition record_result ::
  "bref \<Rightarrow> bool \<Rightarrow> checker \<Rightarrow> heap \<Rightarrow> checker \<times> heap \<times> metric_call list" where
  "record_result r ok c h =
     (let (c, d) = judge_result r ok c h; h = announce r d h in (c, h, up_gauge c r h))"

lemmas record_result_defs = record_result_def judge_result_def announce_def up_gauge_def Let_def

text \<open>What \<^verbatim>\<open>NewRequestWithContext\<close> and \<^verbatim>\<open>client.Do\<close> do, with the time the exchange took.\<close>

datatype probe = BuildFailed | TransportFailed int | Answered int int

definition trim_right_slash :: "string \<Rightarrow> string" where
  "trim_right_slash s = rev (dropWhile (\<lambda>c. c = CHR ''/'') (rev s))"

definition probe_url :: "cfg_health \<Rightarrow> backend \<Rightarrow> string" where
  "probe_url cfg b = trim_right_slash (url_string (bk_url b)) @ he_path cfg"

definition check :: "(string \<Rightarrow> probe) \<Rightarrow> bref \<Rightarrow> checker \<Rightarrow> heap \<Rightarrow> checker \<times> heap \<times> metric_call list" where
  "check net r c h =
     (case net (probe_url (hc_cfg c) (h r)) of
        BuildFailed \<Rightarrow> record_result r False c h
      | TransportFailed dur \<Rightarrow>
          (let (c', h', calls) = record_result r False c h
           in (c', h', if_metrics (hc_metrics c) [MObserve HealthCheckDur [bk_name (h r)] dur] @ calls))
      | Answered status dur \<Rightarrow>
          (let (c', h', calls) = record_result r
                 (he_status_floor (hc_cfg c) \<le> status \<and> status \<le> he_status_ceil (hc_cfg c)) c h
           in (c', h', if_metrics (hc_metrics c) [MObserve HealthCheckDur [bk_name (h r)] dur] @ calls)))"

fun check_all :: "(string \<Rightarrow> probe) \<Rightarrow> bref list \<Rightarrow> checker \<Rightarrow> heap \<Rightarrow> checker \<times> heap \<times> metric_call list" where
  "check_all net [] c h = (c, h, [])"
| "check_all net (r # rs) c h =
     (let (c, h, calls) = check net r c h; (c, h, calls') = check_all net rs c h in (c, h, calls @ calls'))"

text \<open>
  One round.  \<open>order\<close> is the pool's snapshot in the order the probes report; \<open>p\<close> is the
  pool when the gauge is computed.
\<close>

definition once :: "(string \<Rightarrow> probe) \<Rightarrow> bref list \<Rightarrow> pool \<Rightarrow> checker \<Rightarrow> heap \<Rightarrow>
    checker \<times> heap \<times> metric_call list" where
  "once net order p c h =
     (let (c, h, calls) = check_all net order c h;
          up = length (filter (\<lambda>r. bk_healthy (h r)) (pool_backends p))
      in (c, h, calls @ if_metrics (hc_metrics c) [MSet ActiveBackends [] (int up)]))"

text \<open>
  \<^verbatim>\<open>Run\<close>: one round at once and one per tick until the context ends.  A round comes with
  what the network answers, the order of the reports and the change the rest of the program
  made to the backends since the previous round.
\<close>

record round =
  rd_env :: "heap \<Rightarrow> heap"
  rd_net :: "string \<Rightarrow> probe"
  rd_order :: "bref list"
  rd_pool :: pool

fun run_rounds :: "round list \<Rightarrow> checker \<Rightarrow> heap \<Rightarrow> checker \<times> heap \<times> metric_call list" where
  "run_rounds [] c h = (c, h, [])"
| "run_rounds (rd # rds) c h =
     (let (c, h, calls) = once (rd_net rd) (rd_order rd) (rd_pool rd) c (rd_env rd h);
          (c, h, calls') = run_rounds rds c h
      in (c, h, calls @ calls'))"

section \<open>Basic facts\<close>

lemma record_result_frame [simp]:
  "bk_name (fst (snd (record_result r ok c h)) q) = bk_name (h q)"
  "bk_cloud (fst (snd (record_result r ok c h)) q) = bk_cloud (h q)"
  "bk_url (fst (snd (record_result r ok c h)) q) = bk_url (h q)"
  "hc_cfg (fst (record_result r ok c h)) = hc_cfg c"
  "hc_metrics (fst (record_result r ok c h)) = hc_metrics c"
  by (simp_all add: record_result_defs set_healthy_def modify_def)

lemma record_result_healthy:
  "bk_healthy (fst (snd (record_result r ok c h)) q) =
     (if q \<noteq> r then bk_healthy (h q)
      else if ok then bk_healthy (h r) \<or>
        he_healthy_threshold (hc_cfg c) \<le> wrap64 (sk_up (streak_of (hc_state c) (bk_name (h r))) + 1)
      else bk_healthy (h r) \<and>
        \<not> he_unhealthy_threshold (hc_cfg c) \<le> wrap64 (sk_down (streak_of (hc_state c) (bk_name (h r))) + 1))"
  by (cases "q = r"; cases ok; cases "bk_healthy (h r)")
    (simp_all add: record_result_defs set_healthy_def)

lemma record_result_streak:
  "streak_of (hc_state (fst (record_result r ok c h))) n =
     (if n \<noteq> bk_name (h r) then streak_of (hc_state c) n
      else if ok then \<lparr>sk_up = wrap64 (sk_up (streak_of (hc_state c) n) + 1), sk_down = 0\<rparr>
      else \<lparr>sk_up = 0, sk_down = wrap64 (sk_down (streak_of (hc_state c) n) + 1)\<rparr>)"
  by (simp add: record_result_defs streak_of_def)

section \<open>Hysteresis\<close>

text \<open>
  The specification.  Of a history of observations, newest first, the verdict is that of the
  last moment at which the latest \<open>ut\<close> observations were all failures (down) or the latest
  \<open>ht\<close> all successes (up), and the initial status if there was no such moment.
\<close>

fun verdict :: "int \<Rightarrow> int \<Rightarrow> bool \<Rightarrow> bool list \<Rightarrow> bool" where
  "verdict ut ht initial [] = initial"
| "verdict ut ht initial (ok # older) =
     (if ut \<le> int (length (takeWhile Not (ok # older))) then False
      else if ht \<le> int (length (takeWhile (\<lambda>a. a) (ok # older))) then True
      else verdict ut ht initial older)"

lemma verdict_short:
  assumes "int (length obs) < ut" and "int (length obs) < ht"
  shows "verdict ut ht initial obs = initial"
  using assms
proof (induction obs)
  case (Cons ok older)
  have "length (takeWhile P (ok # older)) \<le> length (ok # older)" for P by (rule length_takeWhile_le)
  from this [of Not] this [of "\<lambda>a. a"] Cons show ?case by (simp split: if_splits)
qed simp

locale hysteresis =
  fixes obs :: "'e \<Rightarrow> 's \<Rightarrow> 's"
    and reads :: "'e \<Rightarrow> bool option"
    and status :: "'s \<Rightarrow> bool"
    and ups :: "'s \<Rightarrow> int"
    and downs :: "'s \<Rightarrow> int"
    and good :: "'s \<Rightarrow> bool"
    and valid :: "'e \<Rightarrow> bool"
    and ut :: int
    and ht :: int
  assumes thresholds: "good s \<Longrightarrow> 1 \<le> ut \<and> 1 \<le> ht"
    and good_obs: "good s \<Longrightarrow> valid e \<Longrightarrow> good (obs e s)"
    and obs_other: "good s \<Longrightarrow> valid e \<Longrightarrow> reads e = None \<Longrightarrow>
            status (obs e s) = status s \<and> ups (obs e s) = ups s \<and> downs (obs e s) = downs s"
    and obs_up: "good s \<Longrightarrow> valid e \<Longrightarrow> reads e = Some True \<Longrightarrow>
            ups (obs e s) = wrap64 (ups s + 1) \<and> downs (obs e s) = 0
            \<and> status (obs e s) = (status s \<or> ht \<le> wrap64 (ups s + 1))"
    and obs_down: "good s \<Longrightarrow> valid e \<Longrightarrow> reads e = Some False \<Longrightarrow>
            ups (obs e s) = 0 \<and> downs (obs e s) = wrap64 (downs s + 1)
            \<and> status (obs e s) = (status s \<and> \<not> ut \<le> wrap64 (downs s + 1))"
begin

definition hist :: "'e list \<Rightarrow> bool list" where
  "hist es = rev (List.map_filter reads es)"

lemma hist_simps:
  "hist [] = []"
  "hist (es @ [e]) = (case reads e of None \<Rightarrow> hist es | Some ok \<Rightarrow> ok # hist es)"
  by (simp_all add: hist_def map_filter_def split: option.splits)

lemma verdict_step:
  assumes "1 \<le> ut" and "1 \<le> ht"
  shows "verdict ut ht i (True # older) = (verdict ut ht i older \<or> ht \<le> int (length (takeWhile (\<lambda>a. a) (True # older))))"
    and "verdict ut ht i (False # older) = (verdict ut ht i older \<and> \<not> ut \<le> int (length (takeWhile Not (False # older))))"
  using assms by auto

text \<open>Counters and status are functions of the history, while the counters do not wrap.\<close>

lemma tracks:
  assumes "good s" and "\<forall>e \<in> set es. valid e" and "ups s = 0" and "downs s = 0"
    and "int (length es) < 2 ^ 63"
  shows "good (fold obs es s)
      \<and> ups (fold obs es s) = int (length (takeWhile (\<lambda>a. a) (hist es)))
      \<and> downs (fold obs es s) = int (length (takeWhile Not (hist es)))
      \<and> status (fold obs es s) = verdict ut ht (status s) (hist es)
      \<and> length (hist es) \<le> length es"
  using assms(2,5)
proof (induction es rule: rev_induct)
  case Nil
  then show ?case using assms by (simp add: hist_simps)
next
  case (snoc e es)
  let ?s = "fold obs es s"
  have t: "1 \<le> ut" "1 \<le> ht" using thresholds [OF assms(1)] by blast+
  from snoc have g: "good ?s" and v: "valid e"
    and u: "ups ?s = int (length (takeWhile (\<lambda>a. a) (hist es)))"
    and d: "downs ?s = int (length (takeWhile Not (hist es)))"
    and st: "status ?s = verdict ut ht (status s) (hist es)"
    and l: "length (hist es) \<le> length es" by auto
  have w: "wrap64 (int (length (takeWhile P (hist es))) + 1) = int (length (takeWhile P (hist es))) + 1" for P
    using length_takeWhile_le [of P "hist es"] l snoc.prems(2)
    by (intro wrap64_id in_int64_small) simp_all
  consider "reads e = None" | "reads e = Some True" | "reads e = Some False" by (cases "reads e") auto
  then show ?case
  proof cases
    case 1
    then show ?thesis using g v u d st l obs_other [OF g v] good_obs by (simp add: hist_simps)
  next
    case 2
    then show ?thesis
      using g v u d st l obs_up [OF g v 2] good_obs w [of "\<lambda>a. a"]
      by (simp add: hist_simps verdict_step(1) [OF t] add.commute del: verdict.simps)
  next
    case 3
    then show ?thesis
      using g v u d st l obs_down [OF g v 3] good_obs w [of Not]
      by (simp add: hist_simps verdict_step(2) [OF t] add.commute del: verdict.simps)
  qed
qed

lemmas follows_verdict = tracks [THEN conjunct2, THEN conjunct2, THEN conjunct2, THEN conjunct1]

end

text \<open>The checker and its backends as such a system, seen from one backend.\<close>

definition hear :: "bref \<times> bool \<Rightarrow> checker \<times> heap \<Rightarrow> checker \<times> heap" where
  "hear e s = (fst (record_result (fst e) (snd e) (fst s) (snd s)),
               fst (snd (record_result (fst e) (snd e) (fst s) (snd s))))"

definition named_apart :: "heap \<Rightarrow> bref set \<Rightarrow> bool" where
  "named_apart h rs \<longleftrightarrow> inj_on (\<lambda>q. bk_name (h q)) rs"

interpretation debounce: hysteresis
  hear "\<lambda>e. if fst e = r then Some (snd e) else None"
  "\<lambda>s. bk_healthy (snd s r)"
  "\<lambda>s. sk_up (streak_of (hc_state (fst s)) (bk_name (snd s r)))"
  "\<lambda>s. sk_down (streak_of (hc_state (fst s)) (bk_name (snd s r)))"
  "\<lambda>s. hc_cfg (fst s) = cfg \<and> health_valid cfg \<and> named_apart (snd s) (insert r rs)"
  "\<lambda>e. fst e \<in> rs"
  "he_unhealthy_threshold cfg" "he_healthy_threshold cfg"
  for r rs cfg
proof (unfold_locales, goal_cases)
  case (1 s)
  then show ?case by (simp add: health_valid_def)
next
  case (2 s e)
  then show ?case by (simp add: hear_def named_apart_def)
next
  case (3 s e)
  then have "fst e \<noteq> r" and "fst e \<in> rs" by (auto split: if_splits)
  with 3 have "bk_name (snd s r) \<noteq> bk_name (snd s (fst e))"
    by (auto simp: named_apart_def inj_on_def)
  with \<open>fst e \<noteq> r\<close> show ?case
    by (simp add: hear_def record_result_healthy record_result_streak)
next
  case (4 s e)
  then show ?case
    by (simp add: hear_def record_result_healthy record_result_streak split: if_splits)
next
  case (5 s e)
  then show ?case
    by (simp add: hear_def record_result_healthy record_result_streak split: if_splits)
qed

lemma hear_verdict:
  assumes "health_valid cfg" and "named_apart h (insert r rs)" and "\<forall>e \<in> set es. fst e \<in> rs"
    and "int (length es) < 2 ^ 63"
  shows "bk_healthy (snd (fold hear es (new_checker cfg m, h)) r) =
         verdict (he_unhealthy_threshold cfg) (he_healthy_threshold cfg) (bk_healthy (h r))
           (rev (List.map snd (filter (\<lambda>e. fst e = r) es)))"
proof -
  have hist: "debounce.hist r es = rev (List.map snd (filter (\<lambda>e. fst e = r) es))"
    by (induction es) (simp_all add: debounce.hist_def map_filter_def)
  have "bk_healthy (snd (fold hear es (new_checker cfg m, h)) r) =
         verdict (he_unhealthy_threshold cfg) (he_healthy_threshold cfg)
           (bk_healthy (snd (new_checker cfg m, h) r)) (debounce.hist r es)"
    by (rule debounce.follows_verdict [where rs = rs and cfg = cfg])
      (use assms in \<open>simp_all add: new_checker_def streak_of_def\<close>)
  then show ?thesis by (simp add: hist)
qed

section \<open>Rounds\<close>

text \<open>A probe passes when it is answered with a status of the configured range.\<close>

definition passes :: "cfg_health \<Rightarrow> probe \<Rightarrow> bool" where
  "passes cfg x = (case x of Answered status dur \<Rightarrow> he_status_floor cfg \<le> status \<and> status \<le> he_status_ceil cfg
                   | _ \<Rightarrow> False)"

definition heard :: "cfg_health \<Rightarrow> heap \<Rightarrow> round \<Rightarrow> (bref \<times> bool) list" where
  "heard cfg h rd = List.map (\<lambda>r. (r, passes cfg (rd_net rd (probe_url cfg (h r))))) (rd_order rd)"

abbreviation state_of :: "checker \<times> heap \<times> metric_call list \<Rightarrow> checker \<times> heap" where
  "state_of x \<equiv> (fst x, fst (snd x))"

lemma check_hear: "state_of (check net r c h) = hear (r, passes (hc_cfg c) (net (probe_url (hc_cfg c) (h r)))) (c, h)"
  by (simp add: check_def hear_def passes_def split_beta split: probe.splits)

lemma check_frame:
  "bk_url (fst (snd (check net r c h)) q) = bk_url (h q)" "bk_name (fst (snd (check net r c h)) q) = bk_name (h q)"
  "hc_cfg (fst (check net r c h)) = hc_cfg c"
  by (simp_all add: check_def split_beta split: probe.splits)

lemma check_all_hear:
  "(state_of (check_all net rs c h) =
     fold hear (List.map (\<lambda>r. (r, passes (hc_cfg c) (net (probe_url (hc_cfg c) (h r))))) rs) (c, h))
"
proof (induction rs arbitrary: c h)
  case (Cons r rs)
  let ?x = "check net r c h"
  have "probe_url (hc_cfg c) (fst (snd ?x) q) = probe_url (hc_cfg c) (h q)" for q
    by (simp add: probe_url_def check_frame)
  with Cons.IH [of "fst ?x" "fst (snd ?x)"] show ?case
    by (simp add: split_beta check_frame check_hear [symmetric])
qed simp

lemma once_hear:
  "state_of (once (rd_net rd) (rd_order rd) p c h) = fold hear (heard (hc_cfg c) h rd) (c, h)"
  using check_all_hear [of "rd_net rd" "rd_order rd" c h] by (simp add: once_def split_beta heard_def)

lemma fold_hear_frame:
  "hc_cfg (fst (fold hear es s)) = hc_cfg (fst s) \<and> bk_url (snd (fold hear es s) q) = bk_url (snd s q)
   \<and> bk_name (snd (fold hear es s) q) = bk_name (snd s q)"
  by (induction es arbitrary: s) (simp_all add: hear_def)

lemma run_hear:
  assumes "\<forall>rd \<in> set rds. rd_env rd = id"
  shows "state_of (run_rounds rds c h) = fold hear (concat (List.map (heard (hc_cfg c) h) rds)) (c, h)"
  using assms
proof (induction rds arbitrary: c h)
  case (Cons rd rds)
  let ?x = "once (rd_net rd) (rd_order rd) (rd_pool rd) c h"
  have x: "state_of ?x = fold hear (heard (hc_cfg c) h rd) (c, h)" by (rule once_hear)
  then have fr: "hc_cfg (fst ?x) = hc_cfg c" "bk_url (fst (snd ?x) q) = bk_url (h q)" for q
    using fold_hear_frame [of "heard (hc_cfg c) h rd" "(c, h)" q]
    by (metis fst_conv snd_conv)+
  have "heard (hc_cfg c) (fst (snd ?x)) = heard (hc_cfg c) h"
    by (simp add: fun_eq_iff heard_def probe_url_def fr)
  with Cons.IH [of "fst ?x" "fst (snd ?x)"] Cons.prems x show ?case
    by (simp add: split_beta fr)
qed simp

lemma heard_once:
  assumes "distinct (rd_order rd)" and "r \<in> set (rd_order rd)"
  shows "filter (\<lambda>e. fst e = r) (heard cfg h rd) = [(r, passes cfg (rd_net rd (probe_url cfg (h r))))]"
proof -
  have "filter (\<lambda>q. q = r) qs = (if r \<in> set qs then [r] else [])" if "distinct qs" for qs
    using that by (induction qs) auto
  with assms show ?thesis
    by (simp add: heard_def filter_map comp_def)
qed

lemma rounds_verdict:
  assumes "health_valid cfg" and "named_apart h rs"
    and "\<forall>rd \<in> set rds. rd_env rd = id \<and> distinct (rd_order rd) \<and> r \<in> set (rd_order rd)
           \<and> set (rd_order rd) \<subseteq> rs"
    and "int (sum_list (List.map (\<lambda>rd. length (rd_order rd)) rds)) < 2 ^ 63" and "r \<in> rs"
  shows "bk_healthy (fst (snd (run_rounds rds (new_checker cfg m) h)) r) =
         verdict (he_unhealthy_threshold cfg) (he_healthy_threshold cfg) (bk_healthy (h r))
           (rev (List.map (\<lambda>rd. passes cfg (rd_net rd (probe_url cfg (h r)))) rds))"
proof -
  let ?es = "concat (List.map (heard cfg h) rds)"
  have run: "fst (snd (run_rounds rds (new_checker cfg m) h)) = snd (fold hear ?es (new_checker cfg m, h))"
    using run_hear [of rds "new_checker cfg m" h] assms(3)
    by (simp add: new_checker_def prod_eq_iff)
  have "filter (\<lambda>e. fst e = r) ?es = List.map (\<lambda>rd. (r, passes cfg (rd_net rd (probe_url cfg (h r))))) rds"
    using assms(3) by (induction rds) (simp_all add: heard_once)
  moreover have "length ?es = sum_list (List.map (\<lambda>rd. length (rd_order rd)) rds)"
    by (simp add: length_concat heard_def comp_def)
  moreover have "\<forall>e \<in> set ?es. fst e \<in> rs" using assms(3) by (auto simp: heard_def)
  moreover have "insert r rs = rs" using assms(5) by blast
  ultimately show ?thesis
    unfolding run using hear_verdict [of cfg h r rs ?es m] assms(1,2,4)
    by (simp add: comp_def)
qed

text \<open>
  C7: Rounds against a network decide a backend's health by its own probes alone: after any
  number of rounds, in whatever order the probes of a round report, its health is the
  verdict of its probe results, so it goes down exactly when the latest
  unhealthy-threshold probes failed and up exactly when the latest healthy-threshold
  probes passed.  (Fresh checker, fewer than \<open>2 ^ 63\<close> probes, no other writer.)
\<close>

theorem rounds_follow_verdict:
  assumes "health_valid cfg" and "named_apart h rs"
    and "\<forall>rd \<in> set rds. rd_env rd = id \<and> distinct (rd_order rd) \<and> r \<in> set (rd_order rd)
           \<and> set (rd_order rd) \<subseteq> rs"
    and "int (sum_list (List.map (\<lambda>rd. length (rd_order rd)) rds)) < 2 ^ 63" and "r \<in> rs"
  shows "bk_healthy (fst (snd (run_rounds rds (new_checker cfg m) h)) r) =
         verdict (he_unhealthy_threshold cfg) (he_healthy_threshold cfg) (bk_healthy (h r))
           (rev (List.map (\<lambda>rd. passes cfg (rd_net rd (probe_url cfg (h r)))) rds))"
  using assms by (rule rounds_verdict)

lemma verdict_streak:
  assumes "1 \<le> ut" and "1 \<le> ht" and "(if v then ht else ut) \<le> int n"
  shows "verdict ut ht i (replicate n v @ older) = v"
proof (cases n)
  case 0
  with assms show ?thesis by (simp split: if_splits)
next
  case (Suc m)
  have t: "n \<le> length (takeWhile P (replicate n v @ older))" if "P v" for P
  proof -
    have "takeWhile P (replicate n v @ older) = replicate n v @ takeWhile P older"
      using that by (intro takeWhile_append2) simp
    then show ?thesis by simp
  qed
  show ?thesis
    using assms t [of Not] t [of "\<lambda>a. a"] unfolding Suc by (cases v) (auto split: if_splits)
qed

lemma rounds_detect:
  assumes "health_valid cfg" and "named_apart h rs" and "r \<in> rs"
    and "\<forall>rd \<in> set (before @ after). rd_env rd = id \<and> distinct (rd_order rd) \<and> r \<in> set (rd_order rd)
           \<and> set (rd_order rd) \<subseteq> rs"
    and "int (sum_list (List.map (\<lambda>rd. length (rd_order rd)) (before @ after))) < 2 ^ 63"
    and "\<forall>rd \<in> set after. passes cfg (rd_net rd (probe_url cfg (h r))) = v"
    and "(if v then he_healthy_threshold cfg else he_unhealthy_threshold cfg) \<le> int (length after)"
  shows "bk_healthy (fst (snd (run_rounds (before @ after) (new_checker cfg m) h)) r) = v"
proof -
  let ?res = "\<lambda>rd. passes cfg (rd_net rd (probe_url cfg (h r)))"
  have "List.map ?res after = replicate (length after) v"
    using assms(6) by (induction after) simp_all
  then have "rev (List.map ?res (before @ after)) = replicate (length after) v @ rev (List.map ?res before)"
    by simp
  moreover have "1 \<le> he_unhealthy_threshold cfg" "1 \<le> he_healthy_threshold cfg"
    using assms(1) by (simp_all add: health_valid_def)
  ultimately show ?thesis
    unfolding rounds_verdict [OF assms(1,2,4,5,3)] using assms(7) by (simp only: verdict_streak)
qed


text \<open>
  An administrator's override of a backend that has been passing its probes lasts only
  until its next passing probe: the streak survives the override, so that one success
  re-enables the backend.
\<close>

theorem override_lasts_one_probe:
  assumes "health_valid cfg" and "he_healthy_threshold cfg \<le> int n + 1" and "int n + 1 < 2 ^ 63"
  shows "let (c, h') = fold hear (replicate n (r, True)) (new_checker cfg m, h)
         in bk_healthy (snd (hear (r, True) (c, modify (set_healthy False) r h')) r)"
proof -
  let ?s = "fold hear (replicate n (r, True)) (new_checker cfg m, h)"
  have hist: "debounce.hist r (replicate n (r, True)) = replicate n True"
    by (simp add: debounce.hist_def map_filter_def)
  have "sk_up (streak_of (hc_state (fst ?s)) (bk_name (snd ?s r))) = int (length (takeWhile (\<lambda>a. a) (replicate n True)))
        \<and> hc_cfg (fst ?s) = cfg"
    using debounce.tracks [where r = r and rs = "{r}" and cfg = cfg and es = "replicate n (r, True)"
        and s = "(new_checker cfg m, h)"] assms
    by (simp add: new_checker_def streak_of_def named_apart_def hist)
  then have up: "sk_up (streak_of (hc_state (fst ?s)) (bk_name (snd ?s r))) = int n"
    and cfg: "hc_cfg (fst ?s) = cfg" by (simp_all add: takeWhile_replicate)
  have "wrap64 (int n + 1) = int n + 1" using assms(3) by (intro wrap64_id in_int64_small) simp_all
  with up cfg assms(2) show ?thesis
    by (simp add: split_beta hear_def record_result_healthy set_healthy_def)
qed

lemma record_result_metrics: "calls_ok (hc_metrics c) (snd (snd (record_result r ok c h)))"
  by (simp add: record_result_defs)

lemma check_metrics:
  "calls_ok (hc_metrics c) (snd (snd (check net r c h))) \<and> hc_metrics (fst (check net r c h)) = hc_metrics c"
  by (simp add: check_def split_beta record_result_metrics split: probe.splits)

lemma check_all_metrics:
  "calls_ok (hc_metrics c) (snd (snd (check_all net rs c h)))
   \<and> hc_metrics (fst (check_all net rs c h)) = hc_metrics c"
proof (induction rs arbitrary: c h)
  case (Cons r rs)
  show ?case
    using Cons.IH [of "fst (check net r c h)" "fst (snd (check net r c h))"] check_metrics [of c net r h]
    by (simp add: split_beta)
qed (simp add: calls_ok_def)

lemma once_metrics:
  "calls_ok (hc_metrics c) (snd (snd (once net rs p c h))) \<and> hc_metrics (fst (once net rs p c h)) = hc_metrics c"
  using check_all_metrics [of c net rs h] by (simp add: once_def split_beta)

text \<open>
  Every metric call of a checker's run names the right kind of collector with one value
  per label, so none of them panics; without collectors the checker makes none.
\<close>

theorem checker_metrics_safe: "calls_ok (hc_metrics c) (snd (snd (run_rounds rds c h)))"
proof (induction rds arbitrary: c h)
  case (Cons rd rds)
  let ?x = "once (rd_net rd) (rd_order rd) (rd_pool rd) c (rd_env rd h)"
  show ?case
    using Cons.IH [of "fst ?x" "fst (snd ?x)"] once_metrics [of c "rd_net rd" "rd_order rd" "rd_pool rd" "rd_env rd h"]
    by (simp add: split_beta)
qed (simp add: calls_ok_def)

end
