(* ===== verification/Observability.thy ===== *)
theory Observability
  imports Config
begin

text \<open>
  \<^verbatim>\<open>internal/log/log.go\<close> (the level and format names) and \<^verbatim>\<open>internal/tracing/tracing.go\<close>
  (the options of the trace exporter).  The \<^verbatim>\<open>slog\<close> handlers and the OpenTelemetry SDK are
  not part of the repository: the results are the options they are built with.
\<close>

section \<open>Logging\<close>

datatype log_level = LevelDebug | LevelInfo | LevelWarn | LevelError

text \<open>The levels are ordered by \<^verbatim>\<open>slog\<close>'s numbers; a handler drops the records below its level.\<close>

fun slog_level :: "log_level \<Rightarrow> int" where
  "slog_level LevelDebug = - 4"
| "slog_level LevelInfo = 0"
| "slog_level LevelWarn = 4"
| "slog_level LevelError = 8"

instantiation log_level :: linorder
begin

definition less_eq_log_level :: "log_level \<Rightarrow> log_level \<Rightarrow> bool" where
  "less_eq_log_level a b \<longleftrightarrow> slog_level a \<le> slog_level b"

definition less_log_level :: "log_level \<Rightarrow> log_level \<Rightarrow> bool" where
  "less_log_level a b \<longleftrightarrow> slog_level a < slog_level b"

instance
proof
  fix a b :: log_level
  show "a \<le> b \<Longrightarrow> b \<le> a \<Longrightarrow> a = b"
    by (cases a; cases b) (simp_all add: less_eq_log_level_def)
qed (auto simp: less_eq_log_level_def less_log_level_def)

end

definition log_enabled :: "log_level \<Rightarrow> log_level \<Rightarrow> bool" where
  "log_enabled configured l \<longleftrightarrow> configured \<le> l"

datatype log_format = FormatJSON | FormatText
datatype log_error = UnknownLevel string | UnknownFormat string

definition parse_level :: "string \<Rightarrow> log_error + log_level" where
  "parse_level s =
     (let n = to_lower (trim_space s) in
      if n = '''' \<or> n = ''info'' then Inr LevelInfo
      else if n = ''debug'' then Inr LevelDebug
      else if n = ''warn'' \<or> n = ''warning'' then Inr LevelWarn
      else if n = ''error'' then Inr LevelError
      else Inl (UnknownLevel s))"

definition new_logger :: "string \<Rightarrow> string \<Rightarrow> log_error + (log_level \<times> log_format)" where
  "new_logger level format =
     (case parse_level level of
        Inl e \<Rightarrow> Inl e
      | Inr lvl \<Rightarrow>
          let f = to_lower format in
          if f = ''json'' \<or> f = '''' then Inr (lvl, FormatJSON)
          else if f = ''text'' then Inr (lvl, FormatText)
          else Inl (UnknownFormat format))"

section \<open>Tracing\<close>

fun contains :: "string \<Rightarrow> string \<Rightarrow> bool" where
  "contains sub [] \<longleftrightarrow> sub = []"
| "contains sub (c # cs) \<longleftrightarrow> has_prefix sub (c # cs) \<or> contains sub cs"

datatype trace_error = EmptyEndpoint | EndpointError | ExporterError

definition parse_endpoint :: "(string \<Rightarrow> url option) \<Rightarrow> string \<Rightarrow> trace_error + (string \<times> bool)" where
  "parse_endpoint parse_url s =
     (if s = '''' then Inl EmptyEndpoint
      else if \<not> contains ''://'' s then Inr (s, False)
      else (case parse_url s of
              None \<Rightarrow> Inl EndpointError
            | Some u \<Rightarrow> Inr (url_host u, to_lower (url_scheme u) = ''http'')))"

record trace_provider =
  tv_endpoint :: string
  tv_insecure :: bool
  tv_headers :: "(string \<times> string) list option"
  tv_service_name :: string
  tv_version :: string
  tv_sampler_ratio :: f64

text \<open>\<open>start\<close> tells whether exporter and resource can be created; the result is \<open>None\<close>
  when there is nothing to shut down.\<close>

definition init_tracing ::
  "(string \<Rightarrow> url option) \<Rightarrow> (trace_provider \<Rightarrow> bool) \<Rightarrow> cfg_tracing option \<Rightarrow> string \<Rightarrow>
   trace_error + trace_provider option" where
  "init_tracing parse_url start cfg version =
     (case cfg of
        None \<Rightarrow> Inr None
      | Some t \<Rightarrow>
          (case parse_endpoint parse_url (tr_endpoint t) of
             Inl e \<Rightarrow> Inl e
           | Inr (endpoint, insecure) \<Rightarrow>
               let p = \<lparr>tv_endpoint = endpoint, tv_insecure = (insecure \<or> tr_insecure t),
                        tv_headers = (if tr_headers t \<noteq> [] then Some (tr_headers t) else None),
                        tv_service_name = tr_service_name t, tv_version = version,
                        tv_sampler_ratio = tr_sampler_ratio t\<rparr>
               in if start p then Inr (Some p) else Inl ExporterError))"

section \<open>Facts\<close>

text \<open>
  A logger is built exactly for the documented level names (in any case, surrounded by
  blanks) and format names; an empty level is \<^verbatim>\<open>info\<close>, an empty format JSON.
\<close>

theorem logger_accepts:
  "(\<exists>l f. new_logger level format = Inr (l, f)) \<longleftrightarrow>
     to_lower (trim_space level) \<in> {'''', ''debug'', ''info'', ''warn'', ''warning'', ''error''}
     \<and> to_lower format \<in> {'''', ''json'', ''text''}"
proof -
  have "(\<exists>l. parse_level level = Inr l) \<longleftrightarrow>
      to_lower (trim_space level) \<in> {'''', ''debug'', ''info'', ''warn'', ''warning'', ''error''}"
    by (simp add: parse_level_def Let_def)
  then show ?thesis
    by (cases "parse_level level") (auto simp: new_logger_def Let_def)
qed

text \<open>
  Traces leave in the clear only where the configuration says so: by an explicit
  \<^verbatim>\<open>insecure\<close> flag or an \<^verbatim>\<open>http://\<close> endpoint.  A missing block starts nothing.
\<close>

theorem tracing_insecure_only_if_asked:
  assumes "init_tracing parse_url start cfg version = Inr res"
  shows "(res = None \<longleftrightarrow> cfg = None)
       \<and> (\<forall>t p. cfg = Some t \<and> res = Some p \<longrightarrow>
            (tv_insecure p \<longleftrightarrow> tr_insecure t
               \<or> (contains ''://'' (tr_endpoint t)
                  \<and> (\<exists>u. parse_url (tr_endpoint t) = Some u \<and> to_lower (url_scheme u) = ''http''))))"
  using assms
  by (cases cfg) (auto simp: init_tracing_def parse_endpoint_def Let_def split: sum.splits if_splits option.splits)

end
