(* ===== verification/Engine.thy ===== *)
theory Engine
  imports Admin Health Observability
begin

text \<open>
  \<^verbatim>\<open>internal/engine/engine.go\<close> (and its public face \<^verbatim>\<open>pkg/engine/engine.go\<close>): building
  accountant, strategy, backends and TLS lookup from a configuration, \<^verbatim>\<open>New\<close>, \<^verbatim>\<open>Reload\<close> and
  the listeners of \<^verbatim>\<open>Run\<close>.  The environment (files, decoders, environment variables, the
  start of a trace exporter) is the record \<open>env\<close>.
\<close>

section \<open>Building blocks\<close>

datatype engine_error =
    TracingFailed trace_error
  | BackendUrl string
  | BadStrategy strategy_error
  | StickyAsFallback
  | BadStickyHash
  | BackendTls string tls_error
  | NoConfigPath
  | LoadFailed load_error

definition build_accountant :: "cfg_cost option \<Rightarrow> accountant option" where
  "build_accountant c =
     (case c of None \<Rightarrow> None
      | Some k \<Rightarrow> Some (new_accountant (map_of (co_budgets k)) (map_of (co_prices k))))"

definition build_base_strategy :: "string \<Rightarrow> acc_ref option \<Rightarrow> engine_error + strategy" where
  "build_base_strategy name a =
     (case parse_strategy name of
        Inl e \<Rightarrow> Inl (BadStrategy e)
      | Inr s \<Rightarrow>
          if strategy_name s = ''cost_bounded_least_latency'' then Inr (new_cost_bounded a)
          else if strategy_name s = ''sticky_by_cloud'' then Inl StickyAsFallback
          else Inr s)"

definition build_strategy :: "config \<Rightarrow> acc_ref option \<Rightarrow> engine_error + (strategy \<times> string)" where
  "build_strategy cfg a =
     (let base_name = (case cf_sticky cfg of None \<Rightarrow> cf_strategy cfg | Some s \<Rightarrow> st_fallback_strategy s) in
      case build_base_strategy base_name a of
        Inl e \<Rightarrow> Inl e
      | Inr base \<Rightarrow>
          let sticky = (case cf_sticky cfg of
                  None \<Rightarrow> Inr (base, '''')
                | Some s \<Rightarrow>
                    (case hash_from_request (st_hash s) of
                       Inl e \<Rightarrow> Inl BadStickyHash
                     | Inr (hash, cn) \<Rightarrow> Inr (new_sticky_by_cloud (Some hash) cn (Some base), cn)))
          in (case sticky of
                Inl e \<Rightarrow> Inl e
              | Inr (current, cookie_name) \<Rightarrow>
                  Inr (case cf_kind_routing cfg of
                         None \<Rightarrow> current
                       | Some k \<Rightarrow> new_kind_aware (kr_write_methods k) (kr_write_kinds k) (kr_read_kinds k) current,
                       cookie_name)))"

fun build_backends :: "(string \<Rightarrow> url option) \<Rightarrow> cfg_backend list \<Rightarrow> engine_error + backend list" where
  "build_backends parse_url [] = Inr []"
| "build_backends parse_url (b # bs) =
     (case parse_url (cb_url b) of
        None \<Rightarrow> Inl (BackendUrl (cb_name b))
      | Some u \<Rightarrow>
          (case build_backends parse_url bs of
             Inl e \<Rightarrow> Inl e
           | Inr out \<Rightarrow>
               Inr (with_kind (cb_kind b) (new_backend (cb_name b) u (cb_cloud b) (cb_region b) (cb_weight b)) # out)))"

text \<open>The objects get consecutive new pointers.\<close>

fun store_at :: "bref \<Rightarrow> backend list \<Rightarrow> heap \<Rightarrow> heap" where
  "store_at n [] h = h"
| "store_at n (b # bs) h = store_at (Suc n) bs (h(n := b))"

fun tls_configs :: "files \<Rightarrow> cfg_backend list \<Rightarrow> (string \<rightharpoonup> tls_config) \<Rightarrow>
    engine_error + (string \<rightharpoonup> tls_config)" where
  "tls_configs fs [] configs = Inr configs"
| "tls_configs fs (b # bs) configs =
     (case cb_tls b of
        None \<Rightarrow> tls_configs fs bs configs
      | Some t \<Rightarrow>
          (case build_backend_tls_config fs (Some t) of
             Inl e \<Rightarrow> Inl (BackendTls (cb_name b) e)
           | Inr tc \<Rightarrow> tls_configs fs bs (configs(cb_name b := tc))))"

definition apply_backend_tls :: "files \<Rightarrow> cfg_backend list \<Rightarrow> handler \<Rightarrow> engine_error option \<times> handler" where
  "apply_backend_tls fs bs ph =
     (case tls_configs fs bs Map.empty of
        Inl e \<Rightarrow> (Some e, ph)
      | Inr configs \<Rightarrow> (None, set_tls_by_backend (Some configs) ph))"

section \<open>The engine\<close>

record env =
  ev_files :: files
  ev_decode :: "string \<Rightarrow> config option"
  ev_parse_url :: "string \<Rightarrow> url option"
  ev_getenv :: "string \<Rightarrow> string"
  ev_trace :: "trace_provider \<Rightarrow> bool"

definition engine_load :: "env \<Rightarrow> string \<Rightarrow> load_error + config" where
  "engine_load ev path = load_config (fs_read (ev_files ev)) (ev_decode ev) (ev_parse_url ev) path"

record engine =
  en_cfg :: config
  en_cfg_path :: string
  en_world :: world
  en_checker :: checker
  en_token :: string
  en_accountant :: "acc_ref option"
  en_tracing :: "trace_provider option"

text \<open>What \<^verbatim>\<open>New\<close> did with the trace provider it started, if any.\<close>

datatype tracer_fate = NoTracer | TracerKept | TracerShutDown | TracerLeaked

definition fate :: "trace_provider option \<Rightarrow> tracer_fate \<Rightarrow> tracer_fate" where
  "fate t f = (if t = None then NoTracer else f)"

definition new_world :: "backend list \<Rightarrow> accountant option \<Rightarrow> strategy \<Rightarrow> handler \<Rightarrow> world" where
  "new_world bs acc s ph =
     \<lparr>wo_heap = store_at 0 bs (\<lambda>_. new_backend '''' \<lparr>url_string = '''', url_scheme = '''', url_host = ''''\<rparr> '''' '''' 0),
      wo_next = length bs, wo_pool = new_pool [0..<length bs] s, wo_handler = ph,
      wo_accounts = (\<lambda>_. case acc of None \<Rightarrow> new_accountant Map.empty Map.empty | Some a \<Rightarrow> a),
      wo_next_acc = (if acc = None then 0 else 1)\<rparr>"

definition new_engine :: "env \<Rightarrow> config \<Rightarrow> string \<Rightarrow> (engine_error + engine) \<times> tracer_fate" where
  "new_engine ev cfg cfg_path =
     (case init_tracing (ev_parse_url ev) (ev_trace ev) (cf_tracing cfg) ''openvcc'' of
        Inl e \<Rightarrow> (Inl (TracingFailed e), NoTracer)
      | Inr tracer \<Rightarrow>
          (case build_backends (ev_parse_url ev) (cf_backends cfg) of
             Inl e \<Rightarrow> (Inl e, fate tracer TracerShutDown)
           | Inr bs \<Rightarrow>
               let acc = build_accountant (cf_cost cfg);
                   a = (if acc = None then None else Some 0)
               in (case build_strategy cfg a of
                     Inl e \<Rightarrow> (Inl e, fate tracer TracerLeaked)
                   | Inr (strategy, sticky_cookie) \<Rightarrow>
                       (case apply_backend_tls (ev_files ev) (cf_backends cfg) (new_handler True (cf_proxy cfg)) of
                          (Some e, _) \<Rightarrow> (Inl e, fate tracer TracerLeaked)
                        | (None, ph) \<Rightarrow>
                            let ph = set_accountant a ph;
                                ph = (case cf_sticky cfg of None \<Rightarrow> ph
                                      | Some s \<Rightarrow> set_sticky_cookie sticky_cookie (st_cookie_ttl s) ph);
                                token = (if ad_bearer_token_env (cf_admin cfg) \<noteq> ''''
                                         then ev_getenv ev (ad_bearer_token_env (cf_admin cfg)) else '''')
                            in (Inr \<lparr>en_cfg = cfg, en_cfg_path = cfg_path,
                                     en_world = new_world bs acc strategy ph,
                                     en_checker = new_checker (cf_health cfg) True,
                                     en_token = token, en_accountant = a, en_tracing = tracer\<rparr>,
                                fate tracer TracerKept)))))"

section \<open>Reload\<close>

text \<open>The proxies of the names that are gone are forgotten.\<close>

fun forget_gone :: "heap \<Rightarrow> string set \<Rightarrow> bref list \<Rightarrow> handler \<Rightarrow> handler" where
  "forget_gone h keep [] ph = ph"
| "forget_gone h keep (r # rs) ph =
     forget_gone h keep rs (if bk_name (h r) \<in> keep then ph else forget (bk_name (h r)) ph)"

text \<open>The body of \<^verbatim>\<open>Reload\<close> after the fallible preparations, up to the TLS lookup.\<close>

definition swap_pool :: "config \<Rightarrow> backend list \<Rightarrow> strategy \<Rightarrow> string \<Rightarrow> acc_ref option \<Rightarrow> world \<Rightarrow> world" where
  "swap_pool cfg bs s cookie_name a w =
     (let ph = set_accountant a (wo_handler w);
          ph = (case cf_sticky cfg of
                  Some k \<Rightarrow> set_sticky_cookie cookie_name (st_cookie_ttl k) ph
                | None \<Rightarrow> set_sticky_cookie '''' 0 ph);
          old = pool_backends (wo_pool w);
          h = store_at (wo_next w) bs (wo_heap w);
          news = [wo_next w ..< wo_next w + length bs];
          keep = set (List.map bk_name bs);
          ph = forget_gone h keep old ph
      in w\<lparr>wo_heap := h, wo_next := wo_next w + length bs,
           wo_pool := pool_replace news (Some s) (wo_pool w), wo_handler := ph\<rparr>)"

definition reload :: "env \<Rightarrow> engine \<Rightarrow> engine_error option \<times> engine" where
  "reload ev e =
     (if en_cfg_path e = '''' then (Some NoConfigPath, e)
      else (case engine_load ev (en_cfg_path e) of
          Inl err \<Rightarrow> (Some (LoadFailed err), e)
        | Inr cfg \<Rightarrow>
            (case build_backends (ev_parse_url ev) (cf_backends cfg) of
               Inl err \<Rightarrow> (Some err, e)
             | Inr bs \<Rightarrow>
                 let w = en_world e;
                     acc = build_accountant (cf_cost cfg);
                     a = (if acc = None then None else Some (wo_next_acc w))
                 in (case build_strategy cfg a of
                       Inl err \<Rightarrow> (Some err, e)
                     | Inr (s, cookie_name) \<Rightarrow>
                         let w = (case acc of None \<Rightarrow> w
                                  | Some x \<Rightarrow> w\<lparr>wo_accounts := (wo_accounts w)(wo_next_acc w := x),
                                               wo_next_acc := Suc (wo_next_acc w)\<rparr>);
                             w = swap_pool cfg bs s cookie_name a w;
                             (err, ph) = apply_backend_tls (ev_files ev) (cf_backends cfg) (wo_handler w)
                         in (err, e\<lparr>en_accountant := a, en_world := w\<lparr>wo_handler := ph\<rparr>\<rparr>)))))"

section \<open>Listeners\<close>

datatype endpoint_handler =
    ProxyHandler
  | AcmeThenProxy acme_manager
  | MetricsHandler
  | AdminHandler

datatype listener_tls = PlainHttp | TlsFiles tls_config | TlsAcme acme_manager

record listener =
  ls_addr :: string
  ls_handler :: endpoint_handler
  ls_tls :: listener_tls

definition listeners :: "env \<Rightarrow> engine \<Rightarrow> tls_error + listener list" where
  "listeners ev e =
     (let cfg = en_cfg e; l = cf_listen cfg;
          acme = map_option new_autocert_manager (cf_acme cfg);
          proxy = \<lparr>ls_addr = li_proxy l,
                   ls_handler = (case acme of None \<Rightarrow> ProxyHandler | Some m \<Rightarrow> AcmeThenProxy m),
                   ls_tls = PlainHttp\<rparr>;
          metrics = \<lparr>ls_addr = li_metrics l, ls_handler = MetricsHandler, ls_tls = PlainHttp\<rparr>;
          admin = (if li_admin l \<noteq> ''''
                   then [\<lparr>ls_addr = li_admin l, ls_handler = AdminHandler, ls_tls = PlainHttp\<rparr>] else []);
          tls = (if li_proxy_tls l = '''' then Inr []
                 else case acme of
                     Some m \<Rightarrow> Inr [\<lparr>ls_addr = li_proxy_tls l, ls_handler = ProxyHandler, ls_tls = TlsAcme m\<rparr>]
                   | None \<Rightarrow>
                       (case build_front_tls (ev_files ev) (cf_proxy_tls cfg) of
                          Inl err \<Rightarrow> Inl err
                        | Inr tc \<Rightarrow> Inr [\<lparr>ls_addr = li_proxy_tls l, ls_handler = ProxyHandler, ls_tls = TlsFiles tc\<rparr>]))
      in (case tls of Inl err \<Rightarrow> Inl err | Inr ts \<Rightarrow> Inr ([proxy, metrics] @ admin @ ts)))"

text \<open>The admin server the engine builds; its \<^verbatim>\<open>Reload\<close> acts on the shared world.\<close>

definition engine_server ::
  "env \<Rightarrow> engine \<Rightarrow> (string \<Rightarrow> bool option option) \<Rightarrow> (string \<Rightarrow> backend_dto option) \<Rightarrow> engine_error server" where
  "engine_server ev e decode_health decode_backend =
     new_server True
       \<lparr>ao_token = en_token e,
        ao_reload = Some (\<lambda>w. let (err, e') = reload ev (e\<lparr>en_world := w\<rparr>) in (err, en_world e'))\<rparr>
       decode_health decode_backend (ev_parse_url ev)"

section \<open>Facts about the building blocks\<close>

lemma store_at_get: "store_at n bs h r = (if n \<le> r \<and> r < n + length bs then bs ! (r - n) else h r)"
proof (induction bs arbitrary: n h)
  case (Cons b bs)
  show ?case unfolding store_at.simps Cons.IH by (auto simp: nth_Cons' not_le less_Suc_eq)
qed auto

lemma store_at_new: "List.map (store_at n bs h) [n..<n + length bs] = bs"
  by (rule nth_equalityI) (simp_all add: store_at_get)

lemma store_at_old: "r < n \<Longrightarrow> store_at n bs h r = h r"
  by (simp add: store_at_get)

lemma build_base_strategy_safe:
  "build_base_strategy name a = Inr s \<Longrightarrow> callable s \<and> unfiltered s"
  by (auto simp: build_base_strategy_def parse_strategy_def new_cost_bounded_def
      new_sticky_by_cloud_def Let_def split: if_splits)

lemma hash_from_request_valid: "valid_sticky_hash s \<longleftrightarrow> (\<exists>hash cn. hash_from_request s = Inr (hash, cn)
     \<and> (hash = HashRemoteAddr \<or> (\<exists>n. n \<noteq> '''' \<and> hash = HashHeader n \<or> n \<noteq> '''' \<and> hash = HashCookie n)))"
proof -
  have drop: "drop n s = '''' \<longleftrightarrow> length s \<le> n" for n by simp
  consider "s = ''remote_addr''" | "s \<noteq> ''remote_addr''" "has_prefix ''header:'' s"
    | "s \<noteq> ''remote_addr''" "\<not> has_prefix ''header:'' s" by blast
  then show ?thesis
  proof cases
    case 1
    then show ?thesis by (simp add: hash_from_request_def valid_sticky_hash_def)
  next
    case 2
    then obtain r where r: "s = ''header:'' @ r" by (auto simp: has_prefix_iff)
    show ?thesis unfolding r by (simp add: hash_from_request_def valid_sticky_hash_def has_prefix_def trim_prefix_def)
  next
    case 3
    then show ?thesis
      by (auto simp: hash_from_request_def valid_sticky_hash_def has_prefix_def trim_prefix_def)
  qed
qed

lemma build_strategy_callable: "build_strategy cfg a = Inr (s, cn) \<Longrightarrow> callable s"
  by (auto simp: build_strategy_def new_kind_aware_def new_sticky_by_cloud_def Let_def
      dest: build_base_strategy_safe split: sum.splits option.splits prod.splits)


section \<open>Starting\<close>

definition idle :: "backend \<Rightarrow> bool" where
  "idle b \<longleftrightarrow> bk_healthy b \<and> bk_inflight b = 0 \<and> bk_latency_ns b = 0"

lemma build_backends_valid:
  assumes "\<forall>b \<in> set bs. backend_valid parse_url b"
  shows "\<exists>out. build_backends parse_url bs = Inr out"
  using assms by (induction bs) (auto simp: backend_valid_def)

lemma build_backends_Inr:
  "build_backends parse_url bs = Inr out \<Longrightarrow> List.map bk_name out = List.map cb_name bs
     \<and> List.map bk_weight out = List.map cb_weight bs \<and> List.map bk_cloud out = List.map cb_cloud bs
     \<and> List.map bk_kind out = List.map cb_kind bs \<and> list_all idle out"
  by (induction bs arbitrary: out)
    (auto simp: with_kind_def new_backend_def idle_def split: option.splits sum.splits)

lemma new_pool_ok:
  assumes "distinct (List.map bk_name bs)" and "pl_all p = [n..<n + length bs]"
  shows "pool_ok (store_at n bs h) p"
proof -
  have "List.map (\<lambda>r. bk_name (store_at n bs h r)) [n..<n + length bs]
      = List.map bk_name (List.map (store_at n bs h) [n..<n + length bs])" by simp
  with assms show ?thesis by (simp only: pool_ok_def store_at_new)
qed

lemma build_strategy_known:
  assumes "config_valid parse_url cfg"
    and "build_base_strategy (case cf_sticky cfg of None \<Rightarrow> cf_strategy cfg | Some st \<Rightarrow> st_fallback_strategy st) a = Inr base"
  shows "\<exists>s cn. build_strategy cfg a = Inr (s, cn)"
proof (cases "cf_sticky cfg")
  case None
  with assms(2) show ?thesis by (simp add: build_strategy_def)
next
  case (Some st)
  with assms(1) have "valid_sticky_hash (st_hash st)" by (simp add: config_valid_def blocks_valid_def)
  then obtain hash cn where "hash_from_request (st_hash st) = Inr (hash, cn)"
    using hash_from_request_valid by blast
  with Some assms(2) show ?thesis by (simp add: build_strategy_def)
qed

lemma tls_configs_error: "tls_configs fs bs m = Inl err \<Longrightarrow> \<exists>n x. err = BackendTls n x"
  by (induction fs bs m rule: tls_configs.induct) (auto split: option.splits sum.splits)

lemma apply_backend_tls_cases:
  "(\<exists>n x. apply_backend_tls fs bs ph = (Some (BackendTls n x), ph))
   \<or> (\<exists>configs. apply_backend_tls fs bs ph = (None, set_tls_by_backend (Some configs) ph))"
  using tls_configs_error [of fs bs Map.empty] by (auto simp: apply_backend_tls_def split: sum.splits)

lemma new_engine_world:
  assumes "fst (new_engine ev cfg path) = Inr e"
  shows "\<exists>bs acc s cn a ph. build_backends (ev_parse_url ev) (cf_backends cfg) = Inr bs
       \<and> build_strategy cfg a = Inr (s, cn) \<and> en_world e = new_world bs acc s ph
       \<and> ph_metrics ph \<and> ph_proxies ph = Map.empty"
proof -
  let ?acc = "build_accountant (cf_cost cfg)"
  let ?a = "if ?acc = None then None else Some 0"
  obtain tracer where t: "init_tracing (ev_parse_url ev) (ev_trace ev) (cf_tracing cfg) ''openvcc'' = Inr tracer"
    using assms by (auto simp: new_engine_def split: sum.splits)
  obtain bs where bs: "build_backends (ev_parse_url ev) (cf_backends cfg) = Inr bs"
    using assms t by (auto simp: new_engine_def split: sum.splits)
  obtain s cn where s: "build_strategy cfg ?a = Inr (s, cn)"
    using assms t bs by (cases "build_strategy cfg ?a") (auto simp: new_engine_def Let_def)
  obtain configs where tls: "apply_backend_tls (ev_files ev) (cf_backends cfg) (new_handler True (cf_proxy cfg))
      = (None, set_tls_by_backend (Some configs) (new_handler True (cf_proxy cfg)))"
    using assms t bs s apply_backend_tls_cases [of "ev_files ev" "cf_backends cfg" "new_handler True (cf_proxy cfg)"]
    by (auto simp: new_engine_def Let_def)
  let ?ph0 = "set_accountant ?a (set_tls_by_backend (Some configs) (new_handler True (cf_proxy cfg)))"
  define ph where "ph = (case cf_sticky cfg of None \<Rightarrow> ?ph0 | Some k \<Rightarrow> set_sticky_cookie cn (st_cookie_ttl k) ?ph0)"
  have "ph_metrics ph \<and> ph_proxies ph = Map.empty"
    by (simp add: ph_def set_tls_by_backend_def set_accountant_def set_sticky_cookie_def new_handler_def
        split: option.splits)
  moreover have "en_world e = new_world bs ?acc s ph"
    using assms unfolding new_engine_def t sum.case bs Let_def s prod.case tls option.case
      ph_def [symmetric] fst_conv by auto
  ultimately show ?thesis using bs s by blast
qed

lemma started_engine:
  assumes "config_valid (ev_parse_url ev) cfg" and "fst (new_engine ev cfg path) = Inr e"
  shows "world_ok (en_world e) \<and> callable (pl_strategy (wo_pool (en_world e)))
       \<and> List.map (\<lambda>r. bk_name (wo_heap (en_world e) r)) (pl_all (wo_pool (en_world e)))
           = List.map cb_name (cf_backends cfg)
       \<and> (\<forall>r < wo_next (en_world e). idle (wo_heap (en_world e) r) \<and> r \<in> set (pl_all (wo_pool (en_world e))))
       \<and> ph_proxies (wo_handler (en_world e)) = Map.empty \<and> ph_metrics (wo_handler (en_world e))"
proof -
  obtain bs acc s cn a ph where bs: "build_backends (ev_parse_url ev) (cf_backends cfg) = Inr bs"
    and s: "build_strategy cfg a = Inr (s, cn)" and w: "en_world e = new_world bs acc s ph"
    and ph: "ph_metrics ph" "ph_proxies ph = Map.empty"
    using new_engine_world [OF assms(2)] by blast
  have names: "List.map bk_name bs = List.map cb_name (cf_backends cfg)" and all_idle: "list_all idle bs"
    using build_backends_Inr [OF bs] by simp_all
  have "distinct (List.map bk_name bs)" using assms(1) by (simp add: names config_valid_def)
  from new_pool_ok [OF this, of "wo_pool (en_world e)" 0] have "world_ok (en_world e)"
    by (simp add: world_ok_def w new_world_def new_pool_def)
  moreover have "List.map (wo_heap (en_world e)) (pl_all (wo_pool (en_world e))) = bs"
    using store_at_new [of 0 bs] by (simp add: w new_world_def new_pool_def)
  then have "List.map bk_name (List.map (wo_heap (en_world e)) (pl_all (wo_pool (en_world e))))
      = List.map bk_name bs" by (rule arg_cong)
  moreover have "\<forall>r < wo_next (en_world e). idle (wo_heap (en_world e) r) \<and> r \<in> set (pl_all (wo_pool (en_world e)))"
    using all_idle by (simp add: w new_world_def new_pool_def store_at_get list_all_length)
  moreover have "callable (pl_strategy (wo_pool (en_world e)))"
    using build_strategy_callable [OF s] by (simp add: w new_world_def new_pool_def)
  moreover have "ph_proxies (wo_handler (en_world e)) = Map.empty" "ph_metrics (wo_handler (en_world e))"
    using ph by (simp_all add: w new_world_def)
  ultimately show ?thesis using names by (simp add: comp_def)
qed

text \<open>
  C22: A configuration that loads also starts, provided its strategy name is one the engine
  knows, tracing starts and the backends' TLS files load: validation and construction
  agree on everything else.  The started engine has a well-formed pool with all the
  configured backends, healthy and idle, a strategy that cannot panic and no cached proxy.
\<close>

theorem accepted_config_starts:
  assumes "engine_load ev path = Inr cfg"
    and "\<forall>a. \<exists>base. build_base_strategy (case cf_sticky cfg of None \<Rightarrow> cf_strategy cfg
                 | Some st \<Rightarrow> st_fallback_strategy st) a = Inr base"
    and "init_tracing (ev_parse_url ev) (ev_trace ev) (cf_tracing cfg) ''openvcc'' = Inr tracer"
    and "tls_configs (ev_files ev) (cf_backends cfg) Map.empty = Inr configs"
  shows "\<exists>e. fst (new_engine ev cfg path) = Inr e \<and> world_ok (en_world e)
           \<and> callable (pl_strategy (wo_pool (en_world e)))
           \<and> List.map (\<lambda>r. bk_name (wo_heap (en_world e) r)) (pl_all (wo_pool (en_world e)))
               = List.map cb_name (cf_backends cfg)
           \<and> (\<forall>r \<in> set (pl_all (wo_pool (en_world e))). idle (wo_heap (en_world e) r))
           \<and> ph_proxies (wo_handler (en_world e)) = Map.empty"
proof -
  have valid: "config_valid (ev_parse_url ev) cfg"
    using loaded_valid assms(1) unfolding engine_load_def by blast
  obtain bs where bs: "build_backends (ev_parse_url ev) (cf_backends cfg) = Inr bs"
    using valid build_backends_valid [of "cf_backends cfg" "ev_parse_url ev"] by (auto simp: config_valid_def)
  define a :: "acc_ref option" where "a = (if build_accountant (cf_cost cfg) = None then None else Some 0)"
  obtain s cn where s: "build_strategy cfg a = Inr (s, cn)"
    using build_strategy_known [OF valid] assms(2) by blast
  have tls: "apply_backend_tls (ev_files ev) (cf_backends cfg) ph = (None, set_tls_by_backend (Some configs) ph)" for ph
    using assms(4) by (simp add: apply_backend_tls_def)
  have "\<exists>e. fst (new_engine ev cfg path) = Inr e"
    unfolding new_engine_def assms(3) sum.case bs Let_def a_def [symmetric] s prod.case tls option.case
      fst_conv by blast
  then obtain e where e: "fst (new_engine ev cfg path) = Inr e" by blast
  from started_engine [OF valid e] have "\<forall>r \<in> set (pl_all (wo_pool (en_world e))). r < wo_next (en_world e)"
    by (simp add: world_ok_def)
  with e started_engine [OF valid e] show ?thesis by blast
qed

text \<open>
  The strategy name is not part of validation.  For every valid configuration without a
  sticky block and every name the engine does not know, the configuration with that name
  is accepted by validation as well, yet the engine does not start, and a trace provider
  already started is not shut down.
\<close>

theorem strategy_not_validated:
  assumes "config_valid parse_url c" and "cf_sticky c = None" and "parse_strategy name = Inl err"
    and "init_tracing (ev_parse_url ev) (ev_trace ev) (cf_tracing c) ''openvcc'' = Inr tracer"
    and "build_backends (ev_parse_url ev) (cf_backends c) = Inr bs"
  shows "validate parse_url (c\<lparr>cf_strategy := name\<rparr>) = []
       \<and> fst (new_engine ev (c\<lparr>cf_strategy := name\<rparr>) path) = Inl (BadStrategy err)
       \<and> (tracer \<noteq> None \<longrightarrow> snd (new_engine ev (c\<lparr>cf_strategy := name\<rparr>) path) = TracerLeaked)"
proof -
  have "config_valid parse_url (c\<lparr>cf_strategy := name\<rparr>)"
    using assms(1) by (simp add: config_valid_def blocks_valid_def)
  then have "validate parse_url (c\<lparr>cf_strategy := name\<rparr>) = []" by (simp only: validate_Nil)
  moreover have "new_engine ev (c\<lparr>cf_strategy := name\<rparr>) path = (Inl (BadStrategy err), fate tracer TracerLeaked)"
    using assms(2-5) by (simp add: new_engine_def build_strategy_def build_base_strategy_def)
  ultimately show ?thesis by (simp add: fate_def)
qed

section \<open>Reloading\<close>

text \<open>The preparations of a reload that can fail before anything is changed.\<close>

definition prepares :: "env \<Rightarrow> engine \<Rightarrow> config \<Rightarrow> backend list \<Rightarrow> strategy \<Rightarrow> string \<Rightarrow> bool" where
  "prepares ev e cfg bs s cn \<longleftrightarrow> en_cfg_path e \<noteq> '''' \<and> engine_load ev (en_cfg_path e) = Inr cfg
     \<and> build_backends (ev_parse_url ev) (cf_backends cfg) = Inr bs
     \<and> build_strategy cfg (if build_accountant (cf_cost cfg) = None then None
                           else Some (wo_next_acc (en_world e))) = Inr (s, cn)"

definition swapped :: "engine \<Rightarrow> config \<Rightarrow> backend list \<Rightarrow> strategy \<Rightarrow> string \<Rightarrow> world" where
  "swapped e cfg bs s cn =
     (let w = en_world e; acc = build_accountant (cf_cost cfg) in
      swap_pool cfg bs s cn (if acc = None then None else Some (wo_next_acc w))
        (case acc of None \<Rightarrow> w
         | Some x \<Rightarrow> w\<lparr>wo_accounts := (wo_accounts w)(wo_next_acc w := x), wo_next_acc := Suc (wo_next_acc w)\<rparr>))"

lemma reload_prepared:
  assumes "prepares ev e cfg bs s cn"
  shows "reload ev e =
    (let (err, ph) = apply_backend_tls (ev_files ev) (cf_backends cfg) (wo_handler (swapped e cfg bs s cn))
     in (err, e\<lparr>en_accountant := if build_accountant (cf_cost cfg) = None then None
                                 else Some (wo_next_acc (en_world e)),
              en_world := (swapped e cfg bs s cn)\<lparr>wo_handler := ph\<rparr>\<rparr>))"
  using assms by (simp add: reload_def prepares_def swapped_def Let_def)

lemma reload_unprepared:
  assumes "\<not> (\<exists>cfg bs s cn. prepares ev e cfg bs s cn)"
  shows "snd (reload ev e) = e \<and> (\<exists>err. fst (reload ev e) = Some err \<and> (\<forall>n x. err \<noteq> BackendTls n x))"
proof -
  have bb: "build_backends p bs = Inl err \<Longrightarrow> err \<noteq> BackendTls n x" for p bs err n x
    by (induction bs) (auto split: option.splits sum.splits)
  have bst: "build_strategy cfg a = Inl err \<Longrightarrow> err \<noteq> BackendTls n x" for cfg a err n x
    by (auto simp: build_strategy_def build_base_strategy_def Let_def split: sum.splits option.splits if_splits prod.splits)
  let ?a = "\<lambda>cfg. if build_accountant (cf_cost cfg) = None then None else Some (wo_next_acc (en_world e))"
  consider "en_cfg_path e = []"
    | err where "en_cfg_path e \<noteq> []" "engine_load ev (en_cfg_path e) = Inl err"
    | cfg err where "en_cfg_path e \<noteq> []" "engine_load ev (en_cfg_path e) = Inr cfg"
        "build_backends (ev_parse_url ev) (cf_backends cfg) = Inl err"
    | cfg bs err where "en_cfg_path e \<noteq> []" "engine_load ev (en_cfg_path e) = Inr cfg"
        "build_backends (ev_parse_url ev) (cf_backends cfg) = Inr bs" "build_strategy cfg (?a cfg) = Inl err"
    using assms unfolding prepares_def by (metis old.sum.exhaust surj_pair)
  then show ?thesis
  proof cases
    case (4 cfg bs err)
    then show ?thesis using bst [OF 4(4)] by (simp add: reload_def Let_def)
  qed (use bb in \<open>simp_all add: reload_def\<close>)
qed

lemma forget_gone_frame:
  "ph_tls_by_backend (forget_gone h keep old ph) = ph_tls_by_backend ph"
  "ph_accountant (forget_gone h keep old ph) = ph_accountant ph"
  "ph_metrics (forget_gone h keep old ph) = ph_metrics ph"
  by (induction h keep old ph rule: forget_gone.induct) (simp_all add: forget_def)

lemma swap_pool_facts:
  "wo_heap (swap_pool cfg bs s cn a w) = store_at (wo_next w) bs (wo_heap w)"
  "wo_next (swap_pool cfg bs s cn a w) = wo_next w + length bs"
  "pl_all (wo_pool (swap_pool cfg bs s cn a w)) = [wo_next w..<wo_next w + length bs]"
  "pl_strategy (wo_pool (swap_pool cfg bs s cn a w)) = s"
  "wo_accounts (swap_pool cfg bs s cn a w) = wo_accounts w"
  "ph_tls_by_backend (wo_handler (swap_pool cfg bs s cn a w)) = ph_tls_by_backend (wo_handler w)"
  "ph_accountant (wo_handler (swap_pool cfg bs s cn a w)) = a"
  "ph_metrics (wo_handler (swap_pool cfg bs s cn a w)) = ph_metrics (wo_handler w)"
  by (cases "cf_sticky cfg"; simp add: swap_pool_def pool_replace_def Let_def forget_gone_frame
      set_accountant_def set_sticky_cookie_def)+

lemma swapped_facts:
  "wo_heap (swapped e cfg bs s cn) = store_at (wo_next (en_world e)) bs (wo_heap (en_world e))"
  "wo_next (swapped e cfg bs s cn) = wo_next (en_world e) + length bs"
  "pl_all (wo_pool (swapped e cfg bs s cn)) = [wo_next (en_world e)..<wo_next (en_world e) + length bs]"
  "pl_strategy (wo_pool (swapped e cfg bs s cn)) = s"
  "ph_tls_by_backend (wo_handler (swapped e cfg bs s cn)) = ph_tls_by_backend (wo_handler (en_world e))"
  "ph_metrics (wo_handler (swapped e cfg bs s cn)) = ph_metrics (wo_handler (en_world e))"
  by (simp_all add: swapped_def swap_pool_facts Let_def split: option.splits)

lemma prepares_facts:
  assumes "prepares ev e cfg bs s cn"
  shows "distinct (List.map bk_name bs)" and "List.map bk_name bs = List.map cb_name (cf_backends cfg)"
    and "list_all idle bs" and "callable s" and "bs \<noteq> []"
proof -
  have v: "config_valid (ev_parse_url ev) cfg"
    using assms loaded_valid unfolding prepares_def engine_load_def by blast
  have b: "build_backends (ev_parse_url ev) (cf_backends cfg) = Inr bs"
    using assms by (simp add: prepares_def)
  show n: "List.map bk_name bs = List.map cb_name (cf_backends cfg)" and "list_all idle bs"
    using build_backends_Inr [OF b] by simp_all
  show "distinct (List.map bk_name bs)" using v by (simp add: n config_valid_def)
  show "callable s" using assms build_strategy_callable unfolding prepares_def by blast
  have "cf_backends cfg \<noteq> []" using v by (simp add: config_valid_def)
  with n show "bs \<noteq> []" by (metis list.map_disc_iff)
qed

lemma swapped_ok:
  assumes "prepares ev e cfg bs s cn"
  shows "world_ok ((swapped e cfg bs s cn)\<lparr>wo_handler := ph\<rparr>)"
    and "List.map (wo_heap (swapped e cfg bs s cn)) (pl_all (wo_pool (swapped e cfg bs s cn))) = bs"
proof -
  let ?w = "swapped e cfg bs s cn"
  show "List.map (wo_heap ?w) (pl_all (wo_pool ?w)) = bs" by (simp only: swapped_facts store_at_new)
  have "pool_ok (store_at (wo_next (en_world e)) bs (wo_heap (en_world e))) (wo_pool ?w)"
    by (rule new_pool_ok [OF prepares_facts(1) [OF assms]]) (simp add: swapped_facts)
  then show "world_ok (?w\<lparr>wo_handler := ph\<rparr>)"
    by (simp add: world_ok_def swapped_facts)
qed

lemma reload_cases:
  obtains (unprepared) "snd (reload ev e) = e"
      "\<exists>err. fst (reload ev e) = Some err \<and> (\<forall>n x. err \<noteq> BackendTls n x)"
  | (prepared) cfg bs s cn where "prepares ev e cfg bs s cn"
  using reload_unprepared by blast

lemma prepared_outcomes:
  assumes "prepares ev e cfg bs s cn"
  obtains (ok) configs where "fst (reload ev e) = None"
      "en_world (snd (reload ev e)) = (swapped e cfg bs s cn)
         \<lparr>wo_handler := set_tls_by_backend (Some configs) (wo_handler (swapped e cfg bs s cn))\<rparr>"
  | (tls) n x where "fst (reload ev e) = Some (BackendTls n x)"
      "en_world (snd (reload ev e)) = swapped e cfg bs s cn"
proof -
  let ?w = "swapped e cfg bs s cn"
  from apply_backend_tls_cases [of "ev_files ev" "cf_backends cfg" "wo_handler ?w"] show thesis
  proof (elim disjE exE)
    fix n x assume "apply_backend_tls (ev_files ev) (cf_backends cfg) (wo_handler ?w) = (Some (BackendTls n x), wo_handler ?w)"
    with reload_prepared [OF assms] show thesis by (intro tls [of n x]) simp_all
  next
    fix configs
    assume "apply_backend_tls (ev_files ev) (cf_backends cfg) (wo_handler ?w)
        = (None, set_tls_by_backend (Some configs) (wo_handler ?w))"
    with reload_prepared [OF assms] show thesis by (intro ok [of configs]) simp_all
  qed
qed

lemma reload_success:
  assumes "reload ev e = (None, e')"
  shows "\<exists>cfg bs. engine_load ev (en_cfg_path e) = Inr cfg
       \<and> build_backends (ev_parse_url ev) (cf_backends cfg) = Inr bs
       \<and> List.map (wo_heap (en_world e')) (pl_all (wo_pool (en_world e'))) = bs
       \<and> list_all idle bs \<and> world_ok (en_world e')
       \<and> callable (pl_strategy (wo_pool (en_world e')))
       \<and> ph_proxies (wo_handler (en_world e')) = Map.empty
       \<and> (case ph_accountant (wo_handler (en_world e')) of None \<Rightarrow> cf_cost cfg = None
          | Some a \<Rightarrow> ac_tally (wo_accounts (en_world e') a) = Map.empty)
       \<and> (\<forall>r < wo_next (en_world e). wo_heap (en_world e') r = wo_heap (en_world e) r
            \<and> r \<notin> set (pl_all (wo_pool (en_world e'))))"
proof (cases rule: reload_cases [of ev e])
  case unprepared
  with assms show ?thesis by simp
next
  case (prepared cfg bs s cn)
  let ?w = "swapped e cfg bs s cn"
  obtain configs where e': "en_world e' = ?w\<lparr>wo_handler := set_tls_by_backend (Some configs) (wo_handler ?w)\<rparr>"
    by (rule prepared_outcomes [OF prepared]) (use assms in simp_all)
  have "engine_load ev (en_cfg_path e) = Inr cfg" "build_backends (ev_parse_url ev) (cf_backends cfg) = Inr bs"
    using prepared by (simp_all add: prepares_def)
  moreover have "List.map (wo_heap (en_world e')) (pl_all (wo_pool (en_world e'))) = bs"
    using swapped_ok(2) [OF prepared] by (simp add: e')
  moreover have "list_all idle bs" by (rule prepares_facts(3) [OF prepared])
  moreover have "world_ok (en_world e')" unfolding e' by (rule swapped_ok(1) [OF prepared])
  moreover have "callable (pl_strategy (wo_pool (en_world e')))"
    using prepares_facts(4) [OF prepared] by (simp add: e' swapped_facts)
  moreover have "ph_proxies (wo_handler (en_world e')) = Map.empty" by (simp add: e' set_tls_by_backend_def)
  moreover have "case ph_accountant (wo_handler (en_world e')) of None \<Rightarrow> cf_cost cfg = None
          | Some a \<Rightarrow> ac_tally (wo_accounts (en_world e') a) = Map.empty"
    by (cases "cf_cost cfg") (simp_all add: e' set_tls_by_backend_def swapped_def swap_pool_facts Let_def
        build_accountant_def new_accountant_def)
  moreover have "\<forall>r < wo_next (en_world e). wo_heap (en_world e') r = wo_heap (en_world e) r
            \<and> r \<notin> set (pl_all (wo_pool (en_world e')))"
    by (simp add: e' swapped_facts store_at_old)
  ultimately show ?thesis by blast
qed

text \<open>
  C18: A reload that succeeds puts exactly the backends of the configuration in file into
  the pool, as new objects that are healthy and idle, under a strategy that cannot panic
  and with no reverse proxy cached; the objects in-flight requests hold are untouched.  The
  egress accountant starts from nothing: what the old one had recorded is forgotten.
\<close>

theorem reload_swaps_pool:
  assumes "reload ev e = (None, e')"
  shows "\<exists>cfg bs. engine_load ev (en_cfg_path e) = Inr cfg
       \<and> build_backends (ev_parse_url ev) (cf_backends cfg) = Inr bs
       \<and> List.map (wo_heap (en_world e')) (pl_all (wo_pool (en_world e'))) = bs
       \<and> list_all idle bs \<and> world_ok (en_world e')
       \<and> callable (pl_strategy (wo_pool (en_world e')))
       \<and> ph_proxies (wo_handler (en_world e')) = Map.empty
       \<and> (case ph_accountant (wo_handler (en_world e')) of None \<Rightarrow> cf_cost cfg = None
          | Some a \<Rightarrow> ac_tally (wo_accounts (en_world e') a) = Map.empty)
       \<and> (\<forall>r < wo_next (en_world e). wo_heap (en_world e') r = wo_heap (en_world e) r
            \<and> r \<notin> set (pl_all (wo_pool (en_world e'))))"
  using assms by (rule reload_success)

text \<open>
  C21: A reload that fails before it gets to the TLS files, for an unreadable, undecodable
  or invalid file or an unknown strategy, leaves the engine exactly as it was.
\<close>

theorem reload_failure_harmless:
  assumes "reload ev e = (Some err, e')" and "\<forall>n x. err \<noteq> BackendTls n x"
  shows "e' = e"
proof (cases rule: reload_cases [of ev e])
  case unprepared
  with assms show ?thesis by simp
next
  case (prepared cfg bs s cn)
  then show ?thesis by (rule prepared_outcomes) (use assms in simp_all)
qed

text \<open>
  C36: A reload that fails on a backend's TLS files reports the error but has already
  switched: the pool consists of the new configuration's backends, all of them fresh
  objects, while the TLS lookup is still the previous one, so new backends are dialled
  without their TLS configuration.
\<close>

theorem reload_tls_failure_half_applied:
  assumes "reload ev e = (Some (BackendTls n x), e')"
  shows "\<exists>cfg. engine_load ev (en_cfg_path e) = Inr cfg
       \<and> List.map (\<lambda>r. bk_name (wo_heap (en_world e') r)) (pl_all (wo_pool (en_world e')))
           = List.map cb_name (cf_backends cfg)
       \<and> (\<forall>r \<in> set (pl_all (wo_pool (en_world e'))). wo_next (en_world e) \<le> r)
       \<and> pl_all (wo_pool (en_world e')) \<noteq> []
       \<and> ph_tls_by_backend (wo_handler (en_world e')) = ph_tls_by_backend (wo_handler (en_world e))"
proof (cases rule: reload_cases [of ev e])
  case unprepared
  with assms show ?thesis by simp
next
  case (prepared cfg bs s cn)
  let ?w = "swapped e cfg bs s cn"
  have w: "en_world e' = ?w"
    by (rule prepared_outcomes [OF prepared]) (use assms in simp_all)
  have "List.map (\<lambda>r. bk_name (wo_heap ?w r)) (pl_all (wo_pool ?w))
      = List.map bk_name (List.map (wo_heap ?w) (pl_all (wo_pool ?w)))" by simp
  also have "\<dots> = List.map bk_name bs" by (simp only: swapped_ok(2) [OF prepared])
  finally have "List.map (\<lambda>r. bk_name (wo_heap ?w r)) (pl_all (wo_pool ?w)) = List.map bk_name bs" .
  then have "List.map (\<lambda>r. bk_name (wo_heap ?w r)) (pl_all (wo_pool ?w)) = List.map cb_name (cf_backends cfg)"
    by (simp only: prepares_facts(2) [OF prepared])
  moreover have "engine_load ev (en_cfg_path e) = Inr cfg" using prepared by (simp add: prepares_def)
  ultimately show ?thesis using prepares_facts(5) [OF prepared] by (simp add: w swapped_facts)
qed

section \<open>What is listened on\<close>

text \<open>
  For a valid configuration the engine never fails to listen for want of front TLS
  files in the configuration; it exposes the admin API exactly when an admin address is
  given, and never over the TLS address; it serves TLS exactly when a TLS address is
  given, there serves only the proxy, and with ACME only for a non-empty list of domains.
\<close>

theorem listeners_match_config:
  assumes "config_valid parse_url (en_cfg e)"
  shows "listeners ev e \<noteq> Inl FrontFilesRequired
       \<and> (\<forall>ls. listeners ev e = Inr ls \<longrightarrow>
            ((\<exists>l \<in> set ls. ls_handler l = AdminHandler) \<longleftrightarrow> li_admin (cf_listen (en_cfg e)) \<noteq> '''')
          \<and> ((\<exists>l \<in> set ls. ls_tls l \<noteq> PlainHttp) \<longleftrightarrow> li_proxy_tls (cf_listen (en_cfg e)) \<noteq> '''')
          \<and> (\<forall>l \<in> set ls. ls_tls l \<noteq> PlainHttp \<longrightarrow>
               ls_handler l = ProxyHandler \<and> ls_addr l = li_proxy_tls (cf_listen (en_cfg e)))
          \<and> (\<forall>l \<in> set ls. \<forall>m. ls_tls l = TlsAcme m \<longrightarrow> am_hosts m \<noteq> []))"
proof -
  have v: "blocks_valid (en_cfg e)" using assms by (simp add: config_valid_def)
  let ?l = "cf_listen (en_cfg e)"
  show ?thesis
  proof (cases "li_proxy_tls ?l = ''''")
    case True
    then show ?thesis by (auto simp: listeners_def Let_def split: option.splits)
  next
    case False
    show ?thesis
    proof (cases "cf_acme (en_cfg e)")
      case (Some a)
      then have "am_domains a \<noteq> []" using v by (simp add: blocks_valid_def)
      with False Some show ?thesis
        by (auto simp: listeners_def Let_def new_autocert_manager_def)
    next
      case None
      with False v obtain t where t: "cf_proxy_tls (en_cfg e) = Some t" "ft_cert_file t \<noteq> ''''" "ft_key_file t \<noteq> ''''"
        by (auto simp: blocks_valid_def)
      have "build_front_tls (ev_files ev) (Some t) \<noteq> Inl FrontFilesRequired"
        using t by (simp add: build_front_tls_def Let_def split: option.splits)
      with False None t(1) show ?thesis
        by (cases "build_front_tls (ev_files ev) (Some t)") (auto simp: listeners_def Let_def)
    qed
  qed
qed

end
