(* ===== verification/Reloading.thy ===== *)
theory Reloading
  imports Engine
begin

text \<open>
  \<^verbatim>\<open>Reload\<close> of \<^verbatim>\<open>internal/engine/engine.go\<close> at the grain at which other goroutines see it.
  Nothing serializes the body of a reload: accountant, cookie, pool, cached proxies and TLS
  lookup are changed under separate locks, one after another.  A \<open>reload_job\<close> is a reload
  between two of these changes.  Run alone a job does what \<open>reload\<close> does in one step; two
  jobs that overlap can leave a mixture of both.
\<close>

section \<open>Jobs\<close>

datatype reload_pc =
    AtAccountant
  | AtCookie
  | AtSnapshot
  | AtReplace "string list"
  | AtForget "string list"
  | AtTls
  | AtEnd "engine_error option"

text \<open>The local variables of \<^verbatim>\<open>Reload\<close> that outlive the preparations.\<close>

record reload_job =
  rj_pc :: reload_pc
  rj_cfg :: config
  rj_backends :: "bref list"
  rj_accountant :: "acc_ref option"
  rj_strategy :: strategy
  rj_cookie :: string

text \<open>The fallible preparations, with the objects they allocate.\<close>

definition reload_begin :: "env \<Rightarrow> engine \<Rightarrow> (engine_error + reload_job) \<times> engine" where
  "reload_begin ev e =
     (if en_cfg_path e = '''' then (Inl NoConfigPath, e)
      else (case engine_load ev (en_cfg_path e) of
          Inl err \<Rightarrow> (Inl (LoadFailed err), e)
        | Inr cfg \<Rightarrow>
            (case build_backends (ev_parse_url ev) (cf_backends cfg) of
               Inl err \<Rightarrow> (Inl err, e)
             | Inr bs \<Rightarrow>
                 let w = en_world e;
                     acc = build_accountant (cf_cost cfg);
                     a = (if acc = None then None else Some (wo_next_acc w))
                 in (case build_strategy cfg a of
                       Inl err \<Rightarrow> (Inl err, e)
                     | Inr (s, cookie_name) \<Rightarrow>
                         let w = (case acc of None \<Rightarrow> w
                                  | Some x \<Rightarrow> w\<lparr>wo_accounts := (wo_accounts w)(wo_next_acc w := x),
                                               wo_next_acc := Suc (wo_next_acc w)\<rparr>)
                         in (Inr \<lparr>rj_pc = AtAccountant, rj_cfg = cfg,
                                  rj_backends = [wo_next w ..< wo_next w + length bs],
                                  rj_accountant = a, rj_strategy = s, rj_cookie = cookie_name\<rparr>,
                             e\<lparr>en_world := w\<lparr>wo_heap := store_at (wo_next w) bs (wo_heap w),
                                             wo_next := wo_next w + length bs\<rparr>\<rparr>)))))"

abbreviation on_handler :: "(handler \<Rightarrow> handler) \<Rightarrow> engine \<Rightarrow> engine" where
  "on_handler f e \<equiv> e\<lparr>en_world := (en_world e)\<lparr>wo_handler := f (wo_handler (en_world e))\<rparr>\<rparr>"

definition job_step :: "env \<Rightarrow> reload_job \<Rightarrow> engine \<Rightarrow> reload_job \<times> engine" where
  "job_step ev j e =
     (case rj_pc j of
        AtAccountant \<Rightarrow>
          (j\<lparr>rj_pc := AtCookie\<rparr>, on_handler (set_accountant (rj_accountant j)) (e\<lparr>en_accountant := rj_accountant j\<rparr>))
      | AtCookie \<Rightarrow>
          (j\<lparr>rj_pc := AtSnapshot\<rparr>,
           on_handler (case cf_sticky (rj_cfg j) of
                         Some k \<Rightarrow> set_sticky_cookie (rj_cookie j) (st_cookie_ttl k)
                       | None \<Rightarrow> set_sticky_cookie '''' 0) e)
      | AtSnapshot \<Rightarrow>
          (j\<lparr>rj_pc := AtReplace (List.map (\<lambda>r. bk_name (wo_heap (en_world e) r)) (pool_backends (wo_pool (en_world e))))\<rparr>, e)
      | AtReplace old \<Rightarrow>
          (j\<lparr>rj_pc := AtForget (filter (\<lambda>n. n \<notin> set (List.map (\<lambda>r. bk_name (wo_heap (en_world e) r)) (rj_backends j))) old)\<rparr>,
           e\<lparr>en_world := (en_world e)\<lparr>wo_pool := pool_replace (rj_backends j) (Some (rj_strategy j)) (wo_pool (en_world e))\<rparr>\<rparr>)
      | AtForget (n # ns) \<Rightarrow> (j\<lparr>rj_pc := AtForget ns\<rparr>, on_handler (forget n) e)
      | AtForget [] \<Rightarrow> (j\<lparr>rj_pc := AtTls\<rparr>, e)
      | AtTls \<Rightarrow>
          (let (err, ph) = apply_backend_tls (ev_files ev) (cf_backends (rj_cfg j)) (wo_handler (en_world e))
           in (j\<lparr>rj_pc := AtEnd err\<rparr>, on_handler (\<lambda>_. ph) e))
      | AtEnd err \<Rightarrow> (j, e))"

text \<open>\<open>n\<close> steps of a job with nothing in between.\<close>

fun job_steps :: "nat \<Rightarrow> env \<Rightarrow> reload_job \<Rightarrow> engine \<Rightarrow> reload_job \<times> engine" where
  "job_steps 0 ev j e = (j, e)"
| "job_steps (Suc n) ev j e = (case job_step ev j e of (j, e) \<Rightarrow> job_steps n ev j e)"

lemma job_steps_add: "job_steps (m + n) ev j e = (case job_steps m ev j e of (j, e) \<Rightarrow> job_steps n ev j e)"
  by (induction m arbitrary: j e) (simp_all add: split_beta)

lemma job_steps_forget:
  "rj_pc j = AtForget ns \<Longrightarrow>
     job_steps (Suc (length ns)) ev j e = (j\<lparr>rj_pc := AtTls\<rparr>, on_handler (fold forget ns) e)"
proof (induction ns arbitrary: j e)
  case (Cons n ns)
  have "job_steps (Suc (length (n # ns))) ev j e
      = job_steps (Suc (length ns)) ev (j\<lparr>rj_pc := AtForget ns\<rparr>) (on_handler (forget n) e)"
    using Cons.prems by (simp add: job_step_def)
  also have "\<dots> = ((j\<lparr>rj_pc := AtForget ns\<rparr>)\<lparr>rj_pc := AtTls\<rparr>, on_handler (fold forget ns) (on_handler (forget n) e))"
    by (rule Cons.IH) simp
  finally show ?case by simp
qed (simp add: job_step_def)

lemma forget_gone_fold:
  "forget_gone h keep old ph = fold forget (filter (\<lambda>n. n \<notin> keep) (List.map (\<lambda>r. bk_name (h r)) old)) ph"
  by (induction h keep old ph rule: forget_gone.induct) simp_all

section \<open>A job on its own\<close>

lemma reload_begin_Inl:
  assumes "reload_begin ev e = (Inl err, e1)"
  shows "e1 = e \<and> reload ev e = (Some err, e)"
  using assms by (auto simp: reload_begin_def reload_def Let_def split: if_splits sum.splits prod.splits)

lemma reload_begin_Inr:
  assumes "reload_begin ev e = (Inr j, e1)"
  obtains bs where "prepares ev e (rj_cfg j) bs (rj_strategy j) (rj_cookie j)" "rj_pc j = AtAccountant"
    "rj_backends j = [wo_next (en_world e)..<wo_next (en_world e) + length bs]"
    "rj_accountant j = (if build_accountant (cf_cost (rj_cfg j)) = None then None else Some (wo_next_acc (en_world e)))"
    "e1 = e\<lparr>en_world := (en_world e)
       \<lparr>wo_heap := store_at (wo_next (en_world e)) bs (wo_heap (en_world e)),
        wo_next := wo_next (en_world e) + length bs,
        wo_accounts := (case build_accountant (cf_cost (rj_cfg j)) of None \<Rightarrow> wo_accounts (en_world e)
                        | Some x \<Rightarrow> (wo_accounts (en_world e))(wo_next_acc (en_world e) := x)),
        wo_next_acc := (if build_accountant (cf_cost (rj_cfg j)) = None then wo_next_acc (en_world e)
                        else Suc (wo_next_acc (en_world e)))\<rparr>\<rparr>"
proof -
  obtain cfg where cfg: "en_cfg_path e \<noteq> ''''" "engine_load ev (en_cfg_path e) = Inr cfg"
    using assms by (auto simp: reload_begin_def split: if_splits sum.splits)
  obtain bs where bs: "build_backends (ev_parse_url ev) (cf_backends cfg) = Inr bs"
    using assms cfg by (auto simp: reload_begin_def split: sum.splits)
  let ?a = "if build_accountant (cf_cost cfg) = None then None else Some (wo_next_acc (en_world e))"
  obtain s cn where s: "build_strategy cfg ?a = Inr (s, cn)"
    using assms cfg bs by (cases "build_strategy cfg ?a") (auto simp: reload_begin_def Let_def)
  have j: "rj_cfg j = cfg" "rj_strategy j = s" "rj_cookie j = cn" "rj_pc j = AtAccountant"
    "rj_accountant j = ?a" "rj_backends j = [wo_next (en_world e)..<wo_next (en_world e) + length bs]"
    using assms cfg bs s by (auto simp: reload_begin_def Let_def split: option.splits)
  show thesis
  proof (rule that)
    show "prepares ev e (rj_cfg j) bs (rj_strategy j) (rj_cookie j)"
      using cfg bs s by (simp add: prepares_def j)
  qed (use assms cfg bs s j in \<open>auto simp: reload_begin_def Let_def split: option.splits\<close>)
qed

lemma job_runs:
  assumes "reload_begin ev e = (Inr j, e1)"
  shows "\<exists>n. job_steps n ev j e1 = (j\<lparr>rj_pc := AtEnd (fst (reload ev e))\<rparr>, snd (reload ev e))"
proof (rule reload_begin_Inr [OF assms])
  fix bs
  let ?w = "en_world e"
  let ?cookie = "case cf_sticky (rj_cfg j) of Some k \<Rightarrow> set_sticky_cookie (rj_cookie j) (st_cookie_ttl k)
                        | None \<Rightarrow> set_sticky_cookie '''' 0"
  assume prep: "prepares ev e (rj_cfg j) bs (rj_strategy j) (rj_cookie j)" and pc: "rj_pc j = AtAccountant"
    and news: "rj_backends j = [wo_next ?w..<wo_next ?w + length bs]"
    and a: "rj_accountant j = (if build_accountant (cf_cost (rj_cfg j)) = None then None else Some (wo_next_acc ?w))"
    and e1: "e1 = e\<lparr>en_world := ?w
       \<lparr>wo_heap := store_at (wo_next ?w) bs (wo_heap ?w), wo_next := wo_next ?w + length bs,
        wo_accounts := (case build_accountant (cf_cost (rj_cfg j)) of None \<Rightarrow> wo_accounts ?w
                        | Some x \<Rightarrow> (wo_accounts ?w)(wo_next_acc ?w := x)),
        wo_next_acc := (if build_accountant (cf_cost (rj_cfg j)) = None then wo_next_acc ?w
                        else Suc (wo_next_acc ?w))\<rparr>\<rparr>"
  let ?old = "List.map (\<lambda>r. bk_name (store_at (wo_next ?w) bs (wo_heap ?w) r)) (pool_backends (wo_pool ?w))"
  define gone where "gone = filter (\<lambda>n. n \<notin> set (List.map bk_name bs)) ?old"
  define e4 where "e4 = e1\<lparr>en_accountant := rj_accountant j, en_world := (en_world e1)
        \<lparr>wo_handler := ?cookie (set_accountant (rj_accountant j) (wo_handler ?w)),
         wo_pool := pool_replace (rj_backends j) (Some (rj_strategy j)) (wo_pool ?w)\<rparr>\<rparr>"
  have "List.map (\<lambda>r. bk_name (store_at (wo_next ?w) bs (wo_heap ?w) r)) (rj_backends j)
      = List.map bk_name (List.map (store_at (wo_next ?w) bs (wo_heap ?w)) [wo_next ?w..<wo_next ?w + length bs])"
    by (simp add: news)
  then have names: "List.map (\<lambda>r. bk_name (store_at (wo_next ?w) bs (wo_heap ?w) r)) (rj_backends j) = List.map bk_name bs"
    by (simp only: store_at_new)
  have four: "job_steps 4 ev j e1 = (j\<lparr>rj_pc := AtForget gone\<rparr>, e4)"
    by (cases "cf_sticky (rj_cfg j)") (simp_all add: eval_nat_numeral job_step_def pc e1 gone_def e4_def names)
  define e5 where "e5 = on_handler (fold forget gone) e4"
  have fg: "job_steps (Suc (length gone)) ev (j\<lparr>rj_pc := AtForget gone\<rparr>) e4 = (j\<lparr>rj_pc := AtTls\<rparr>, e5)"
    unfolding e5_def using job_steps_forget [of "j\<lparr>rj_pc := AtForget gone\<rparr>" gone ev e4] by (simp del: job_steps.simps)
  have "job_steps (4 + (Suc (length gone) + 1)) ev j e1 = job_step ev (j\<lparr>rj_pc := AtTls\<rparr>) e5"
    unfolding job_steps_add four prod.case fg by (simp add: split_beta)
  moreover have "en_world e5 = swapped e (rj_cfg j) bs (rj_strategy j) (rj_cookie j)"
    by (cases "cf_sticky (rj_cfg j)"; cases "build_accountant (cf_cost (rj_cfg j))")
      (simp_all add: e5_def e4_def e1 swapped_def swap_pool_def Let_def forget_gone_fold gone_def news a)
  moreover have "e5 = e\<lparr>en_accountant := rj_accountant j, en_world := en_world e5\<rparr>"
    by (simp add: e5_def e4_def e1)
  ultimately have "job_steps (4 + (Suc (length gone) + 1)) ev j e1
      = (j\<lparr>rj_pc := AtEnd (fst (reload ev e))\<rparr>, snd (reload ev e))"
    unfolding reload_prepared [OF prep]
    by (simp add: job_step_def split_beta a [symmetric])
  then show ?thesis by blast
qed


section \<open>Two jobs that overlap\<close>

lemma job_step_frame:
  "rj_backends (fst (job_step ev j e)) = rj_backends j" "rj_strategy (fst (job_step ev j e)) = rj_strategy j"
  "rj_accountant (fst (job_step ev j e)) = rj_accountant j"
  "wo_heap (en_world (snd (job_step ev j e))) = wo_heap (en_world e)"
  "wo_next (en_world (snd (job_step ev j e))) = wo_next (en_world e)"
  "wo_next_acc (en_world (snd (job_step ev j e))) = wo_next_acc (en_world e)"
  "en_cfg_path (snd (job_step ev j e)) = en_cfg_path e"
  by (simp_all add: job_step_def split_beta split: reload_pc.split list.split)

lemma forget_accountant: "ph_accountant (forget n ph) = ph_accountant ph"
  by (simp add: forget_def)

lemma apply_backend_tls_accountant: "ph_accountant (snd (apply_backend_tls fs bs ph)) = ph_accountant ph"
  by (simp add: apply_backend_tls_def set_tls_by_backend_def split: sum.split)

lemma job_step_accountant:
  "ph_accountant (wo_handler (en_world (snd (job_step ev j e)))) =
     (if rj_pc j = AtAccountant then rj_accountant j else ph_accountant (wo_handler (en_world e)))"
  "rj_pc (fst (job_step ev j e)) \<noteq> AtAccountant"
  by (simp_all add: job_step_def split_beta set_accountant_def set_sticky_cookie_def forget_accountant
      apply_backend_tls_accountant split: reload_pc.split list.split option.split)

text \<open>Whether a job is past its \<^verbatim>\<open>Replace\<close>.\<close>

fun past_replace :: "reload_pc \<Rightarrow> bool" where
  "past_replace (AtForget ns) = True"
| "past_replace AtTls = True"
| "past_replace (AtEnd err) = True"
| "past_replace _ = False"

definition replaced :: "reload_job \<Rightarrow> engine \<Rightarrow> bool" where
  "replaced j e \<longleftrightarrow> (past_replace (rj_pc j) \<longrightarrow>
     pl_all (wo_pool (en_world e)) = rj_backends j \<and> pl_strategy (wo_pool (en_world e)) = rj_strategy j)"

lemma replaced_step: "replaced j e \<Longrightarrow> replaced (fst (job_step ev j e)) (snd (job_step ev j e))"
  by (simp add: replaced_def job_step_def pool_replace_def split_beta split: reload_pc.split list.split)

lemma job_steps_facts:
  "rj_backends (fst (job_steps n ev j e)) = rj_backends j \<and> rj_strategy (fst (job_steps n ev j e)) = rj_strategy j
   \<and> rj_accountant (fst (job_steps n ev j e)) = rj_accountant j
   \<and> (rj_pc j \<noteq> AtAccountant \<longrightarrow> rj_pc (fst (job_steps n ev j e)) \<noteq> AtAccountant
        \<and> ph_accountant (wo_handler (en_world (snd (job_steps n ev j e)))) = ph_accountant (wo_handler (en_world e)))
   \<and> (replaced j e \<longrightarrow> replaced (fst (job_steps n ev j e)) (snd (job_steps n ev j e)))"
proof (induction n arbitrary: j e)
  case (Suc n)
  from Suc.IH [of "fst (job_step ev j e)" "snd (job_step ev j e)"] show ?case
    using replaced_step [of j e ev] by (simp add: split_beta job_step_frame job_step_accountant)
qed simp

lemma job_end_accountant:
  assumes "rj_pc j = AtAccountant" and "job_steps n ev j e = (j', e')" and "rj_pc j' = AtEnd err"
  shows "ph_accountant (wo_handler (en_world e')) = rj_accountant j"
proof (cases n)
  case 0
  with assms show ?thesis by simp
next
  case (Suc m)
  from assms(2) have "job_steps m ev (fst (job_step ev j e)) (snd (job_step ev j e)) = (j', e')"
    by (simp add: Suc split_beta)
  with job_steps_facts [of m ev "fst (job_step ev j e)" "snd (job_step ev j e)"] show ?thesis
    by (simp add: job_step_accountant assms(1))
qed

text \<open>
  C20: Reloads that overlap mix: if a second reload runs from start to end between the first
  two steps of another one, which then goes on to its end, the proxy charges the second
  one's accountant while pool and strategy are those of the first.  With
  \<^verbatim>\<open>cost_bounded_least_latency\<close> the strategy then consults an accountant no request is
  charged to, so that its budgets are not enforced.
\<close>

theorem overlapping_reloads_mix:
  assumes "reload_begin ev1 e = (Inr j1, e1)" and "job_step ev1 j1 e1 = (j1', e2)"
    and "reload_begin ev2 e2 = (Inr j2, e3)" and "job_steps n ev2 j2 e3 = (j2', e4)" and "rj_pc j2' = AtEnd err2"
    and "job_steps m ev1 j1' e4 = (j1'', e5)" and "rj_pc j1'' = AtEnd err1"
    and "cf_cost (rj_cfg j1) \<noteq> None" and "cf_strategy (rj_cfg j1) = ''cost_bounded_least_latency''"
    and "cf_sticky (rj_cfg j1) = None" and "cf_kind_routing (rj_cfg j1) = None"
  shows "pl_all (wo_pool (en_world e5)) = rj_backends j1
       \<and> (\<exists>a. pl_strategy (wo_pool (en_world e5)) = CostBounded (Some a) 0
            \<and> ph_accountant (wo_handler (en_world e5)) \<noteq> Some a)"
proof -
  obtain bs1 where b1: "prepares ev1 e (rj_cfg j1) bs1 (rj_strategy j1) (rj_cookie j1)" "rj_pc j1 = AtAccountant"
    "rj_accountant j1 = Some (wo_next_acc (en_world e))" "wo_next_acc (en_world e1) = Suc (wo_next_acc (en_world e))"
    by (rule reload_begin_Inr [OF assms(1)]) (use assms(8) in \<open>auto simp: build_accountant_def split: option.splits\<close>)
  obtain bs2 where b2: "rj_pc j2 = AtAccountant"
    "rj_accountant j2 = None \<or> rj_accountant j2 = Some (wo_next_acc (en_world e2))"
    by (rule reload_begin_Inr [OF assms(3)]) (simp split: if_splits)
  have n2: "wo_next_acc (en_world e2) = Suc (wo_next_acc (en_world e))"
    using job_step_frame(6) [of ev1 j1 e1] b1(4) assms(2) by simp
  have j1': "rj_pc j1' \<noteq> AtAccountant" "rj_backends j1' = rj_backends j1" "rj_strategy j1' = rj_strategy j1"
    "\<not> past_replace (rj_pc j1')"
    using assms(2) b1(2) by (auto simp: job_step_def)
  have acc: "ph_accountant (wo_handler (en_world e5)) = rj_accountant j2"
    using job_steps_facts [of m ev1 j1' e4] j1'(1) job_end_accountant [OF b2(1) assms(4,5)] by (simp add: assms(6))
  have "replaced j1'' e5"
    using job_steps_facts [of m ev1 j1' e4] j1'(4) by (simp add: assms(6) replaced_def)
  then have "pl_all (wo_pool (en_world e5)) = rj_backends j1" "pl_strategy (wo_pool (en_world e5)) = rj_strategy j1"
    using job_steps_facts [of m ev1 j1' e4] j1'(2,3) by (simp_all add: assms(6,7) replaced_def)
  moreover have "rj_strategy j1 = CostBounded (rj_accountant j1) 0"
  proof -
    have p: "parse_strategy ''cost_bounded_least_latency'' = Inr (new_cost_bounded None)" by code_simp
    have "rj_accountant j1 = (if build_accountant (cf_cost (rj_cfg j1)) = None then None else Some (wo_next_acc (en_world e)))"
      using assms(8) b1(3) by (auto simp: build_accountant_def split: option.splits)
    then show ?thesis
      using b1(1) by (simp add: prepares_def build_strategy_def build_base_strategy_def assms(9-11) p new_cost_bounded_def)
  qed
  ultimately show ?thesis using acc b1(3) b2(2) n2 by auto
qed

end
