(* ===== verification/System.thy ===== *)
theory System
  imports Reloading
begin

text \<open>
  The running program as a transition system: requests in their five steps, probes in two,
  admin calls and reloads, interleaved in any order.  An \<open>exchange\<close> is a request between two
  of its steps, a \<open>reload_job\<close> a reload between two of its own.  The files may change
  between any two steps.  \<open>sys_ok\<close> is the global invariant; its core is the conservation law of
  the in-flight counters, on which \<^verbatim>\<open>least_connections\<close> and the gauges rely.
\<close>

section \<open>Steps\<close>

text \<open>
  Where a request's goroutine is in \<^verbatim>\<open>ServeHTTP\<close>: a backend is chosen but not yet counted;
  counted, with the response writer; with its reverse proxy; answered, before the deferred
  release.
\<close>

datatype stage =
    Picked
  | Waiting status_writer
  | Dialed status_writer rev_proxy
  | Finished status_writer

record exchange =
  ex_backend :: bref
  ex_stage :: stage

text \<open>\<open>sy_probe\<close> is the probe that holds the checker's mutex, with its decision.\<close>

record system =
  sy_engine :: engine
  sy_open :: "exchange list"
  sy_jobs :: "reload_job list"
  sy_probe :: "(bref \<times> bool option) option"

abbreviation world_of :: "system \<Rightarrow> world" where
  "world_of s \<equiv> en_world (sy_engine s)"

definition put_world :: "world \<Rightarrow> system \<Rightarrow> system" where
  "put_world w s = s\<lparr>sy_engine := (sy_engine s)\<lparr>en_world := w\<rparr>\<rparr>"

text \<open>
  \<open>Choose\<close> to \<open>Release\<close> are a request's steps, \<open>Judge\<close> and \<open>Settle\<close> those of a probe's report,
  \<open>AdminCall\<close> is a request to the admin listener (which reaches \<^verbatim>\<open>Reload\<close>, too),
  \<open>ReloadCall\<close> a call of \<^verbatim>\<open>Reload\<close> through the public package that runs undisturbed,
  \<open>ReloadBegin\<close> and \<open>ReloadGoes\<close> one whose steps interleave with everything else, other
  reloads included.
\<close>

inductive sys_step ::
  "env \<Rightarrow> (string \<Rightarrow> bool option option) \<Rightarrow> (string \<Rightarrow> backend_dto option) \<Rightarrow> system \<Rightarrow> system \<Rightarrow> bool"
  for ev dh db where
  Choose: "serve_choose now draw req (world_of s) = (Chosen r, w) \<Longrightarrow>
     sys_step ev dh db s ((put_world w s)\<lparr>sy_open := \<lparr>ex_backend = r, ex_stage = Picked\<rparr> # sy_open s\<rparr>)"
| TurnAway: "serve_choose now draw req (world_of s) = (c, w) \<Longrightarrow> (\<forall>r. c \<noteq> Chosen r) \<Longrightarrow>
     sys_step ev dh db s (put_world w s)"
| Admit: "sy_open s = xs @ x # ys \<Longrightarrow> ex_stage x = Picked \<Longrightarrow>
     serve_admit (ex_backend x) (world_of s) = (sw, calls, w) \<Longrightarrow>
     sys_step ev dh db s ((put_world w s)\<lparr>sy_open := xs @ x\<lparr>ex_stage := Waiting sw\<rparr> # ys\<rparr>)"
| Dial: "sy_open s = xs @ x # ys \<Longrightarrow> ex_stage x = Waiting sw \<Longrightarrow>
     serve_connect (ex_backend x) (world_of s) = (rp, w) \<Longrightarrow>
     sys_step ev dh db s ((put_world w s)\<lparr>sy_open := xs @ x\<lparr>ex_stage := Dialed sw rp\<rparr> # ys\<rparr>)"
| Respond: "sy_open s = xs @ x # ys \<Longrightarrow> ex_stage x = Dialed sw rp \<Longrightarrow>
     serve_respond now dur u (ex_backend x) rp sw (world_of s) = (sw', w, calls) \<Longrightarrow>
     sys_step ev dh db s ((put_world w s)\<lparr>sy_open := xs @ x\<lparr>ex_stage := Finished sw'\<rparr> # ys\<rparr>)"
| Release: "sy_open s = xs @ x # ys \<Longrightarrow> ex_stage x = Finished sw \<Longrightarrow>
     serve_release (ex_backend x) (world_of s) = (w, calls) \<Longrightarrow>
     sys_step ev dh db s ((put_world w s)\<lparr>sy_open := xs @ ys\<rparr>)"
| Judge: "sy_probe s = None \<Longrightarrow>
     judge_result r ok (en_checker (sy_engine s)) (wo_heap (world_of s)) = (c, d) \<Longrightarrow>
     sys_step ev dh db s (s\<lparr>sy_engine := (sy_engine s)\<lparr>en_checker := c\<rparr>, sy_probe := Some (r, d)\<rparr>)"
| Settle: "sy_probe s = Some (r, d) \<Longrightarrow>
     sys_step ev dh db s
       ((put_world ((world_of s)\<lparr>wo_heap := announce r d (wo_heap (world_of s))\<rparr>) s)\<lparr>sy_probe := None\<rparr>)"
| AdminCall: "auth (engine_server (ev\<lparr>ev_files := fs\<rparr>) (sy_engine s) dh db) q (world_of s) = (re, w) \<Longrightarrow>
     sys_step ev dh db s (put_world w s)"
| ReloadCall: "reload (ev\<lparr>ev_files := fs\<rparr>) (sy_engine s) = (err, e) \<Longrightarrow>
     sys_step ev dh db s (s\<lparr>sy_engine := e\<rparr>)"
| ReloadBegin: "reload_begin (ev\<lparr>ev_files := fs\<rparr>) (sy_engine s) = (Inr j, e) \<Longrightarrow>
     sys_step ev dh db s (s\<lparr>sy_engine := e, sy_jobs := j # sy_jobs s\<rparr>)"
| ReloadGoes: "sy_jobs s = xs @ j # ys \<Longrightarrow> job_step (ev\<lparr>ev_files := fs\<rparr>) j (sy_engine s) = (j', e) \<Longrightarrow>
     sys_step ev dh db s (s\<lparr>sy_engine := e, sy_jobs := xs @ j' # ys\<rparr>)"

inductive_cases sys_stepE: "sys_step ev dh db s s'"

section \<open>The invariant\<close>

text \<open>The requests that are in flight on a backend: admitted and not yet released.\<close>

definition open_on :: "bref \<Rightarrow> exchange list \<Rightarrow> nat" where
  "open_on r xs = length (filter (\<lambda>x. ex_backend x = r \<and> ex_stage x \<noteq> Picked) xs)"

definition inflight_ok :: "world \<Rightarrow> exchange list \<Rightarrow> bool" where
  "inflight_ok w xs \<longleftrightarrow> (\<forall>x \<in> set xs. ex_backend x < wo_next w)
     \<and> (\<forall>r < wo_next w. bk_inflight (wo_heap w r) = wrap64 (int (open_on r xs)))"

definition sound :: "world \<Rightarrow> bool" where
  "sound w \<longleftrightarrow> world_ok w \<and> callable (pl_strategy (wo_pool w)) \<and> ph_metrics (wo_handler w)"

text \<open>What a pending reload is about to install is fit to be installed.\<close>

definition job_ok :: "world \<Rightarrow> reload_job \<Rightarrow> bool" where
  "job_ok w j \<longleftrightarrow> callable (rj_strategy j) \<and> (\<forall>r \<in> set (rj_backends j). r < wo_next w)
     \<and> distinct (List.map (\<lambda>r. bk_name (wo_heap w r)) (rj_backends j))"

definition sys_ok :: "system \<Rightarrow> bool" where
  "sys_ok s \<longleftrightarrow> sound (world_of s) \<and> inflight_ok (world_of s) (sy_open s)
     \<and> (\<forall>j \<in> set (sy_jobs s). job_ok (world_of s) j)"

text \<open>No step frees an object or changes its name; quiet steps leave the counters alone, too,
  except that new objects start at zero.\<close>

definition stable :: "world \<Rightarrow> world \<Rightarrow> bool" where
  "stable w w' \<longleftrightarrow> wo_next w \<le> wo_next w' \<and> (\<forall>r < wo_next w. bk_name (wo_heap w' r) = bk_name (wo_heap w r))"

lemma job_ok_stable: "job_ok w j \<Longrightarrow> stable w w' \<Longrightarrow> job_ok w' j"
  by (auto simp: job_ok_def stable_def cong: map_cong)

definition quiet :: "world \<Rightarrow> world \<Rightarrow> bool" where
  "quiet w w' \<longleftrightarrow> stable w w'
     \<and> (\<forall>r < wo_next w. bk_inflight (wo_heap w' r) = bk_inflight (wo_heap w r))
     \<and> (\<forall>r. wo_next w \<le> r \<and> r < wo_next w' \<longrightarrow> bk_inflight (wo_heap w' r) = 0)
     \<and> (sound w \<longrightarrow> sound w')"

lemma open_on_simps [simp]:
  "open_on r [] = 0" "open_on r (x # xs) = (if ex_backend x = r \<and> ex_stage x \<noteq> Picked then 1 else 0) + open_on r xs"
  "open_on r (xs @ ys) = open_on r xs + open_on r ys"
  by (simp_all add: open_on_def)

lemma open_on_0: "\<forall>x \<in> set xs. ex_backend x < n \<Longrightarrow> n \<le> r \<Longrightarrow> open_on r xs = 0"
  by (induction xs) auto

lemma quiet_refl [simp]: "quiet w w"
  by (simp add: quiet_def stable_def)

lemma quiet_inflight:
  assumes "quiet w w'" and "inflight_ok w xs"
  shows "inflight_ok w' xs"
proof -
  have lt: "\<forall>x \<in> set xs. ex_backend x < wo_next w" using assms(2) by (simp add: inflight_ok_def)
  have "bk_inflight (wo_heap w' r) = wrap64 (int (open_on r xs))" if "r < wo_next w'" for r
  proof (cases "r < wo_next w")
    case True
    with assms show ?thesis by (simp add: quiet_def inflight_ok_def)
  next
    case False
    with assms(1) that open_on_0 [OF lt] show ?thesis by (simp add: quiet_def not_less)
  qed
  then show ?thesis using assms lt by (fastforce simp: inflight_ok_def quiet_def stable_def)
qed

lemma quiet_step:
  "quiet w w' \<Longrightarrow> sound w \<Longrightarrow> inflight_ok w xs \<Longrightarrow> \<forall>j \<in> set js. job_ok w j \<Longrightarrow>
     sound w' \<and> inflight_ok w' xs \<and> (\<forall>j \<in> set js. job_ok w' j)"
  using quiet_inflight job_ok_stable unfolding quiet_def by blast

text \<open>A change of the heap that keeps names and counters is quiet.\<close>

lemma world_ok_names:
  assumes "\<And>r. bk_name (h r) = bk_name (wo_heap w r)"
  shows "world_ok (w\<lparr>wo_heap := h\<rparr>) = world_ok w"
  using assms by (simp add: world_ok_def pool_ok_def)

lemma quiet_heap:
  assumes "\<And>r. bk_name (h r) = bk_name (wo_heap w r)" and "\<And>r. bk_inflight (h r) = bk_inflight (wo_heap w r)"
  shows "quiet w (w\<lparr>wo_heap := h\<rparr>)"
  using assms world_ok_names [of h w] by (simp add: quiet_def stable_def sound_def)

lemma quiet_handler:
  assumes "ph_metrics ph = ph_metrics (wo_handler w)"
  shows "quiet w (w\<lparr>wo_handler := ph\<rparr>)"
  using assms by (simp add: quiet_def stable_def sound_def world_ok_def)

lemma quiet_announce: "quiet w (w\<lparr>wo_heap := announce r d (wo_heap w)\<rparr>)"
  by (rule quiet_heap) (simp_all add: announce_def modify_def set_healthy_def split: option.splits)

lemma quiet_connect: "quiet w (snd (serve_connect r w))"
proof -
  have "ph_metrics (snd (proxy_for h r ph)) = ph_metrics ph" for h ph
    by (simp add: proxy_for_def Let_def split: option.splits)
  then show ?thesis by (simp add: serve_connect_def split_beta quiet_handler)
qed

lemma quiet_reload: "quiet (en_world e) (en_world (snd (reload ev e)))"
proof (cases rule: reload_cases [of ev e])
  case unprepared
  then show ?thesis by simp
next
  case (prepared cfg bs s cn)
  let ?w = "swapped e cfg bs s cn"
  have new: "bk_inflight (bs ! (r - n)) = 0" if "n \<le> r" "r < n + length bs" for r n
    using prepares_facts(3) [OF prepared] that by (simp add: list_all_length idle_def)
  have q: "quiet (en_world e) (?w\<lparr>wo_handler := ph\<rparr>)"
    if "ph_metrics ph = ph_metrics (wo_handler (en_world e))" for ph
    using that swapped_ok(1) [OF prepared, of ph] prepares_facts(4) [OF prepared] new
    by (simp add: quiet_def stable_def sound_def swapped_facts store_at_get)
  show ?thesis
  proof (rule prepared_outcomes [OF prepared])
    fix configs
    assume "en_world (snd (reload ev e)) = ?w\<lparr>wo_handler := set_tls_by_backend (Some configs) (wo_handler ?w)\<rparr>"
    then show ?thesis by (simp add: q set_tls_by_backend_def swapped_facts)
  next
    assume w: "en_world (snd (reload ev e)) = ?w"
    show ?thesis unfolding w using q [of "wo_handler ?w"] by (simp add: swapped_facts)
  qed
qed

text \<open>Admin calls are quiet.\<close>

lemma quiet_set_health: "quiet w (snd (set_backend_health sv name body w))"
proof -
  have "quiet w (w\<lparr>wo_heap := modify (set_healthy v) r (wo_heap w)\<rparr>)" for v r
    by (rule quiet_heap) (simp_all add: modify_def set_healthy_def)
  then show ?thesis
    by (simp add: set_backend_health_def Let_def split: option.splits)
qed

lemma quiet_remove: "quiet w (snd (remove_backend sv name w))"
proof (cases "world_ok w")
  case True
  then have ok: "pool_ok (wo_heap w) (wo_pool w)" and old: "\<forall>r \<in> set (pl_all (wo_pool w)). r < wo_next w"
    by (simp_all add: world_ok_def)
  have p: "pl_strategy (snd (pool_remove h n p)) = pl_strategy p" for h n p
    by (simp add: pool_remove_def)
  have "world_ok (w\<lparr>wo_pool := snd (pool_remove (wo_heap w) name (wo_pool w))\<rparr>)"
    using reg.wf_del [OF ok, of name] old by (auto simp: world_ok_def pool_remove_filter [OF ok])
  then show ?thesis
    by (auto simp: remove_backend_def split_beta Let_def quiet_def stable_def sound_def p forget_def world_ok_def)
next
  case False
  then show ?thesis
    by (auto simp: remove_backend_def split_beta Let_def quiet_def stable_def sound_def)
qed

lemma quiet_allocate:
  assumes "bk_inflight b = 0"
  shows "quiet w (w\<lparr>wo_heap := (wo_heap w)(wo_next w := b), wo_next := Suc (wo_next w)\<rparr>)"
proof -
  have "world_ok w \<Longrightarrow> pool_ok ((wo_heap w)(wo_next w := b)) (wo_pool w)"
    using pool_fresh(2) [of "wo_pool w" "wo_next w" "wo_heap w" b] by (simp add: world_ok_def)
  with assms show ?thesis by (auto simp: quiet_def stable_def sound_def world_ok_def less_Suc_eq)
qed

lemma quiet_pool_add:
  assumes "r < wo_next w"
  shows "quiet w (w\<lparr>wo_pool := snd (pool_add (wo_heap w) r (wo_pool w))\<rparr>)"
proof -
  have "pl_strategy (snd (pool_add h r p)) = pl_strategy p" for h p by (simp add: pool_add_def)
  moreover have "set (pl_all (snd (pool_add h r p))) \<subseteq> insert r (set (pl_all p))" for h p
    by (auto simp: pool_add_def)
  ultimately show ?thesis
    using assms pool_ok_add by (fastforce simp: quiet_def stable_def sound_def world_ok_def)
qed

lemma quiet_trans:
  assumes "quiet w1 w2" and "quiet w2 w3"
  shows "quiet w1 w3"
proof -
  have "bk_inflight (wo_heap w3 r) = 0" if "wo_next w1 \<le> r" "r < wo_next w3" for r
    using assms that unfolding quiet_def stable_def by (cases "r < wo_next w2") auto
  then show ?thesis using assms unfolding quiet_def stable_def by auto
qed

lemma quiet_add: "quiet w (snd (add_backend sv body w))"
proof -
  have "quiet w (snd (add_backend sv body w))"
    if a: "sv_decode_backend sv body = Some d" "dto_name d \<noteq> ''''" "dto_url d \<noteq> ''''"
      "sv_parse_url sv (dto_url d) = Some u" "url_ok u" for d u
  proof -
    define b where "b = with_kind (dto_kind d) (new_backend (dto_name d) u (dto_cloud d) (dto_region d)
                (if dto_weight d \<le> 0 then 1 else dto_weight d))"
    define w1 where "w1 = w\<lparr>wo_heap := (wo_heap w)(wo_next w := b), wo_next := Suc (wo_next w)\<rparr>"
    have q1: "quiet w w1"
      unfolding w1_def by (rule quiet_allocate) (simp add: b_def with_kind_def new_backend_def)
    have q2: "quiet w1 (w1\<lparr>wo_pool := snd (pool_add (wo_heap w1) (wo_next w) (wo_pool w1))\<rparr>)"
      by (rule quiet_pool_add) (simp add: w1_def)
    have "snd (add_backend sv body w) \<in> {w1, w1\<lparr>wo_pool := snd (pool_add (wo_heap w1) (wo_next w) (wo_pool w1))\<rparr>}"
      unfolding add_backend_added [OF a] Let_def b_def [symmetric] w1_def by simp
    then show ?thesis using q1 quiet_trans [OF q1 q2] by auto
  qed
  then show ?thesis
    by (cases "sv_decode_backend sv body"; cases "sv_parse_url sv (dto_url (the (sv_decode_backend sv body)))")
      (auto simp: add_backend_def Let_def)
qed

lemma quiet_auth: "quiet w (snd (auth (engine_server ev e dh db) q w))"
proof -
  have "quiet w (snd (reload_config (engine_server ev e dh db) w))"
    using quiet_reload [of "e\<lparr>en_world := w\<rparr>" ev]
    by (simp add: reload_config_def engine_server_def split_beta split: option.splits)
  then have "quiet w (snd (serve_mux (engine_server ev e dh db) q w))"
    by (simp add: serve_mux_def list_backends_def quiet_set_health quiet_remove quiet_add split: endpoint.splits)
  then show ?thesis by (simp add: auth_def Let_def)
qed


text \<open>A reload's own steps are quiet.\<close>

lemma job_step_world:
  "wo_pool (en_world (snd (job_step ev j e))) \<in>
     {wo_pool (en_world e), pool_replace (rj_backends j) (Some (rj_strategy j)) (wo_pool (en_world e))}"
  "ph_metrics (wo_handler (en_world (snd (job_step ev j e)))) = ph_metrics (wo_handler (en_world e))"
  by (auto simp: job_step_def split_beta set_accountant_def set_sticky_cookie_def forget_def
      apply_backend_tls_def set_tls_by_backend_def split: reload_pc.split list.split option.split sum.split)

lemma quiet_job_step:
  assumes "job_ok (en_world e) j"
  shows "quiet (en_world e) (en_world (snd (job_step ev j e)))"
proof -
  have "world_ok (en_world e) \<and> callable (pl_strategy (wo_pool (en_world e))) \<Longrightarrow>
      world_ok (en_world (snd (job_step ev j e))) \<and> callable (pl_strategy (wo_pool (en_world (snd (job_step ev j e)))))"
    using job_step_world(1) [of ev j e] assms
    by (auto simp: world_ok_def pool_ok_def job_step_frame pool_replace_def job_ok_def)
  then show ?thesis
    by (auto simp: quiet_def stable_def sound_def job_step_frame job_step_world(2))
qed

lemma reload_begin_quiet:
  assumes "reload_begin ev e = (Inr j, e')"
  shows "quiet (en_world e) (en_world e') \<and> job_ok (en_world e') j"
proof (rule reload_begin_Inr [OF assms])
  fix bs
  let ?w = "en_world e"
  let ?h = "store_at (wo_next ?w) bs (wo_heap ?w)"
  assume prep: "prepares ev e (rj_cfg j) bs (rj_strategy j) (rj_cookie j)"
    and news: "rj_backends j = [wo_next ?w..<wo_next ?w + length bs]"
    and e': "e' = e\<lparr>en_world := ?w
       \<lparr>wo_heap := ?h, wo_next := wo_next ?w + length bs,
        wo_accounts := (case build_accountant (cf_cost (rj_cfg j)) of None \<Rightarrow> wo_accounts ?w
                        | Some x \<Rightarrow> (wo_accounts ?w)(wo_next_acc ?w := x)),
        wo_next_acc := (if build_accountant (cf_cost (rj_cfg j)) = None then wo_next_acc ?w
                        else Suc (wo_next_acc ?w))\<rparr>\<rparr>"
  have idle: "bk_inflight (bs ! (r - wo_next ?w)) = 0" if "wo_next ?w \<le> r" "r < wo_next ?w + length bs" for r
    using prepares_facts(3) [OF prep] that by (simp add: list_all_length idle_def)
  have "world_ok (en_world e')" if "world_ok ?w"
    using that by (auto simp: e' world_ok_def pool_ok_def store_at_old cong: map_cong)
  then have "quiet ?w (en_world e')"
    using idle by (simp add: quiet_def stable_def sound_def e' store_at_get)
  moreover have "List.map (\<lambda>r. bk_name (?h r)) (rj_backends j) = List.map bk_name (List.map ?h [wo_next ?w..<wo_next ?w + length bs])"
    by (simp add: news)
  then have "distinct (List.map (\<lambda>r. bk_name (?h r)) (rj_backends j))"
    using prepares_facts(1) [OF prep] by (simp only: store_at_new)
  then have "job_ok (en_world e') j"
    using prepares_facts(4) [OF prep] by (simp add: job_ok_def e' news)
  ultimately show ?thesis by blast
qed

section \<open>Every step keeps the invariant\<close>

lemma put_world_simps [simp]:
  "en_world (sy_engine (put_world w s)) = w" "sy_open (put_world w s) = sy_open s"
  "sy_jobs (put_world w s) = sy_jobs s" "en_cfg_path (sy_engine (put_world w s)) = en_cfg_path (sy_engine s)"
  by (simp_all add: put_world_def)

text \<open>Choosing moves the pool's cursor and nothing else; it is quiet.\<close>

lemma serve_choose_frame:
  "wo_heap (snd (serve_choose now draw req w)) = wo_heap w"
  "wo_next (snd (serve_choose now draw req w)) = wo_next w"
  "wo_handler (snd (serve_choose now draw req w)) = wo_handler w"
  "pl_all (wo_pool (snd (serve_choose now draw req w))) = pl_all (wo_pool w)"
  by (simp_all add: serve_choose_def split_beta pool_pick_all)

lemma serve_choose_Chosen:
  "fst (serve_choose now draw req w) = Chosen r \<longleftrightarrow>
     fst (pool_pick \<lparr>vw_heap = wo_heap w, vw_now = now, vw_draw = draw\<rparr> (Some req) (wo_pool w) (wo_accounts w)) = Pick r"
  by (simp add: serve_choose_def split_beta split: pick.splits)

lemma quiet_choose: "quiet w (snd (serve_choose now draw req w))"
proof -
  have "callable (pl_strategy (wo_pool (snd (serve_choose now draw req w)))) = callable (pl_strategy (wo_pool w))"
    by (simp add: serve_choose_def pool_pick_def split_beta select_frame)
  then show ?thesis
    by (simp add: quiet_def stable_def sound_def world_ok_def pool_ok_def serve_choose_frame)
qed

lemma serve_choose_bound:
  assumes "sound w" and "fst (serve_choose now draw req w) = Chosen r"
  shows "r < wo_next w"
proof -
  from pool_pick_member [OF assms(2) [unfolded serve_choose_Chosen]] assms(1)
  show ?thesis by (simp add: sound_def world_ok_def)
qed

text \<open>Admission counts one backend up, the exchange counts nothing, the release counts down.\<close>

lemma serve_admit_world:
  "snd (snd (serve_admit r w)) = w\<lparr>wo_heap := modify inc_inflight r (wo_heap w)\<rparr>"
  by (simp add: serve_admit_def Let_def)

lemma serve_release_world:
  "fst (serve_release r w) = w\<lparr>wo_heap := modify dec_inflight r (wo_heap w)\<rparr>"
  by (simp add: serve_release_def Let_def)

lemma serve_respond_frame:
  "wo_heap (fst (snd (serve_respond now dur u r rp sw w))) =
     (if snd (reverse_proxy (wo_handler w) (wo_heap w) rp u sw) then wo_heap w
      else modify (record_latency dur []) r (wo_heap w))"
  "wo_next (fst (snd (serve_respond now dur u r rp sw w))) = wo_next w"
  "wo_pool (fst (snd (serve_respond now dur u r rp sw w))) = wo_pool w"
  "wo_handler (fst (snd (serve_respond now dur u r rp sw w))) = wo_handler w"
  by (simp_all add: serve_respond_def split_beta Let_def)

lemma quiet_respond: "quiet w (fst (snd (serve_respond now dur u r rp sw w)))"
proof -
  let ?w = "fst (snd (serve_respond now dur u r rp sw w))"
  have "bk_name (wo_heap ?w q) = bk_name (wo_heap w q)" "bk_inflight (wo_heap ?w q) = bk_inflight (wo_heap w q)" for q
    by (simp_all add: serve_respond_frame modify_def)
  then show ?thesis
    by (simp add: quiet_def stable_def sound_def world_ok_def pool_ok_def serve_respond_frame(2-4))
qed

text \<open>Counting on one backend is steady: it keeps everything but that counter.\<close>

definition steady :: "world \<Rightarrow> world \<Rightarrow> bool" where
  "steady w w' \<longleftrightarrow> stable w w' \<and> wo_next w' = wo_next w \<and> (sound w \<longrightarrow> sound w')"

lemma steady_heap:
  assumes "\<And>r. bk_name (h r) = bk_name (wo_heap w r)"
  shows "steady w (w\<lparr>wo_heap := h\<rparr>)"
  using assms world_ok_names [of h w] by (simp add: steady_def stable_def sound_def)

lemma steady_admit: "steady w (snd (snd (serve_admit r w)))"
  unfolding serve_admit_world by (rule steady_heap) (simp add: modify_def inc_inflight_def)

lemma steady_release: "steady w (fst (serve_release r w))"
  unfolding serve_release_world by (rule steady_heap) (simp add: modify_def dec_inflight_def)

lemma inflight_admit:
  assumes "inflight_ok w (xs @ x # ys)" and "ex_stage x = Picked"
  shows "inflight_ok (snd (snd (serve_admit (ex_backend x) w))) (xs @ x\<lparr>ex_stage := Waiting sw\<rparr> # ys)"
  using assms
  by (auto simp: inflight_ok_def serve_admit_world modify_def inc_inflight_def add.commute add.left_commute)

lemma inflight_release:
  assumes "inflight_ok w (xs @ x # ys)" and "ex_stage x \<noteq> Picked"
  shows "inflight_ok (fst (serve_release (ex_backend x) w)) (xs @ ys)"
  using assms by (auto simp: inflight_ok_def serve_release_world modify_def dec_inflight_def)

text \<open>Moving a counted request to another counted stage changes no count.\<close>

lemma inflight_stage:
  assumes "ex_stage x \<noteq> Picked" and "st \<noteq> Picked"
  shows "inflight_ok w (xs @ x\<lparr>ex_stage := st\<rparr> # ys) = inflight_ok w (xs @ x # ys)"
  using assms by (simp add: inflight_ok_def)

text \<open>\<open>sys_ok\<close> of a state is that of its world, its requests and its reloads.\<close>

lemma sys_okI:
  "sound (world_of s) \<Longrightarrow> inflight_ok (world_of s) (sy_open s) \<Longrightarrow>
     \<forall>j \<in> set (sy_jobs s). job_ok (world_of s) j \<Longrightarrow> sys_ok s"
  by (simp add: sys_ok_def)

lemma steady_ok:
  "steady w w' \<Longrightarrow> sound w \<Longrightarrow> \<forall>j \<in> set js. job_ok w j \<Longrightarrow> sound w' \<and> (\<forall>j \<in> set js. job_ok w' j)"
  using job_ok_stable unfolding steady_def by blast

lemma sys_ok_step:
  assumes "sys_step ev dh db s s'" and "sys_ok s"
  shows "sys_ok s'"
proof -
  have ok: "sound (world_of s)" "inflight_ok (world_of s) (sy_open s)"
    "\<forall>j \<in> set (sy_jobs s). job_ok (world_of s) j"
    using assms(2) by (simp_all add: sys_ok_def)
  from assms(1) show ?thesis
  proof cases
    case (Choose now draw req r w)
    have q: "quiet (world_of s) w" using quiet_choose [of "world_of s" now draw req] Choose(2) by simp
    have "r < wo_next w"
      using serve_choose_bound [OF ok(1), of now draw req r] serve_choose_frame(2) [of now draw req "world_of s"]
        Choose(2) by simp
    with quiet_step [OF q ok] Choose(1) show ?thesis by (simp add: sys_ok_def inflight_ok_def)
  next
    case (TurnAway now draw req c w)
    have "quiet (world_of s) w" using quiet_choose [of "world_of s" now draw req] TurnAway(2) by simp
    from quiet_step [OF this ok] TurnAway(1) show ?thesis by (simp add: sys_ok_def)
  next
    case (Admit xs x ys sw calls w)
    then have w: "w = snd (snd (serve_admit (ex_backend x) (world_of s)))" by simp
    have "inflight_ok w (xs @ x\<lparr>ex_stage := Waiting sw\<rparr> # ys)"
      unfolding w by (rule inflight_admit) (use ok(2) Admit in simp_all)
    moreover have "sound w \<and> (\<forall>j \<in> set (sy_jobs s). job_ok w j)"
      unfolding w by (rule steady_ok [OF steady_admit ok(1,3)])
    ultimately show ?thesis using Admit(1) by (simp add: sys_ok_def)
  next
    case (Dial xs x ys sw rp w)
    have "quiet (world_of s) w" using quiet_connect [of "world_of s" "ex_backend x"] Dial(4) by simp
    from quiet_step [OF this ok] Dial(1-3) show ?thesis
      by (auto intro!: sys_okI simp: inflight_stage)
  next
    case (Respond xs x ys sw rp now dur u sw' w calls)
    have "quiet (world_of s) w"
      using quiet_respond [of "world_of s" now dur u "ex_backend x" rp sw] Respond(4) by simp
    from quiet_step [OF this ok] Respond(1-3) show ?thesis
      by (auto intro!: sys_okI simp: inflight_stage)
  next
    case (Release xs x ys sw w calls)
    then have w: "w = fst (serve_release (ex_backend x) (world_of s))" by simp
    have "inflight_ok w (xs @ ys)"
      unfolding w by (rule inflight_release) (use ok(2) Release in simp_all)
    moreover have "sound w \<and> (\<forall>j \<in> set (sy_jobs s). job_ok w j)"
      unfolding w by (rule steady_ok [OF steady_release ok(1,3)])
    ultimately show ?thesis using Release(1) by (simp add: sys_ok_def)
  next
    case (Judge r ok' c d)
    then show ?thesis using ok by (simp add: sys_ok_def)
  next
    case (Settle r d)
    from quiet_step [OF quiet_announce ok] Settle(1) show ?thesis by (simp add: sys_ok_def)
  next
    case (AdminCall fs q re w)
    have "quiet (world_of s) w"
      using quiet_auth [of "world_of s" "ev\<lparr>ev_files := fs\<rparr>" "sy_engine s" dh db q] AdminCall(2) by simp
    from quiet_step [OF this ok] AdminCall(1) show ?thesis by (simp add: sys_ok_def)
  next
    case (ReloadCall fs err e)
    have "quiet (world_of s) (en_world e)"
      using quiet_reload [of "sy_engine s" "ev\<lparr>ev_files := fs\<rparr>"] ReloadCall(2) by simp
    from quiet_step [OF this ok] ReloadCall(1) show ?thesis by (simp add: sys_ok_def)
  next
    case (ReloadBegin fs j e)
    have q: "quiet (world_of s) (en_world e)" and j: "job_ok (en_world e) j"
      using reload_begin_quiet [OF ReloadBegin(2)] by simp_all
    from quiet_step [OF q ok] j ReloadBegin(1) show ?thesis by (simp add: sys_ok_def)
  next
    case (ReloadGoes xs j ys fs j' e)
    have "job_ok (world_of s) j" using ok(3) ReloadGoes(2) by simp
    from quiet_job_step [OF this, of "ev\<lparr>ev_files := fs\<rparr>"] ReloadGoes(3)
    have q: "quiet (world_of s) (en_world e)" by simp
    have "job_ok w j' = job_ok w j" for w
      using job_step_frame(1,2) [of "ev\<lparr>ev_files := fs\<rparr>" j "sy_engine s"] ReloadGoes(3) by (simp add: job_ok_def)
    with quiet_step [OF q ok] ReloadGoes(1,2) show ?thesis by (simp add: sys_ok_def)
  qed
qed

section \<open>Reachable states\<close>

text \<open>The states of a process that was started on a file: load, \<^verbatim>\<open>New\<close>, then any steps.\<close>

inductive reach ::
  "env \<Rightarrow> (string \<Rightarrow> bool option option) \<Rightarrow> (string \<Rightarrow> backend_dto option) \<Rightarrow> system \<Rightarrow> bool"
  for ev dh db where
  Start: "engine_load ev path = Inr cfg \<Longrightarrow> fst (new_engine ev cfg path) = Inr e \<Longrightarrow>
     reach ev dh db \<lparr>sy_engine = e, sy_open = [], sy_jobs = [], sy_probe = None\<rparr>"
| Next: "reach ev dh db s \<Longrightarrow> sys_step ev dh db s s' \<Longrightarrow> reach ev dh db s'"

lemma reach_ok: "reach ev dh db s \<Longrightarrow> sys_ok s"
proof (induction rule: reach.induct)
  case (Start path cfg e)
  then have "config_valid (ev_parse_url ev) cfg"
    using loaded_valid unfolding engine_load_def by blast
  from started_engine [OF this Start(2)] show ?case
    by (simp add: sys_ok_def sound_def inflight_ok_def idle_def)
next
  case (Next s s')
  then show ?case using sys_ok_step by blast
qed

lemma reach_steps: "(sys_step ev dh db)\<^sup>*\<^sup>* s s' \<Longrightarrow> reach ev dh db s \<Longrightarrow> reach ev dh db s'"
  by (induction rule: rtranclp_induct) (auto intro: reach.Next)

text \<open>A request's first two steps together.\<close>

lemma reach_arrive:
  assumes "reach ev dh db s" and "serve_choose now draw req (world_of s) = (Chosen r, w)"
    and "serve_admit r w = (sw, calls, w')"
  shows "reach ev dh db ((put_world w' s)\<lparr>sy_open := \<lparr>ex_backend = r, ex_stage = Waiting sw\<rparr> # sy_open s\<rparr>)"
proof -
  let ?s = "(put_world w s)\<lparr>sy_open := \<lparr>ex_backend = r, ex_stage = Picked\<rparr> # sy_open s\<rparr>"
  let ?x = "\<lparr>ex_backend = r, ex_stage = Picked\<rparr>"
  have "reach ev dh db ?s" using assms(1) sys_step.Choose [OF assms(2)] by (rule reach.Next)
  moreover have "sys_step ev dh db ?s ((put_world w' ?s)\<lparr>sy_open := [] @ ?x\<lparr>ex_stage := Waiting sw\<rparr> # sy_open s\<rparr>)"
    by (rule sys_step.Admit) (simp_all add: assms(3) put_world_def)
  ultimately show ?thesis by (auto simp: put_world_def dest: reach.Next)
qed

text \<open>
  C1: Conservation of in-flight counts: in every reachable state, whatever requests, broken
  transfers, probes, admin calls and reloads have happened in whatever order, the counter
  of every backend object, retired ones included, is the number of requests that were
  admitted to it and not yet released.
\<close>

theorem inflight_conserved:
  assumes "reach ev dh db s" and "length (sy_open s) < 2 ^ 63" and "r < wo_next (world_of s)"
  shows "bk_inflight (wo_heap (world_of s) r) = int (open_on r (sy_open s))"
proof -
  have "open_on r (sy_open s) \<le> length (sy_open s)" by (simp add: open_on_def)
  then have "open_on r (sy_open s) < 2 ^ 63" using assms(2) by linarith
  then have "int (open_on r (sy_open s)) < int (2 ^ 63)" by (simp only: of_nat_less_iff)
  then have "in_int64 (int (open_on r (sy_open s)))" by (intro in_int64_small) simp_all
  moreover have "bk_inflight (wo_heap (world_of s) r) = wrap64 (int (open_on r (sy_open s)))"
    using reach_ok [OF assms(1)] assms(3) by (simp add: sys_ok_def inflight_ok_def)
  ultimately show ?thesis by simp
qed

text \<open>
  C2: In every reachable state the pool's names are distinct and its backends are allocated
  objects, and a request that arrives is answered without a panic: either it is refused or
  it is admitted to a healthy backend of the pool.
\<close>

theorem service_never_panics:
  assumes "reach ev dh db s"
  shows "distinct (List.map (\<lambda>r. bk_name (wo_heap (world_of s) r)) (pl_all (wo_pool (world_of s))))
       \<and> (\<forall>r \<in> set (pl_all (wo_pool (world_of s))). r < wo_next (world_of s))
       \<and> ((\<exists>sw calls. fst (serve_choose now draw req (world_of s)) = TurnedAway sw calls)
          \<or> (\<exists>r. fst (serve_choose now draw req (world_of s)) = Chosen r
               \<and> r \<in> set (pl_all (wo_pool (world_of s))) \<and> bk_healthy (wo_heap (world_of s) r)))"
proof -
  have ok: "sound (world_of s)" using reach_ok [OF assms] by (simp add: sys_ok_def)
  let ?v = "\<lparr>vw_heap = wo_heap (world_of s), vw_now = now, vw_draw = draw\<rparr>"
  have "fst (pool_pick ?v (Some req) (wo_pool (world_of s)) (wo_accounts (world_of s))) \<noteq> Panic"
    using ok by (intro pool_pick_no_panic) (simp add: sound_def)
  then show ?thesis
    using ok pool_pick_member [of ?v "Some req" "wo_pool (world_of s)" "wo_accounts (world_of s)"]
    by (auto simp: sound_def world_ok_def pool_ok_def serve_choose_def split_beta split: pick.splits)
qed

section \<open>A race of reload and dial\<close>

text \<open>
  C35: A reload does not isolate old from new backends: if a request that was admitted to an
  old backend before the reload dials after it, the reverse proxy built for the old object
  is cached under the name, and every request admitted to the new backend of that name is
  then forwarded to the old object's URL.
\<close>

theorem stale_target_after_reload:
  assumes "reload ev e = (None, e')" and "r < wo_next (en_world e)"
    and "r' \<in> set (pl_all (wo_pool (en_world e')))"
    and "bk_name (wo_heap (en_world e') r') = bk_name (wo_heap (en_world e) r)"
  shows "r' \<noteq> r \<and> rp_target (fst (serve_connect r (en_world e'))) = r
       \<and> rp_target (fst (serve_connect r' (snd (serve_connect r (en_world e'))))) = r"
proof -
  let ?w = "en_world e'"
  have e: "ph_proxies (wo_handler ?w) = Map.empty" "wo_heap ?w r = wo_heap (en_world e) r"
    "r \<notin> set (pl_all (wo_pool ?w))"
    using reload_success [OF assms(1)] assms(2) by blast+
  let ?ph = "snd (proxy_for (wo_heap ?w) r (wo_handler ?w))"
  have "rp_target (fst (proxy_for (wo_heap ?w) r (wo_handler ?w))) = r"
    by (simp add: proxy_for_def e(1) build_proxy_def Let_def)
  moreover have "fst (proxy_for (wo_heap ?w) r' ?ph) = fst (proxy_for (wo_heap ?w) r (wo_handler ?w))"
    using assms(4) e(2) by (intro cache.fetch_shared) simp
  ultimately show ?thesis
    using assms(3) e(3) by (auto simp: serve_connect_def split_beta)
qed

end
