(* ===== verification/KindSafety.thy ===== *)
theory KindSafety
  imports System
begin

text \<open>
  What holds of the strategy in use in every reachable state, across picks, admin calls and
  reloads: a law that the engine's builder establishes and picks preserve holds always
  (locale \<open>strategy_law\<close>).  Its instances are kind routing and the absence of panics.
\<close>

section \<open>Where strategies come from\<close>

text \<open>The configurations that can be loaded, whatever the files hold at the time.\<close>

definition loadable :: "env \<Rightarrow> config \<Rightarrow> bool" where
  "loadable ev cfg \<longleftrightarrow> (\<exists>fs path. engine_load (ev\<lparr>ev_files := fs\<rparr>) path = Inr cfg)"

definition buildable :: "env \<Rightarrow> strategy \<Rightarrow> bool" where
  "buildable ev s \<longleftrightarrow> (\<exists>cfg a cn. loadable ev cfg \<and> build_strategy cfg a = Inr (s, cn))"

lemma buildableI:
  "engine_load (ev\<lparr>ev_files := fs\<rparr>) path = Inr cfg \<Longrightarrow> build_strategy cfg a = Inr (s, cn) \<Longrightarrow> buildable ev s"
  unfolding buildable_def loadable_def by blast

lemma prepares_buildable: "prepares (ev\<lparr>ev_files := fs\<rparr>) e cfg bs s cn \<Longrightarrow> buildable ev s"
  unfolding prepares_def by (blast intro: buildableI)

abbreviation strategy_of :: "world \<Rightarrow> strategy" where
  "strategy_of w \<equiv> pl_strategy (wo_pool w)"

lemma reload_strategy:
  "strategy_of (en_world (snd (reload (ev\<lparr>ev_files := fs\<rparr>) e))) = strategy_of (en_world e)
     \<or> buildable ev (strategy_of (en_world (snd (reload (ev\<lparr>ev_files := fs\<rparr>) e))))"
proof (cases rule: reload_cases [of "ev\<lparr>ev_files := fs\<rparr>" e])
  case (prepared cfg bs s cn)
  then have "strategy_of (en_world (snd (reload (ev\<lparr>ev_files := fs\<rparr>) e))) = s"
    by (rule prepared_outcomes) (simp_all add: swapped_facts)
  then show ?thesis using prepares_buildable [OF prepared] by simp
qed simp

lemma auth_strategy:
  "strategy_of (snd (auth (engine_server (ev\<lparr>ev_files := fs\<rparr>) e dh db) q w)) = strategy_of w
     \<or> buildable ev (strategy_of (snd (auth (engine_server (ev\<lparr>ev_files := fs\<rparr>) e dh db) q w)))"
proof -
  have add: "strategy_of (snd (add_backend sv body w)) = strategy_of w" for sv :: "engine_error server" and body
    by (auto simp: add_backend_def Let_def pool_add_def split: option.splits)
  have "strategy_of (snd (serve_mux (engine_server (ev\<lparr>ev_files := fs\<rparr>) e dh db) q w)) = strategy_of w
     \<or> buildable ev (strategy_of (snd (serve_mux (engine_server (ev\<lparr>ev_files := fs\<rparr>) e dh db) q w)))"
    using reload_strategy [of fs ev "e\<lparr>en_world := w\<rparr>"]
    by (auto simp: serve_mux_def list_backends_def set_backend_health_def remove_backend_def pool_remove_def
        reload_config_def engine_server_def add split_beta Let_def split: endpoint.splits option.splits)
  then show ?thesis by (auto simp: auth_def Let_def)
qed

lemma job_step_strategy:
  assumes "job_step ev j e = (j', e')"
  shows "strategy_of (en_world e') \<in> {strategy_of (en_world e), rj_strategy j}" "rj_strategy j' = rj_strategy j"
  using job_step_world(1) [of ev j e] job_step_frame(1,2) [of ev j e] assms
  by (auto simp: pool_replace_def)

lemma reload_begin_strategy:
  assumes "reload_begin (ev\<lparr>ev_files := fs\<rparr>) e = (Inr j, e')"
  shows "strategy_of (en_world e') = strategy_of (en_world e) \<and> buildable ev (rj_strategy j)"
  by (rule reload_begin_Inr [OF assms]) (simp add: prepares_buildable)

section \<open>Laws\<close>

locale strategy_law =
  fixes ev :: env and P :: "strategy \<Rightarrow> bool"
  assumes pick_keeps: "P s \<Longrightarrow> P (fst (snd (select v req s healthy accs)))"
    and build_gives: "buildable ev s \<Longrightarrow> P s"
begin

lemma step_keeps:
  assumes "sys_step ev dh db s s'" and "P (strategy_of (world_of s))"
    and "\<forall>j \<in> set (sy_jobs s). P (rj_strategy j)"
  shows "P (strategy_of (world_of s')) \<and> (\<forall>j \<in> set (sy_jobs s'). P (rj_strategy j))"
  using assms(1)
proof cases
  case (Choose now draw req r w)
  then have "strategy_of w = strategy_of (snd (serve_choose now draw req (world_of s)))" by simp
  then show ?thesis
    using assms(2,3) Choose(1) by (simp add: serve_choose_def pool_pick_def split_beta pick_keeps)
next
  case (TurnAway now draw req c w)
  then have "strategy_of w = strategy_of (snd (serve_choose now draw req (world_of s)))" by simp
  then show ?thesis
    using assms(2,3) TurnAway(1) by (simp add: serve_choose_def pool_pick_def split_beta pick_keeps)
next
  case (Admit xs x ys sw calls w)
  then show ?thesis using serve_admit_world [of "ex_backend x" "world_of s"] assms(2,3) by simp
next
  case (Dial xs x ys sw rp w)
  then show ?thesis using assms(2,3) by (auto simp: serve_connect_def split_beta)
next
  case (Respond xs x ys sw rp now dur u sw' w calls)
  then show ?thesis
    using serve_respond_frame(3) [of now dur u "ex_backend x" rp sw "world_of s"] assms(2,3) by simp
next
  case (Release xs x ys sw w calls)
  then show ?thesis using serve_release_world [of "ex_backend x" "world_of s"] assms(2,3) by simp
next
  case (Judge r ok c d)
  then show ?thesis using assms(2,3) by simp
next
  case (Settle r d)
  then show ?thesis using assms(2,3) by simp
next
  case (AdminCall fs q re w)
  then show ?thesis
    using auth_strategy [of fs ev "sy_engine s" dh db q "world_of s"] assms(2,3) build_gives by auto
next
  case (ReloadCall fs err e)
  then show ?thesis using reload_strategy [of fs ev "sy_engine s"] assms(2,3) build_gives by auto
next
  case (ReloadBegin fs j e)
  then show ?thesis using reload_begin_strategy [OF ReloadBegin(2)] assms(2,3) build_gives by simp
next
  case (ReloadGoes xs j ys fs j' e)
  then show ?thesis using job_step_strategy [OF ReloadGoes(3)] assms(2,3) by auto
qed

lemma always: "reach ev dh db s \<Longrightarrow> P (strategy_of (world_of s)) \<and> (\<forall>j \<in> set (sy_jobs s). P (rj_strategy j))"
proof (induction rule: reach.induct)
  case (Start path cfg e)
  from new_engine_world [OF Start(2)] obtain a s cn
    where "build_strategy cfg a = Inr (s, cn)" "strategy_of (en_world e) = s"
    by (auto simp: new_world_def new_pool_def)
  moreover have "engine_load (ev\<lparr>ev_files := ev_files ev\<rparr>) path = Inr cfg" using Start(1) by simp
  ultimately have "buildable ev (strategy_of (en_world e))" using buildableI by blast
  then show ?case using build_gives by simp
next
  case (Next s s')
  then show ?case using step_keeps by blast
qed

end

section \<open>Kind routing\<close>

text \<open>The strategy keeps requests of a method to backends of the kinds \<open>W\<close>; a configuration
  asks for it.\<close>

fun confines :: "string \<Rightarrow> string set \<Rightarrow> strategy \<Rightarrow> bool" where
  "confines m W (KindAware wm wk rk f) \<longleftrightarrow> to_upper m \<in> wm \<and> wk \<subseteq> W"
| "confines m W _ \<longleftrightarrow> False"

definition routes_writes :: "string \<Rightarrow> string set \<Rightarrow> config \<Rightarrow> bool" where
  "routes_writes m W cfg \<longleftrightarrow>
     (case cf_kind_routing cfg of None \<Rightarrow> False
      | Some k \<Rightarrow> to_upper m \<in> set (List.map to_upper (kr_write_methods k)) \<and> set (kr_write_kinds k) \<subseteq> W)"

lemma confines_select:
  "confines m W s \<Longrightarrow> confines m W (fst (snd (select v req s healthy accs)))"
  by (cases s) (auto simp: split_beta Let_def split: option.splits)

lemma confines_pick:
  assumes "confines (rq_method q) W s" and "fst (select v (Some q) s healthy accs) = Pick r"
  shows "bk_kind (vw_heap v r) \<in> W"
proof -
  from assms(1) obtain wm wk rk f where s: "s = KindAware wm wk rk f"
    and w: "to_upper (rq_method q) \<in> wm" "wk \<subseteq> W" by (cases s) auto
  let ?c = "kind_filter (vw_heap v) wk rk healthy True"
  have "?c \<noteq> [] \<and> fst (select v (Some q) f ?c accs) = Pick r"
    using assms(2) w(1) unfolding s by (auto simp: split_beta Let_def split: if_splits)
  then have "r \<in> set ?c" using select_member by blast
  then show ?thesis using w(2) by (auto simp: kind_filter_def)
qed

lemma confines_built:
  "routes_writes m W cfg \<Longrightarrow> build_strategy cfg a = Inr (s, cn) \<Longrightarrow> confines m W s"
  by (auto simp: routes_writes_def build_strategy_def new_kind_aware_def set_of_upper_def set_of_def Let_def
      split: option.splits sum.splits prod.splits)

interpretation writes: strategy_law ev
  "\<lambda>s. (\<forall>cfg. loadable ev cfg \<longrightarrow> routes_writes m W cfg) \<longrightarrow> confines m W s" for ev m W
  by unfold_locales (use confines_select confines_built in \<open>blast, unfold buildable_def, blast\<close>)

interpretation safe: strategy_law ev callable for ev
  by unfold_locales (auto simp: select_frame buildable_def dest: build_strategy_callable)


end
