(* ===== verification/BudgetSafety.thy ===== *)
theory BudgetSafety
  imports KindSafety
begin

text \<open>
  What holds of the egress budgets in every reachable state: where every loadable
  configuration asks for the cost-bounded strategy, each choice respects the budgets,
  through picks, admin calls and reloads.  It is another instance of \<open>strategy_law\<close>.
\<close>

text \<open>The accountant a strategy without session affinity consults, and the backends it
  consults it about.\<close>

fun budget_of :: "strategy \<Rightarrow> acc_ref option option" where
  "budget_of (CostBounded a rr) = Some a"
| "budget_of (KindAware wm wk rk f) = budget_of f"
| "budget_of _ = None"

fun eligible :: "heap \<Rightarrow> request \<Rightarrow> strategy \<Rightarrow> bref list \<Rightarrow> bref list" where
  "eligible h q (KindAware wm wk rk f) healthy =
     (let c = kind_filter h wk rk healthy (to_upper (rq_method q) \<in> wm)
      in eligible h q f (if c = [] then healthy else c))"
| "eligible h q _ healthy = healthy"

text \<open>A configuration asks for the cost-bounded strategy without affinity.\<close>

definition asks_budget :: "config \<Rightarrow> bool" where
  "asks_budget cfg \<longleftrightarrow> cf_strategy cfg = ''cost_bounded_least_latency'' \<and> cf_sticky cfg = None"

lemma budget_select: "budget_of (fst (snd (select v q s healthy accs))) = budget_of s"
  by (induction s arbitrary: healthy accs) (auto simp: split_beta Let_def split: route.splits option.splits)

lemma budget_built:
  assumes "asks_budget cfg" and "build_strategy cfg a = Inr (s, cn)"
  shows "budget_of s = Some a"
proof -
  have "build_base_strategy ''cost_bounded_least_latency'' a = Inr (CostBounded a 0)"
  proof -
    have "parse_strategy ''cost_bounded_least_latency'' = Inr (CostBounded None 0)" by code_simp
    then show ?thesis by (simp add: build_base_strategy_def new_cost_bounded_def)
  qed
  with assms show ?thesis
    by (auto simp: asks_budget_def build_strategy_def new_kind_aware_def split: option.splits)
qed

lemma budget_pick:
  assumes "budget_of s = Some a" and "fst (select v (Some q) s healthy accs) = Pick r"
  shows "eligible (vw_heap v) q s healthy \<noteq> []
     \<and> (\<exists>rr. fst (cost_pick (vw_heap v) (vw_now v) a rr (eligible (vw_heap v) q s healthy) accs) = Pick r)"
  using assms
proof (induction s arbitrary: healthy)
  case (CostBounded b rr)
  then have "fst (cost_pick (vw_heap v) (vw_now v) a rr healthy accs) = Pick r"
    by (simp add: split_beta)
  moreover from this have "healthy \<noteq> []" by (auto simp: cost_pick_def)
  ultimately show ?case by auto
next
  case (KindAware wm wk rk f)
  let ?c = "kind_filter (vw_heap v) wk rk healthy (to_upper (rq_method q) \<in> wm)"
  have "fst (select v (Some q) f (if ?c = [] then healthy else ?c) accs) = Pick r"
    using KindAware.prems(2) by (auto simp: split_beta Let_def split: if_splits)
  from KindAware.IH [OF _ this] KindAware.prems(1) show ?case by (simp add: Let_def)
qed simp_all

interpretation budget: strategy_law ev
  "\<lambda>s. (\<forall>cfg. loadable ev cfg \<longrightarrow> asks_budget cfg) \<longrightarrow> budget_of s \<noteq> None" for ev
  by unfold_locales (use budget_select budget_built in \<open>simp, unfold buildable_def, blast\<close>)


end
