(* ===== verification/Draining.thy ===== *)
theory Draining
  imports System
begin

text \<open>
  Open requests and how they end.  \<open>work_left\<close> counts the steps the open requests still have
  to take.  Nothing but a new request raises it, and it can always be brought to zero, after
  which no backend has a request in flight.
\<close>

section \<open>The measure\<close>

fun steps_left :: "stage \<Rightarrow> nat" where
  "steps_left Picked = 4"
| "steps_left (Waiting sw) = 3"
| "steps_left (Dialed sw rp) = 2"
| "steps_left (Finished sw) = 1"

definition work_left :: "exchange list \<Rightarrow> nat" where
  "work_left xs = sum_list (List.map (\<lambda>x. steps_left (ex_stage x)) xs)"

lemma work_left_simps [simp]:
  "work_left [] = 0" "work_left (x # xs) = steps_left (ex_stage x) + work_left xs"
  "work_left (xs @ ys) = work_left xs + work_left ys"
  by (simp_all add: work_left_def)

lemma steps_left_pos [simp]: "0 < steps_left st"
  by (cases st) simp_all

lemma work_left_0 [simp]: "work_left xs = 0 \<longleftrightarrow> xs = []"
proof (cases xs)
  case (Cons x ys)
  then show ?thesis using steps_left_pos [of "ex_stage x"] by simp
qed simp

text \<open>What a step does to the open requests.\<close>

lemma put_world_open [simp]: "sy_open (put_world w s) = sy_open s" "world_of (put_world w s) = w"
  by (simp_all add: put_world_def)

lemma step_work:
  assumes "sys_step ev dh db s s'"
  shows "sy_open s' = sy_open s \<or> work_left (sy_open s) = Suc (work_left (sy_open s'))
     \<or> (\<exists>r. sy_open s' = \<lparr>ex_backend = r, ex_stage = Picked\<rparr> # sy_open s)"
  using assms by cases simp_all

section \<open>Progress\<close>

text \<open>The first open request takes its next step.\<close>

lemma step_enabled:
  assumes "sy_open s = x # xs"
  shows "\<exists>s'. sys_step ev dh db s s' \<and> work_left (sy_open s) = Suc (work_left (sy_open s'))
     \<and> wo_pool (world_of s') = wo_pool (world_of s)" (is ?goal)
proof -
  have I: ?goal if "sys_step ev dh db s s'" "work_left (sy_open s) = Suc (work_left (sy_open s'))"
    "wo_pool (world_of s') = wo_pool (world_of s)" for s' using that by blast
  let ?r = "ex_backend x" and ?w = "world_of s"
  show ?goal
  proof (cases "ex_stage x")
    case Picked
    obtain sw calls w where "serve_admit ?r ?w = (sw, calls, w)" using prod_cases3 by blast
    with serve_admit_world [of ?r ?w] show ?goal
      by (intro I [OF sys_step.Admit [of s "[]" x xs sw calls w]]) (simp_all add: assms Picked)
  next
    case (Waiting sw)
    obtain rp w where a: "serve_connect ?r ?w = (rp, w)" by fastforce
    then have "wo_pool w = wo_pool ?w" by (auto simp: serve_connect_def split_beta)
    with a show ?goal by (intro I [OF sys_step.Dial [of s "[]" x xs sw rp w]]) (simp_all add: assms Waiting)
  next
    case (Dialed sw rp)
    let ?u = "Failed [] DeadlineExceeded"
    obtain sw' w calls where "serve_respond 0 0 ?u ?r rp sw ?w = (sw', w, calls)" using prod_cases3 by blast
    with serve_respond_frame(3) [of 0 0 ?u ?r rp sw ?w] show ?goal
      by (intro I [OF sys_step.Respond [of s "[]" x xs sw rp 0 0 ?u sw' w calls]]) (simp_all add: assms Dialed)
  next
    case (Finished sw)
    obtain w calls where "serve_release ?r ?w = (w, calls)" by fastforce
    with serve_release_world [of ?r ?w] show ?goal
      by (intro I [OF sys_step.Release [of s "[]" x xs sw w calls]]) (simp_all add: assms Finished)
  qed
qed

lemma drain:
  "\<exists>s'. (sys_step ev dh db ^^ work_left (sy_open s)) s s' \<and> sy_open s' = [] \<and> wo_pool (world_of s') = wo_pool (world_of s)"
proof (induction "work_left (sy_open s)" arbitrary: s)
  case 0
  then show ?case by (intro exI [of _ s]) simp
next
  case (Suc n)
  then obtain x xs where "sy_open s = x # xs" by (cases "sy_open s") simp_all
  from step_enabled [OF this] obtain s1 where s1: "sys_step ev dh db s s1"
    "work_left (sy_open s) = Suc (work_left (sy_open s1))" "wo_pool (world_of s1) = wo_pool (world_of s)" by blast
  with Suc obtain s' where "(sys_step ev dh db ^^ n) s1 s'" "sy_open s' = []" "wo_pool (world_of s') = wo_pool (world_of s1)"
    by fastforce
  moreover from s1(1) this(1) have "(sys_step ev dh db ^^ Suc n) s s'" by (rule relpowp_Suc_I2)
  ultimately show ?case using s1(3) unfolding Suc.hyps(2) [symmetric] by (intro exI [of _ s']) simp
qed

lemma reach_relpow: "reach ev dh db s \<Longrightarrow> (sys_step ev dh db ^^ n) s s' \<Longrightarrow> reach ev dh db s'"
  by (blast intro: reach_steps relpowp_imp_rtranclp)

section \<open>Draining\<close>


end
