(* ===== verification/Serving.thy ===== *)
theory Serving
  imports Proxy
begin

text \<open>
  \<^verbatim>\<open>ServeHTTP\<close> of \<^verbatim>\<open>internal/proxy/proxy.go\<close> from end to end, when nothing interferes: the
  steps of \<open>Proxy\<close> in their order, the span that traces the request, the deadline of the
  upstream exchange and the address the request is rewritten to.  The tracer's
  propagation of contexts is a parameter (\<open>parent\<close>).
\<close>

section \<open>Spans\<close>

record span =
  sp_name :: string
  sp_parent :: "string option"
  sp_attrs :: "(string \<times> string) list"
  sp_error :: "string option"
  sp_ended :: bool

definition span_attr :: "string \<Rightarrow> string \<Rightarrow> span \<Rightarrow> span" where
  "span_attr k v sp = sp\<lparr>sp_attrs := sp_attrs sp @ [(k, v)]\<rparr>"

definition start_span :: "string option \<Rightarrow> string \<Rightarrow> string \<Rightarrow> span" where
  "start_span parent meth target =
     \<lparr>sp_name = ''openvcc.proxy'', sp_parent = parent,
      sp_attrs = [(''http.method'', meth), (''http.target'', target)], sp_error = None, sp_ended = False\<rparr>"

definition span_refused :: "span \<Rightarrow> span" where
  "span_refused sp = span_attr ''openvcc.error_kind'' ''no_backend'' (sp\<lparr>sp_error := Some ''no backend available''\<rparr>)"

definition span_picked :: "backend \<Rightarrow> span \<Rightarrow> span" where
  "span_picked b sp =
     span_attr ''openvcc.backend.region'' (bk_region b)
       (span_attr ''openvcc.backend.cloud'' (bk_cloud b) (span_attr ''openvcc.backend.name'' (bk_name b) sp))"

definition status_text :: "int \<Rightarrow> string" where
  "status_text code =
     (if code = 500 then ''Internal Server Error'' else if code = 501 then ''Not Implemented''
      else if code = 502 then ''Bad Gateway'' else if code = 503 then ''Service Unavailable''
      else if code = 504 then ''Gateway Timeout'' else if code = 505 then ''HTTP Version Not Supported''
      else if code = 506 then ''Variant Also Negotiates'' else if code = 507 then ''Insufficient Storage''
      else if code = 508 then ''Loop Detected'' else if code = 510 then ''Not Extended''
      else if code = 511 then ''Network Authentication Required'' else '''')"

definition span_answered :: "int \<Rightarrow> span \<Rightarrow> span" where
  "span_answered code sp =
     (let sp = span_attr ''http.status_code'' (itoa code) sp
      in if 500 \<le> code then sp\<lparr>sp_error := Some (status_text code)\<rparr> else sp)"

definition end_span :: "span \<Rightarrow> span" where
  "end_span sp = sp\<lparr>sp_ended := True\<rparr>"

section \<open>The outgoing request\<close>

text \<open>The deadline of the exchange, from the time \<open>t\<close> at which the backend was counted.\<close>

definition deadline :: "handler \<Rightarrow> int \<Rightarrow> int option" where
  "deadline ph t = (if 0 < ph_timeout ph then Some (t + ph_timeout ph) else None)"

record outgoing =
  og_scheme :: string
  og_url_host :: string
  og_host :: string

text \<open>\<^verbatim>\<open>Rewrite\<close>: scheme and host of the target the reverse proxy captured, which is the host
  header, too.\<close>

definition rewrite :: "heap \<Rightarrow> rev_proxy \<Rightarrow> outgoing" where
  "rewrite h rp =
     (let u = bk_url (h (rp_target rp))
      in \<lparr>og_scheme = url_scheme u, og_url_host = url_host u, og_host = url_host u\<rparr>)"

section \<open>The handler\<close>

text \<open>What the caller gets: \<open>sv_done\<close> is false when the handler panics.\<close>

record served =
  sv_writer :: status_writer
  sv_done :: bool
  sv_span :: span
  sv_sent_to :: "outgoing option"
  sv_deadline :: "int option"
  sv_calls :: "metric_call list"

definition serve_http :: "string option \<Rightarrow> string \<Rightarrow> int \<Rightarrow> int \<Rightarrow> nat \<Rightarrow> int \<Rightarrow> upstream \<Rightarrow> request \<Rightarrow> world \<Rightarrow>
    served \<times> world" where
  "serve_http parent target now later draw dur u req w =
     (let sp = start_span parent (rq_method req) target;
          (c, w) = serve_choose now draw req w
      in case c of
           ChoicePanic \<Rightarrow>
             (\<lparr>sv_writer = new_status_writer, sv_done = False, sv_span = end_span sp, sv_sent_to = None, sv_deadline = None, sv_calls = []\<rparr>, w)
         | TurnedAway s calls \<Rightarrow>
             (\<lparr>sv_writer = s, sv_done = True, sv_span = end_span (span_refused sp), sv_sent_to = None, sv_deadline = None, sv_calls = calls\<rparr>, w)
         | Chosen r \<Rightarrow>
             let sp = span_picked (wo_heap w r) sp;
                 (s, calls1, w) = serve_admit r w;
                 dl = deadline (wo_handler w) now;
                 (rp, w) = serve_connect r w;
                 sent = rewrite (wo_heap w) rp;
                 broken = snd (reverse_proxy (wo_handler w) (wo_heap w) rp u s);
                 (s, w, calls2) = serve_respond later dur u r rp s w;
                 sp = (if broken then sp else span_answered (sw_code s) sp);
                 (w, calls3) = serve_release r w
             in (\<lparr>sv_writer = s, sv_done = (\<not> broken), sv_span = end_span sp, sv_sent_to = Some sent,
                  sv_deadline = dl,
                  sv_calls = calls1 @ calls2 @ calls3\<rparr>, w))"

section \<open>Facts\<close>

lemma serve_connect_heap: "wo_heap (snd (serve_connect r w)) = wo_heap w"
  by (simp add: serve_connect_def split_beta)

lemma respond_heap:
  "wo_heap (fst (snd (serve_respond now dur u r rp s w))) =
     (if snd (reverse_proxy (wo_handler w) (wo_heap w) rp u s) then wo_heap w
      else modify (record_latency dur []) r (wo_heap w))"
  by (simp add: serve_respond_def split_beta Let_def)

text \<open>A request that is picked, as the sequence of its steps.\<close>

lemma serve_http_Chosen:
  assumes "serve_choose now draw req w = (Chosen r, w1)"
  obtains s calls1 w2 rp w3 s' w4 calls2 w5 calls3 where
    "serve_admit r w1 = (s, calls1, w2)" "serve_connect r w2 = (rp, w3)"
    "serve_respond later dur u r rp s w3 = (s', w4, calls2)" "serve_release r w4 = (w5, calls3)"
    "serve_http parent target now later draw dur u req w =
       (\<lparr>sv_writer = s', sv_done = (\<not> snd (reverse_proxy (wo_handler w3) (wo_heap w3) rp u s)),
         sv_span = end_span (if snd (reverse_proxy (wo_handler w3) (wo_heap w3) rp u s)
                             then span_picked (wo_heap w1 r) (start_span parent (rq_method req) target)
                             else span_answered (sw_code s') (span_picked (wo_heap w1 r) (start_span parent (rq_method req) target))),
         sv_sent_to = Some (rewrite (wo_heap w3) rp), sv_deadline = deadline (wo_handler w2) now, sv_calls = calls1 @ calls2 @ calls3\<rparr>, w5)"
proof -
  obtain s calls1 w2 where a: "serve_admit r w1 = (s, calls1, w2)" using prod_cases3 by blast
  obtain rp w3 where c: "serve_connect r w2 = (rp, w3)" by fastforce
  obtain s' w4 calls2 where p: "serve_respond later dur u r rp s w3 = (s', w4, calls2)" using prod_cases3 by blast
  obtain w5 calls3 where e: "serve_release r w4 = (w5, calls3)" by fastforce
  show thesis
    by (rule that [OF a c p e]) (simp add: serve_http_def assms a c p e)
qed

lemma wrap64_back: "in_int64 n \<Longrightarrow> wrap64 (wrap64 (n + 1) + - 1) = n"
  by simp

text \<open>
  C27: A request that runs undisturbed leaves every in-flight counter as it found it, also when
  it is refused or its transfer breaks off; what remains of it on the backends is one
  latency sample, on the backend picked, and none at all for a broken transfer.
\<close>

theorem serve_http_balances:
  assumes "serve_http parent target now later draw dur u req w = (x, w')"
    and "\<forall>r. in_int64 (bk_inflight (wo_heap w r))"
  shows "(\<forall>r. bk_inflight (wo_heap w' r) = bk_inflight (wo_heap w r))
       \<and> (wo_heap w' = wo_heap w \<or> sv_done x \<and> (\<exists>r. fst (serve_choose now draw req w) = Chosen r
            \<and> (\<forall>q. wo_heap w' q = (if q = r then record_latency dur [] (wo_heap w r) else wo_heap w q))))"
proof (cases "fst (serve_choose now draw req w)")
  case (Chosen r)
  then obtain w1 where ch: "serve_choose now draw req w = (Chosen r, w1)" by (cases "serve_choose now draw req w") simp
  have h1: "wo_heap w1 = wo_heap w" using ch by (auto simp: serve_choose_def split_beta)
  show ?thesis
  proof (rule serve_http_Chosen [OF ch, of later dur u parent target])
    fix s calls1 w2 rp s' w4 calls2 w5 calls3 and w3 :: world
    let ?broken = "snd (reverse_proxy (wo_handler w3) (wo_heap w3) rp u s)"
    assume a: "serve_admit r w1 = (s, calls1, w2)" and c: "serve_connect r w2 = (rp, w3)"
      and p: "serve_respond later dur u r rp s w3 = (s', w4, calls2)" and e: "serve_release r w4 = (w5, calls3)"
      and eq: "serve_http parent target now later draw dur u req w =
       (\<lparr>sv_writer = s', sv_done = (\<not> ?broken),
         sv_span = end_span (if ?broken then span_picked (wo_heap w1 r) (start_span parent (rq_method req) target)
                             else span_answered (sw_code s') (span_picked (wo_heap w1 r) (start_span parent (rq_method req) target))),
         sv_sent_to = Some (rewrite (wo_heap w3) rp), sv_deadline = deadline (wo_handler w2) now, sv_calls = calls1 @ calls2 @ calls3\<rparr>, w5)"
    have w': "w' = w5" and fin: "sv_done x = (\<not> ?broken)" using assms(1) eq by auto
    have h3: "wo_heap w3 = modify inc_inflight r (wo_heap w)"
      using serve_connect_heap [of r w2] a c h1 by (auto simp: serve_admit_def Let_def)
    have h5: "wo_heap w5 = modify dec_inflight r (wo_heap w4)"
      using e by (auto simp: serve_release_def Let_def)
    have h4: "wo_heap w4 = (if ?broken then wo_heap w3 else modify (record_latency dur []) r (wo_heap w3))"
      using respond_heap [of later dur u r rp s w3] p by simp
    have undone: "dec_inflight (inc_inflight (wo_heap w r)) = wo_heap w r"
      using assms(2) by (simp add: dec_inflight_def inc_inflight_def)
    have lat: "dec_inflight (record_latency dur [] (inc_inflight b)) = record_latency dur [] (dec_inflight (inc_inflight b))" for b
      by (simp add: dec_inflight_def inc_inflight_def record_latency_def)
    have "wo_heap w' q = (if q = r \<and> \<not> ?broken then record_latency dur [] (wo_heap w r) else wo_heap w q)" for q
      by (simp add: w' h5 h4 h3 modify_def lat undone)
    then show ?thesis using fin ch by (cases ?broken) auto
  qed
next
  case ChoicePanic
  then have "wo_heap w' = wo_heap w" using assms(1) by (auto simp: serve_http_def serve_choose_def split_beta Let_def)
  then show ?thesis by simp
next
  case (TurnedAway s calls)
  then have "wo_heap w' = wo_heap w" using assms(1) by (auto simp: serve_http_def serve_choose_def split_beta Let_def)
  then show ?thesis by simp
qed


end
