(* ===== verification/Chaos.thy ===== *)
theory Chaos
  imports GoBase
begin

text \<open>
  \<^verbatim>\<open>internal/chaos/chaos.go\<close>: options, driver, a run and its verdict.  The admin API and the proxy are seen through HTTP: the results of the
  calls are parameters.  Times are nanoseconds since Go's zero time.  The ratio test
  \<^verbatim>\<open>failed/requests > 0.20\<close> on floats is \<open>5 * failed > requests\<close>, which it equals for fewer
  than \<open>2 ^ 52\<close> requests.
\<close>

section \<open>Options\<close>

record options =
  op_admin_url :: string
  op_admin_token :: string
  op_proxy_url :: string
  op_fail_cloud :: string
  op_duration :: int
  op_rps :: int
  op_concurrency :: int

datatype chaos_error =
    AdminUrlRequired
  | ProxyUrlRequired
  | FailCloudRequired
  | DurationRequired
  | ListFailed
  | NoBackendMatched string
  | MarkFailed string

definition validate_options :: "options \<Rightarrow> chaos_error + options" where
  "validate_options opts =
     (if op_admin_url opts = '''' then Inl AdminUrlRequired
      else if op_proxy_url opts = '''' then Inl ProxyUrlRequired
      else if op_fail_cloud opts = '''' then Inl FailCloudRequired
      else if op_duration opts \<le> 0 then Inl DurationRequired
      else Inr (opts\<lparr>op_rps := (if op_rps opts \<le> 0 then 50 else op_rps opts),
                  op_concurrency := (if op_concurrency opts \<le> 0 then 4 else op_concurrency opts)\<rparr>))"

section \<open>The traffic driver\<close>

text \<open>\<open>dr_first_hit\<close> is \<^verbatim>\<open>firstHitOtherCloud\<close>; 0 is the zero time.\<close>

record driver =
  dr_total :: int
  dr_success :: int
  dr_failed :: int
  dr_counts :: "string \<rightharpoonup> int"
  dr_first_hit :: int

definition new_driver :: driver where
  "new_driver = \<lparr>dr_total = 0, dr_success = 0, dr_failed = 0, dr_counts = Map.empty, dr_first_hit = 0\<rparr>"

text \<open>The ticker's interval; \<^verbatim>\<open>NewTicker\<close> panics unless it is positive.\<close>

definition tick_interval :: "int \<Rightarrow> int" where
  "tick_interval rps = 1000000000 div rps"

text \<open>The end of one request: it cannot be built or sent, or a status and the \<^verbatim>\<open>X-Cloud\<close>
  header come back.\<close>

datatype shot = ShotFailed | ShotAnswered int string

definition count_of :: "(string \<rightharpoonup> int) \<Rightarrow> string \<Rightarrow> int" where
  "count_of m c = (case m c of None \<Rightarrow> 0 | Some n \<Rightarrow> n)"

definition shot_start :: "driver \<Rightarrow> driver" where
  "shot_start d = d\<lparr>dr_total := wrap64 (dr_total d + 1)\<rparr>"

definition shot_end :: "int \<Rightarrow> shot \<Rightarrow> driver \<Rightarrow> driver" where
  "shot_end now x d =
     (case x of
        ShotFailed \<Rightarrow> d\<lparr>dr_failed := wrap64 (dr_failed d + 1)\<rparr>
      | ShotAnswered status cloud \<Rightarrow>
          if 500 \<le> status then d\<lparr>dr_failed := wrap64 (dr_failed d + 1)\<rparr>
          else
            let d = d\<lparr>dr_success := wrap64 (dr_success d + 1)\<rparr> in
            if cloud \<noteq> '''' then
              d\<lparr>dr_counts := (dr_counts d)(cloud \<mapsto> wrap64 (count_of (dr_counts d) cloud + 1)),
                dr_first_hit := (if dr_first_hit d = 0 then now else dr_first_hit d)\<rparr>
            else d)"

definition fire :: "int \<Rightarrow> shot \<Rightarrow> driver \<Rightarrow> driver" where
  "fire now x d = shot_end now x (shot_start d)"

definition fire_all :: "(int \<times> shot) list \<Rightarrow> driver \<Rightarrow> driver" where
  "fire_all xs d = fold (\<lambda>(now, x). fire now x) xs d"

definition copy_cloud_counts :: "driver \<Rightarrow> (string \<rightharpoonup> int) \<Rightarrow> (string \<rightharpoonup> int)" where
  "copy_cloud_counts d counts = counts ++ dr_counts d"

lemma copy_cloud_counts_empty [simp]: "copy_cloud_counts d Map.empty = dr_counts d"
  by (simp add: copy_cloud_counts_def)

section \<open>Reports\<close>

datatype verdict_reason =
    NoReason
  | NoRequests
  | StillHitting string int
  | LagTooLong int
  | RatioTooHigh

record report =
  re_started :: int
  re_ended :: int
  re_failed_cloud :: string
  re_duration :: int
  re_requests :: int
  re_successful :: int
  re_failed :: int
  re_per_cloud :: "string \<rightharpoonup> int"
  re_lag :: int
  re_result :: string
  re_reason :: verdict_reason

definition evaluate :: "report \<Rightarrow> options \<Rightarrow> string \<times> verdict_reason" where
  "evaluate r opts =
     (if re_requests r = 0 then (''fail'', NoRequests)
      else if 0 < count_of (re_per_cloud r) (re_failed_cloud r)
        then (''fail'', StillHitting (re_failed_cloud r) (count_of (re_per_cloud r) (re_failed_cloud r)))
      else if op_duration opts div 2 < re_lag r then (''fail'', LagTooLong (re_lag r))
      else if re_requests r < 5 * re_failed r then (''fail'', RatioTooHigh)
      else (''pass'', NoReason))"

section \<open>A run\<close>

record target =
  tg_name :: string
  tg_cloud :: string

definition filter_cloud :: "target list \<Rightarrow> string \<Rightarrow> string list" where
  "filter_cloud ts cloud = List.map tg_name (filter (\<lambda>t. tg_cloud t = cloud) ts)"

text \<open>The marking loop: it stops at the first call that fails.  The trace is the list of
  \<^verbatim>\<open>setHealth\<close> calls.\<close>

fun mark_all :: "(string \<Rightarrow> bool) \<Rightarrow> string list \<Rightarrow> chaos_error option \<times> (string \<times> bool) list" where
  "mark_all succeeds [] = (None, [])"
| "mark_all succeeds (n # ns) =
     (if succeeds n then (let (e, calls) = mark_all succeeds ns in (e, (n, False) # calls))
      else (Some (MarkFailed n), [(n, False)]))"

text \<open>What the outside does during a run.\<close>

record outside =
  ou_backends :: "target list option"
  ou_mark :: "string \<Rightarrow> bool"
  ou_started :: int
  ou_marked :: int
  ou_ended :: int
  ou_shots :: "(int \<times> shot) list"

definition chaos_run :: "outside \<Rightarrow> options \<Rightarrow> (chaos_error + report) \<times> (string \<times> bool) list" where
  "chaos_run out opts =
     (case validate_options opts of
        Inl e \<Rightarrow> (Inl e, [])
      | Inr opts \<Rightarrow>
          (case ou_backends out of
             None \<Rightarrow> (Inl ListFailed, [])
           | Some ts \<Rightarrow>
               let failed = filter_cloud ts (op_fail_cloud opts) in
               if failed = [] then (Inl (NoBackendMatched (op_fail_cloud opts)), [])
               else (case mark_all (ou_mark out) failed of
                   (Some e, calls) \<Rightarrow> (Inl e, calls)
                 | (None, calls) \<Rightarrow>
                     let d = fire_all (ou_shots out) new_driver;
                         r = \<lparr>re_started = ou_started out, re_ended = ou_ended out,
                              re_failed_cloud = op_fail_cloud opts, re_duration = op_duration opts,
                              re_requests = dr_total d, re_successful = dr_success d,
                              re_failed = dr_failed d, re_per_cloud = copy_cloud_counts d Map.empty,
                              re_lag = sat64 (dr_first_hit d - ou_marked out),
                              re_result = '''', re_reason = NoReason\<rparr>;
                         (result, reason) = evaluate r opts
                     in (Inr (r\<lparr>re_result := result, re_reason := reason\<rparr>),
                         calls @ List.map (\<lambda>n. (n, True)) failed))))"

section \<open>What the driver counts\<close>

fun shot_failed :: "shot \<Rightarrow> bool" where
  "shot_failed ShotFailed = True"
| "shot_failed (ShotAnswered status cloud) = (500 \<le> status)"

fun shot_cloud :: "shot \<Rightarrow> string" where
  "shot_cloud ShotFailed = ''''"
| "shot_cloud (ShotAnswered status cloud) = (if 500 \<le> status then '''' else cloud)"

definition failures :: "(int \<times> shot) list \<Rightarrow> nat" where
  "failures xs = length (filter (\<lambda>x. shot_failed (snd x)) xs)"

definition hits :: "string \<Rightarrow> (int \<times> shot) list \<Rightarrow> nat" where
  "hits c xs = length (filter (\<lambda>x. shot_cloud (snd x) = c) xs)"

definition first_hit :: "(int \<times> shot) list \<Rightarrow> int" where
  "first_hit xs = (case find_first (\<lambda>x. shot_cloud (snd x) \<noteq> '''') xs of None \<Rightarrow> 0 | Some x \<Rightarrow> fst x)"

lemma fire_all_snoc: "fire_all (xs @ [x]) d = fire (fst x) (snd x) (fire_all xs d)"
  by (simp add: fire_all_def split_beta)

lemma fire_counts:
  "c \<noteq> '''' \<Longrightarrow> count_of (dr_counts (fire now x d)) c =
     (if shot_cloud x = c then wrap64 (count_of (dr_counts d) c + 1) else count_of (dr_counts d) c)"
  by (cases x) (auto simp: fire_def shot_start_def shot_end_def Let_def count_of_def)

lemma fire_scalars:
  "dr_total (fire now x d) = wrap64 (dr_total d + 1)"
  "dr_failed (fire now x d) = (if shot_failed x then wrap64 (dr_failed d + 1) else dr_failed d)"
  "dr_first_hit (fire now x d) = (if shot_cloud x \<noteq> '''' \<and> dr_first_hit d = 0 then now else dr_first_hit d)"
  by (cases x; simp add: fire_def shot_start_def shot_end_def Let_def)+

lemma first_hit_snoc:
  assumes "\<forall>x \<in> set xs. 0 < fst x"
  shows "first_hit (xs @ [x]) = (if shot_cloud (snd x) \<noteq> '''' \<and> first_hit xs = 0 then fst x else first_hit xs)"
proof (cases "find_first (\<lambda>x. shot_cloud (snd x) \<noteq> '''') xs")
  case (Some y)
  then have "0 < fst y" using assms find_first_Some by fastforce
  with Some show ?thesis by (simp add: first_hit_def find_first_append)
qed (simp add: first_hit_def find_first_append)

lemma fire_all_facts:
  assumes "\<forall>x \<in> set xs. 0 < fst x"
  shows "dr_total (fire_all xs new_driver) = wrap64 (int (length xs))
       \<and> dr_failed (fire_all xs new_driver) = wrap64 (int (failures xs))
       \<and> dr_first_hit (fire_all xs new_driver) = first_hit xs
       \<and> (\<forall>c. c \<noteq> '''' \<longrightarrow> count_of (dr_counts (fire_all xs new_driver)) c = wrap64 (int (hits c xs)))"
  using assms
proof (induction xs rule: rev_induct)
  case Nil
  show ?case
    by (simp add: fire_all_def new_driver_def failures_def hits_def first_hit_def count_of_def)
next
  case (snoc x xs)
  have p: "\<forall>x \<in> set xs. 0 < fst x" using snoc.prems by simp
  show ?case
    using snoc.IH [OF p]
    by (simp add: fire_all_snoc fire_scalars fire_counts first_hit_snoc [OF p] failures_def hits_def add.commute)
qed

section \<open>What a verdict says\<close>

lemma mark_all_cases:
  "(mark_all f ns = (None, List.map (\<lambda>n. (n, False)) ns) \<and> (\<forall>n \<in> set ns. f n))
   \<or> (\<exists>pre n post. ns = pre @ n # post \<and> \<not> f n
        \<and> mark_all f ns = (Some (MarkFailed n), List.map (\<lambda>n. (n, False)) (pre @ [n])))"
proof (induction ns)
  case (Cons m ns)
  show ?case
  proof (cases "f m")
    case False
    then have "m # ns = [] @ m # ns \<and> \<not> f m
        \<and> mark_all f (m # ns) = (Some (MarkFailed m), List.map (\<lambda>n. (n, False)) ([] @ [m]))" by simp
    then show ?thesis by blast
  next
    case True
    from Cons.IH show ?thesis
    proof (elim disjE exE conjE)
      fix pre n post
      assume "ns = pre @ n # post" "\<not> f n"
        "mark_all f ns = (Some (MarkFailed n), List.map (\<lambda>n. (n, False)) (pre @ [n]))"
      with True have "m # ns = (m # pre) @ n # post \<and> \<not> f n
          \<and> mark_all f (m # ns) = (Some (MarkFailed n), List.map (\<lambda>n. (n, False)) ((m # pre) @ [n]))" by simp
      then show ?thesis by blast
    qed (simp add: True)
  qed
qed simp

lemma validate_options_Inr:
  "validate_options opts = Inr v \<Longrightarrow> op_fail_cloud v = op_fail_cloud opts \<and> op_fail_cloud v \<noteq> ''''
     \<and> op_duration v = op_duration opts \<and> 0 < op_duration v \<and> 0 < op_rps v \<and> 0 < op_concurrency v"
  by (auto simp: validate_options_def split: if_splits)

text \<open>What a run that reaches its report has seen.\<close>

lemma chaos_run_Inr:
  assumes "chaos_run out opts = (Inr r, calls)"
  obtains v ts where "validate_options opts = Inr v" "ou_backends out = Some ts"
    "filter_cloud ts (op_fail_cloud v) \<noteq> []"
    "calls = List.map (\<lambda>n. (n, False)) (filter_cloud ts (op_fail_cloud v))
           @ List.map (\<lambda>n. (n, True)) (filter_cloud ts (op_fail_cloud v))"
    "re_failed_cloud r = op_fail_cloud v"
    "re_requests r = dr_total (fire_all (ou_shots out) new_driver)"
    "re_failed r = dr_failed (fire_all (ou_shots out) new_driver)"
    "re_per_cloud r = dr_counts (fire_all (ou_shots out) new_driver)"
    "re_lag r = sat64 (dr_first_hit (fire_all (ou_shots out) new_driver) - ou_marked out)"
    "(re_result r, re_reason r) = evaluate r v"
proof -
  obtain v where v: "validate_options opts = Inr v"
    using assms by (cases "validate_options opts") (auto simp: chaos_run_def)
  obtain ts where ts: "ou_backends out = Some ts"
    using assms v by (cases "ou_backends out") (auto simp: chaos_run_def)
  let ?f = "filter_cloud ts (op_fail_cloud v)"
  have f: "?f \<noteq> []" using assms v ts by (auto simp: chaos_run_def Let_def split: if_splits)
  have m: "mark_all (ou_mark out) ?f = (None, List.map (\<lambda>n. (n, False)) ?f)"
    using mark_all_cases [of "ou_mark out" ?f] assms v ts f by (auto simp: chaos_run_def Let_def)
  show thesis
    using assms v ts f m
    by (intro that [of v ts]) (auto simp: chaos_run_def Let_def split_beta evaluate_def)
qed

lemma run_verdict:
  assumes "chaos_run out opts = (Inr r, calls)"
    and "\<forall>x \<in> set (ou_shots out). 0 < fst x" and "length (ou_shots out) < 2 ^ 63"
  shows "re_result r = ''pass'' \<longleftrightarrow>
       ou_shots out \<noteq> [] \<and> hits (op_fail_cloud opts) (ou_shots out) = 0
       \<and> sat64 (first_hit (ou_shots out) - ou_marked out) \<le> op_duration opts div 2
       \<and> 5 * failures (ou_shots out) \<le> length (ou_shots out)"
proof -
  let ?xs = "ou_shots out"
  have n: "wrap64 (int (length ?xs)) = int (length ?xs)" "wrap64 (int (failures ?xs)) = int (failures ?xs)"
    "wrap64 (int (hits c ?xs)) = int (hits c ?xs)" for c
    using wrap64_length [OF assms(3)] wrap64_length [OF assms(3), of "\<lambda>_. True"]
    by (simp_all add: failures_def hits_def)
  from assms(1) show ?thesis
  proof (rule chaos_run_Inr)
    fix v ts
    assume v: "validate_options opts = Inr v" and c: "re_failed_cloud r = op_fail_cloud v"
      and r: "re_requests r = dr_total (fire_all ?xs new_driver)"
      "re_failed r = dr_failed (fire_all ?xs new_driver)"
      "re_per_cloud r = dr_counts (fire_all ?xs new_driver)"
      "re_lag r = sat64 (dr_first_hit (fire_all ?xs new_driver) - ou_marked out)"
      "(re_result r, re_reason r) = evaluate r v"
    have "fst (re_result r, re_reason r) = fst (evaluate r v)" using r(5) by simp
    moreover have "count_of (dr_counts (fire_all ?xs new_driver)) (op_fail_cloud opts)
        = int (hits (op_fail_cloud opts) ?xs)"
      using fire_all_facts [OF assms(2)] validate_options_Inr [OF v] by (auto simp: n)
    ultimately show ?thesis
      using fire_all_facts [OF assms(2)] validate_options_Inr [OF v] c r(1-4)
      by (simp add: evaluate_def n not_less not_le)
  qed
qed

text \<open>
  C30: A chaos run passes exactly when at least one request was sent, no answer below 500
  named the failed cloud at any time of the run, the recorded lag is at most half the
  window, and at most a fifth of the requests failed (fewer than \<open>2 ^ 63\<close> requests, clock
  past the zero time).
\<close>

theorem chaos_verdict:
  assumes "chaos_run out opts = (Inr r, calls)"
    and "\<forall>x \<in> set (ou_shots out). 0 < fst x" and "length (ou_shots out) < 2 ^ 63"
  shows "re_result r = ''pass'' \<longleftrightarrow>
       ou_shots out \<noteq> [] \<and> hits (op_fail_cloud opts) (ou_shots out) = 0
       \<and> sat64 (first_hit (ou_shots out) - ou_marked out) \<le> op_duration opts div 2
       \<and> 5 * failures (ou_shots out) \<le> length (ou_shots out)"
  using assms by (rule run_verdict)

text \<open>
  C39: The failover lag is blind: once any cloud, even one that is not the failed one and
  even before the failure was marked, has answered, or when nobody ever answers, the lag
  is not positive and cannot fail the run, whatever happens after the marking.
\<close>

theorem failover_lag_blind:
  assumes "chaos_run out opts = (Inr r, calls)"
    and "\<forall>x \<in> set (ou_shots out). 0 < fst x"
    and "first_hit (ou_shots out) \<le> ou_marked out"
  shows "re_lag r \<le> 0 \<and> (\<forall>d. re_reason r \<noteq> LagTooLong d)"
  using assms(1)
proof (rule chaos_run_Inr)
  fix v ts
  assume v: "validate_options opts = Inr v"
    and lag: "re_lag r = sat64 (dr_first_hit (fire_all (ou_shots out) new_driver) - ou_marked out)"
    and e: "(re_result r, re_reason r) = evaluate r v"
  have l: "re_lag r \<le> 0" using lag fire_all_facts [OF assms(2)] assms(3) by (simp add: sat64_def)
  moreover have "0 < op_duration v" using validate_options_Inr [OF v] by simp
  then have "\<not> op_duration v div 2 < re_lag r" using l by linarith
  then have "\<forall>d. snd (evaluate r v) \<noteq> LagTooLong d" by (simp add: evaluate_def)
  then have "\<forall>d. re_reason r \<noteq> LagTooLong d" using arg_cong [OF e, of snd] by simp
  ultimately show ?thesis by blast
qed

text \<open>
  A run that produces a report marks every backend of the cloud down and afterwards up
  again, in the same order.  A run that fails while marking stops there: it has marked all
  backends before the failing one down and does not mark any of them up again.
\<close>

theorem chaos_restores:
  "case chaos_run out opts of
     (Inr r, calls) \<Rightarrow> \<exists>ns. ns \<noteq> [] \<and> calls = List.map (\<lambda>n. (n, False)) ns @ List.map (\<lambda>n. (n, True)) ns
   | (Inl (MarkFailed n), calls) \<Rightarrow>
       \<exists>ts pre post. ou_backends out = Some ts
         \<and> filter_cloud ts (op_fail_cloud opts) = pre @ n # post
         \<and> calls = List.map (\<lambda>n. (n, False)) (pre @ [n])
   | (Inl e, calls) \<Rightarrow> calls = []"
proof (cases "validate_options opts")
  case (Inl e)
  then show ?thesis by (cases e) (auto simp: chaos_run_def validate_options_def split: if_splits)
next
  case (Inr v)
  have c: "op_fail_cloud v = op_fail_cloud opts" using validate_options_Inr [OF Inr] by simp
  show ?thesis
  proof (cases "ou_backends out")
    case None
    with Inr show ?thesis by (simp add: chaos_run_def)
  next
    case (Some ts)
    let ?ns = "filter_cloud ts (op_fail_cloud v)"
    show ?thesis
    proof (cases "?ns = []")
      case True
      with Inr Some show ?thesis by (simp add: chaos_run_def)
    next
      case False
      from mark_all_cases [of "ou_mark out" ?ns] show ?thesis
      proof (elim disjE exE conjE)
        assume "mark_all (ou_mark out) ?ns = (None, List.map (\<lambda>n. (n, False)) ?ns)"
        with Inr Some False show ?thesis by (auto simp: chaos_run_def Let_def split_beta)
      next
        fix pre n post
        assume "?ns = pre @ n # post"
          "mark_all (ou_mark out) ?ns = (Some (MarkFailed n), List.map (\<lambda>n. (n, False)) (pre @ [n]))"
        with Inr Some False c show ?thesis by (auto simp: chaos_run_def Let_def)
      qed
    qed
  qed
qed

end
