(* ===== verification/Reports.thy ===== *)
theory Reports
  imports Chaos
begin

text \<open>
  Where reports go: the sinks of \<^verbatim>\<open>internal/chaos/sink.go\<close>, their use by \<^verbatim>\<open>Run\<close>, and the
  commands \<^verbatim>\<open>chaos run\<close> and \<^verbatim>\<open>chaos schedule\<close> of \<^verbatim>\<open>cmd/openvcc/main.go\<close> with what they leave
  on disk.  What the operating system allows is a record of functions; the disk and the
  standard output are state.
\<close>

section \<open>Paths\<close>

fun join_slash :: "string list \<Rightarrow> string" where
  "join_slash [] = ''''"
| "join_slash [c] = c"
| "join_slash (c # cs) = c @ ''/'' @ join_slash cs"

text \<open>\<^verbatim>\<open>filepath.Clean\<close> drops empty and dot segments and resolves double dots.\<close>

fun clean_segs :: "bool \<Rightarrow> string list \<Rightarrow> string list \<Rightarrow> string list" where
  "clean_segs rooted out [] = out"
| "clean_segs rooted out (c # cs) =
     (if c = '''' \<or> c = ''.'' then clean_segs rooted out cs
      else if c = ''..'' then
        (if out \<noteq> [] \<and> last out \<noteq> ''..'' then clean_segs rooted (butlast out) cs
         else if rooted then clean_segs rooted out cs
         else clean_segs rooted (out @ [c]) cs)
      else clean_segs rooted (out @ [c]) cs)"

definition clean_path :: "string \<Rightarrow> string" where
  "clean_path s =
     (let rooted = has_prefix ''/'' s; p = join_slash (clean_segs rooted [] (slash_split s))
      in if rooted then CHR ''/'' # p else if p = '''' then ''.'' else p)"

text \<open>\<^verbatim>\<open>filepath.Join\<close> of a directory and a non-empty name.\<close>

definition join_path :: "string \<Rightarrow> string \<Rightarrow> string" where
  "join_path dir name = clean_path (if dir = '''' then name else dir @ ''/'' @ name)"

section \<open>The operating system\<close>

text \<open>
  Which directories and files can be created, how many bytes a file or the standard output
  takes, how a report, a time and a
  duration are formatted.
\<close>

record sys_io =
  io_mkdir :: "string \<Rightarrow> bool"
  io_create :: "string \<Rightarrow> bool"
  io_room :: "string \<Rightarrow> nat"
  io_stdout_room :: nat
  io_json :: "report \<Rightarrow> string"
  io_stamp :: "int \<Rightarrow> string"
  io_duration :: "int \<Rightarrow> string"

record outlet =
  ol_stdout :: string
  ol_disk :: "string \<rightharpoonup> string"

datatype sink_error =
    MkdirFailed string
  | CreateFailed string
  | WriteFailed

datatype writer = Stdout | FileAt string

text \<open>\<^verbatim>\<open>os.Create\<close> empties the file; the encoder writes the whole text in one call.\<close>

definition create_file :: "string \<Rightarrow> outlet \<Rightarrow> outlet" where
  "create_file p ol = ol\<lparr>ol_disk := (ol_disk ol)(p \<mapsto> '''')\<rparr>"

definition put_text :: "sys_io \<Rightarrow> writer \<Rightarrow> string \<Rightarrow> outlet \<Rightarrow> sink_error option \<times> outlet" where
  "put_text io w txt ol =
     (case w of
        Stdout \<Rightarrow> (if length txt \<le> io_stdout_room io then None else Some WriteFailed,
                   ol\<lparr>ol_stdout := ol_stdout ol @ take (io_stdout_room io) txt\<rparr>)
      | FileAt p \<Rightarrow> (if length txt \<le> io_room io p then None else Some WriteFailed,
                     ol\<lparr>ol_disk := (ol_disk ol)(p \<mapsto> the (ol_disk ol p) @ take (io_room io p) txt)\<rparr>))"

section \<open>Sinks\<close>

datatype sink =
    WriterSink writer
  | FileSink string string
  | SinkFunc "report \<Rightarrow> outlet \<Rightarrow> sink_error option \<times> outlet"

text \<open>\<^verbatim>\<open>FileSink\<close>'s file name; \<open>now\<close> stands in for a zero end.\<close>

definition report_stamp :: "sys_io \<Rightarrow> int \<Rightarrow> report \<Rightarrow> string" where
  "report_stamp io now r = io_stamp io (if re_ended r = 0 then now else re_ended r)"

definition sink_file :: "sys_io \<Rightarrow> int \<Rightarrow> string \<Rightarrow> report \<Rightarrow> string" where
  "sink_file io now prefix r =
     (if prefix = '''' then ''openvcc-chaos'' else prefix) @ ''-'' @ report_stamp io now r @ ''.json''"

fun sink_write :: "sys_io \<Rightarrow> int \<Rightarrow> sink \<Rightarrow> report \<Rightarrow> outlet \<Rightarrow> sink_error option \<times> outlet" where
  "sink_write io now (WriterSink w) r ol = put_text io w (io_json io r) ol"
| "sink_write io now (FileSink dir prefix) r ol =
     (if \<not> io_mkdir io dir then (Some (MkdirFailed dir), ol)
      else let path = join_path dir (sink_file io now prefix r) in
        if \<not> io_create io path then (Some (CreateFailed path), ol)
        else put_text io (FileAt path) (io_json io r) (create_file path ol))"
| "sink_write io now (SinkFunc f) r ol = f r ol"

text \<open>The end of \<^verbatim>\<open>Run\<close>: the sink, or one around the output, or none.\<close>

definition deliver :: "sys_io \<Rightarrow> int \<Rightarrow> sink option \<Rightarrow> writer option \<Rightarrow> report \<Rightarrow> outlet \<Rightarrow>
    sink_error option \<times> outlet" where
  "deliver io now sink out r ol =
     (let sink = (if sink = None then map_option WriterSink out else sink)
      in case sink of None \<Rightarrow> (None, ol) | Some s \<Rightarrow> sink_write io now s r ol)"

text \<open>The error of \<^verbatim>\<open>Run\<close>; with a sink's error it returns the report as well.\<close>

datatype run_error =
    RunRejected chaos_error
  | SinkFailed report sink_error

definition run_reported :: "sys_io \<Rightarrow> int \<Rightarrow> sink option \<Rightarrow> writer option \<Rightarrow> outside \<Rightarrow> options \<Rightarrow> outlet \<Rightarrow>
    (run_error + report) \<times> (string \<times> bool) list \<times> outlet" where
  "run_reported io now sink out world opts ol =
     (case chaos_run world opts of
        (Inl e, calls) \<Rightarrow> (Inl (RunRejected e), calls, ol)
      | (Inr r, calls) \<Rightarrow>
          (let (err, ol) = deliver io now sink out r ol
           in (case err of None \<Rightarrow> Inr r | Some e \<Rightarrow> Inl (SinkFailed r e), calls, ol)))"

section \<open>The run command\<close>

text \<open>The token flag falls back to the environment.\<close>

definition admin_token :: "(string \<Rightarrow> string) \<Rightarrow> string \<Rightarrow> string" where
  "admin_token getenv flag = (if flag = '''' then getenv ''OPENVCC_ADMIN_TOKEN'' else flag)"

datatype run_exit =
    OutputError
  | RunFailed run_error
  | NotPassed verdict_reason
  | ExitOk

text \<open>\<^verbatim>\<open>openvcc chaos run\<close>: the report file is created before anything else happens.\<close>

definition run_command ::
  "sys_io \<Rightarrow> (string \<Rightarrow> string) \<Rightarrow> string \<Rightarrow> options \<Rightarrow> int \<Rightarrow> outside \<Rightarrow> outlet \<Rightarrow> run_exit \<times> outlet" where
  "run_command io getenv out_path opts now world ol =
     (let opts = opts\<lparr>op_admin_token := admin_token getenv (op_admin_token opts)\<rparr>;
          to_file = (out_path \<noteq> '''' \<and> out_path \<noteq> ''-'')
      in if to_file \<and> \<not> io_create io out_path then (OutputError, ol)
         else let ol = (if to_file then create_file out_path ol else ol);
                  out = (if to_file then FileAt out_path else Stdout);
                  (res, calls, ol) = run_reported io now None (Some out) world opts ol
              in (case res of
                    Inl e \<Rightarrow> RunFailed e
                  | Inr r \<Rightarrow> if re_result r \<noteq> ''pass'' then NotPassed (re_reason r) else ExitOk, ol))"

section \<open>The schedule command\<close>

datatype schedule_end =
    Completed
  | NoClouds
  | TickerPanic
  | RunError run_error
  | StoppedOnFail string verdict_reason

record schedule_flags =
  sf_options :: options
  sf_clouds :: "string list"
  sf_every :: int
  sf_max_runs :: int
  sf_stop :: bool
  sf_dir :: string
  sf_prefix :: string

definition tick_outcome :: "bool \<Rightarrow> string \<Rightarrow> run_error + report \<Rightarrow> schedule_end option" where
  "tick_outcome stop_on_fail cloud x =
     (case x of
        Inl e \<Rightarrow> Some (RunError e)
      | Inr r \<Rightarrow> if stop_on_fail \<and> re_result r \<noteq> ''pass''
                 then Some (StoppedOnFail cloud (re_reason r)) else None)"

definition tick_cloud :: "schedule_flags \<Rightarrow> nat \<Rightarrow> string" where
  "tick_cloud fl runs = sf_clouds fl ! (runs mod length (sf_clouds fl))"

definition tick_options :: "schedule_flags \<Rightarrow> nat \<Rightarrow> options" where
  "tick_options fl runs = (sf_options fl)\<lparr>op_fail_cloud := tick_cloud fl runs\<rparr>"

definition tick_line :: "sys_io \<Rightarrow> string \<Rightarrow> report \<Rightarrow> string" where
  "tick_line io cloud r = ''[chaos] cloud='' @ cloud @ '' result='' @ re_result r @ '' lag=''
     @ io_duration io (re_lag r) @ [CHR 0x0A]"

text \<open>\<^verbatim>\<open>fmt.Fprintf(os.Stdout, ...)\<close>, whose error is ignored.\<close>

definition print_out :: "sys_io \<Rightarrow> string \<Rightarrow> outlet \<Rightarrow> outlet" where
  "print_out io s ol = snd (put_text io Stdout s ol)"

definition tick :: "sys_io \<Rightarrow> schedule_flags \<Rightarrow> nat \<Rightarrow> outside \<times> int \<Rightarrow> outlet \<Rightarrow>
    schedule_end option \<times> outlet" where
  "tick io fl runs x ol =
     (let (res, calls, ol) = run_reported io (snd x) (Some (FileSink (sf_dir fl) (sf_prefix fl))) None
                              (fst x) (tick_options fl runs) ol;
          ol = (case res of Inl _ \<Rightarrow> ol | Inr r \<Rightarrow> print_out io (tick_line io (tick_cloud fl runs) r) ol)
      in (tick_outcome (sf_stop fl) (tick_cloud fl runs) res, ol))"

text \<open>
  The loop after \<open>runs\<close> completed runs.  \<open>xs\<close> holds what the coming runs meet outside, with
  the time at which each report is written; the context ends when it is used up.  The
  result is the clouds failed, in order, the end and the disk.
\<close>

fun schedule_from :: "sys_io \<Rightarrow> schedule_flags \<Rightarrow> nat \<Rightarrow> (outside \<times> int) list \<Rightarrow> outlet \<Rightarrow>
    string list \<times> schedule_end \<times> outlet" where
  "schedule_from io fl runs [] ol = ([], Completed, ol)"
| "schedule_from io fl runs (x # xs) ol =
     (if 0 < sf_max_runs fl \<and> 0 < runs \<and> sf_max_runs fl \<le> int runs then ([], Completed, ol)
      else (case tick io fl runs x ol of
              (Some e, ol) \<Rightarrow> ([tick_cloud fl runs], e, ol)
            | (None, ol) \<Rightarrow> (let (cs, e, ol) = schedule_from io fl (Suc runs) xs ol
                            in (tick_cloud fl runs # cs, e, ol))))"

definition schedule :: "sys_io \<Rightarrow> (string \<Rightarrow> string) \<Rightarrow> schedule_flags \<Rightarrow> (outside \<times> int) list \<Rightarrow> outlet \<Rightarrow>
    string list \<times> schedule_end \<times> outlet" where
  "schedule io getenv fl xs ol =
     (let fl = fl\<lparr>sf_options := (sf_options fl)\<lparr>op_admin_token := admin_token getenv (op_admin_token (sf_options fl))\<rparr>\<rparr>
      in if sf_clouds fl = [] then ([], NoClouds, ol)
         else if sf_every fl \<le> 0 then ([], TickerPanic, ol)
         else schedule_from io fl 0 xs ol)"

section \<open>The schedule rotates\<close>

lemma schedule_from_facts:
  "schedule_from io fl k xs ol = (cs, e, ol') \<Longrightarrow>
     (\<forall>i < length cs. cs ! i = tick_cloud fl (k + i))
     \<and> (0 < sf_max_runs fl \<and> 0 < k \<longrightarrow> int (length cs) \<le> max 0 (sf_max_runs fl - int k))
     \<and> (0 < sf_max_runs fl \<and> k = 0 \<longrightarrow> int (length cs) \<le> sf_max_runs fl)
     \<and> length cs \<le> length xs
     \<and> (e = Completed \<longrightarrow> length cs = length xs \<or> 0 < sf_max_runs fl \<and> int (k + length cs) = sf_max_runs fl
          \<or> 0 < sf_max_runs fl \<and> 0 < k \<and> sf_max_runs fl \<le> int k \<and> cs = [])"
proof (induction xs arbitrary: k ol cs e ol')
  case (Cons x xs)
  show ?case
  proof (cases "0 < sf_max_runs fl \<and> 0 < k \<and> sf_max_runs fl \<le> int k")
    case False
    obtain en o1 where t: "tick io fl k x ol = (en, o1)" by fastforce
    show ?thesis
    proof (cases en)
      case None
      obtain cs1 e1 o2 where s: "schedule_from io fl (Suc k) xs o1 = (cs1, e1, o2)" using prod_cases3 by blast
      from Cons.IH [OF s] Cons.prems False show ?thesis
        by (auto simp: t None s nth_Cons' max_def)
    next
      case (Some e1)
      have "e1 \<noteq> Completed"
        using t Some by (auto simp: tick_def tick_outcome_def Let_def split_beta split: sum.splits if_splits)
      with Cons.prems False t Some show ?thesis by (auto simp: max_def)
    qed
  qed (use Cons.prems in auto)
qed simp

text \<open>
  The schedule fails the configured clouds in rotation, never more often than
  \<^verbatim>\<open>--max-runs\<close>, and without an error or a stop it uses up the allowed runs or the
  context.
\<close>

theorem schedule_rotates:
  assumes "schedule io getenv fl xs ol = (cs, e, ol')"
  shows "(\<forall>i < length cs. cs ! i = sf_clouds fl ! (i mod length (sf_clouds fl)))
       \<and> (0 < sf_max_runs fl \<longrightarrow> int (length cs) \<le> sf_max_runs fl)
       \<and> (e = Completed \<longrightarrow> length cs = length xs \<or> 0 < sf_max_runs fl \<and> int (length cs) = sf_max_runs fl)"
proof (cases "sf_clouds fl = [] \<or> sf_every fl \<le> 0")
  case True
  with assms show ?thesis by (auto simp: schedule_def Let_def split: if_splits)
next
  case False
  let ?fl = "fl\<lparr>sf_options := (sf_options fl)\<lparr>op_admin_token := admin_token getenv (op_admin_token (sf_options fl))\<rparr>\<rparr>"
  from False assms have "schedule_from io ?fl 0 xs ol = (cs, e, ol')" by (simp add: schedule_def Let_def)
  from schedule_from_facts [OF this] show ?thesis by (auto simp: tick_cloud_def)
qed

section \<open>File names\<close>

lemma join_slash_snoc: "join_slash (xs @ [c]) = (if xs = [] then c else join_slash xs @ ''/'' @ c)"
  by (induction xs rule: join_slash.induct) auto

lemma clean_segs_snoc:
  "c \<notin> {'''', ''.'', ''..''} \<Longrightarrow> clean_segs rooted out (cs @ [c]) = clean_segs rooted out cs @ [c]"
  by (induction rooted out cs rule: clean_segs.induct) auto

text \<open>A path whose last segment is no dot segment, up to the varying end of that segment.\<close>

lemma clean_path_tail:
  assumes "CHR ''/'' \<notin> set t" and "2 < length t"
  shows "\<exists>pre. \<forall>t'. CHR ''/'' \<notin> set t' \<and> 2 < length t' \<longrightarrow> clean_path (s @ CHR ''-'' # t') = pre @ t'"
proof -
  let ?r = "has_prefix ''/'' (s @ ''-'')" and ?l = "last (slash_split s) @ ''-''"
  let ?out = "clean_segs ?r [] (butlast (slash_split s))"
  define pre where "pre = (if ?r then ''/'' else '''') @ (if ?out = [] then '''' else join_slash ?out @ ''/'') @ ?l"
  have "clean_path (s @ CHR ''-'' # t') = pre @ t'" if t': "CHR ''/'' \<notin> set t'" "2 < length t'" for t'
  proof -
    have split: "slash_split (s @ CHR ''-'' # t') = butlast (slash_split s) @ [?l @ t']"
      using slash_split_tail [of "CHR ''-'' # t'" s] t' by simp
    have rooted: "has_prefix ''/'' (s @ CHR ''-'' # t') = ?r"
      by (cases s) (simp_all add: has_prefix_def)
    have "?l @ t' \<notin> {'''', ''.'', ''..''}"
    proof
      assume bad: "?l @ t' \<in> {'''', ''.'', ''..''}"
      have "x \<in> {'''', ''.'', ''..''} \<Longrightarrow> length x \<le> 2" for x :: string by auto
      from this [OF bad] show False using t'(2) by simp
    qed
    from clean_segs_snoc [OF this, of ?r "[]"]
    have c: "clean_segs ?r [] (butlast (slash_split s) @ [?l @ t']) = ?out @ [?l @ t']" .
    show ?thesis
      unfolding clean_path_def Let_def rooted split c join_slash_snoc pre_def by simp
  qed
  then show ?thesis by blast
qed

definition report_path :: "sys_io \<Rightarrow> schedule_flags \<Rightarrow> int \<Rightarrow> report \<Rightarrow> string" where
  "report_path io fl now r = join_path (sf_dir fl) (sink_file io now (sf_prefix fl) r)"

definition plain_stamps :: "sys_io \<Rightarrow> bool" where
  "plain_stamps io \<longleftrightarrow> (\<forall>t. CHR ''/'' \<notin> set (io_stamp io t))"

text \<open>Reports of one schedule share a path exactly when their stamps agree.\<close>

lemma report_path_iff:
  assumes "plain_stamps io"
  shows "report_path io fl now r = report_path io fl now' r' \<longleftrightarrow> report_stamp io now r = report_stamp io now' r'"
proof -
  define s where "s = (if sf_dir fl = '''' then '''' else sf_dir fl @ ''/'')
      @ (if sf_prefix fl = '''' then ''openvcc-chaos'' else sf_prefix fl)"
  have path: "report_path io fl now r = clean_path (s @ CHR ''-'' # report_stamp io now r @ ''.json'')" for now r
    by (simp add: report_path_def join_path_def sink_file_def s_def)
  have ok: "CHR ''/'' \<notin> set (report_stamp io now r @ ''.json'') \<and> 2 < length (report_stamp io now r @ ''.json'')" for now r
    using assms by (simp add: plain_stamps_def report_stamp_def)
  obtain pre where pre: "\<And>t'. CHR ''/'' \<notin> set t' \<and> 2 < length t' \<Longrightarrow> clean_path (s @ CHR ''-'' # t') = pre @ t'"
    using clean_path_tail [of "report_stamp io now r @ ''.json''" s] ok [of now r] by blast
  show ?thesis unfolding path pre [OF ok] by simp
qed


section \<open>What is left on disk\<close>

text \<open>An operating system that refuses nothing.\<close>

definition roomy :: "sys_io \<Rightarrow> bool" where
  "roomy io \<longleftrightarrow> (\<forall>d. io_mkdir io d) \<and> (\<forall>p. io_create io p) \<and> (\<forall>p r. length (io_json io r) \<le> io_room io p)"

definition tick_report :: "schedule_flags \<Rightarrow> nat \<Rightarrow> outside \<times> int \<Rightarrow> chaos_error + report" where
  "tick_report fl i x = fst (chaos_run (fst x) (tick_options fl i))"

lemma sink_write_roomy:
  "roomy io \<Longrightarrow> sink_write io now (FileSink (sf_dir fl) (sf_prefix fl)) r ol =
     (None, ol\<lparr>ol_disk := (ol_disk ol)(report_path io fl now r \<mapsto> io_json io r)\<rparr>)"
  by (simp add: roomy_def put_text_def create_file_def report_path_def Let_def)

lemma tick_disk:
  assumes "roomy io"
  shows "ol_disk (snd (tick io fl i x ol)) =
     (case tick_report fl i x of Inl e \<Rightarrow> ol_disk ol
      | Inr r \<Rightarrow> (ol_disk ol)(report_path io fl (snd x) r \<mapsto> io_json io r))"
  by (cases "chaos_run (fst x) (tick_options fl i)"; cases "fst (chaos_run (fst x) (tick_options fl i))")
    (simp_all add: tick_def run_reported_def deliver_def tick_report_def print_out_def put_text_def
      sink_write_roomy [OF assms] del: sink_write.simps)

lemma schedule_from_keeps:
  assumes "roomy io" and "schedule_from io fl k xs ol = (cs, e, ol')"
    and "\<And>j r. j < length cs \<Longrightarrow> tick_report fl (k + j) (xs ! j) = Inr r \<Longrightarrow> report_path io fl (snd (xs ! j)) r \<noteq> p"
  shows "ol_disk ol' p = ol_disk ol p"
  using assms(2,3)
proof (induction xs arbitrary: k ol cs)
  case (Cons x xs)
  show ?case
  proof (cases "0 < sf_max_runs fl \<and> 0 < k \<and> sf_max_runs fl \<le> int k")
    case False
    obtain en o1 where t: "tick io fl k x ol = (en, o1)" by fastforce
    have o1: "ol_disk o1 p = ol_disk ol p" if "0 < length cs"
      using tick_disk [OF assms(1), of fl k x ol] Cons.prems(2) [of 0] that t
      by (auto split: sum.splits)
    show ?thesis
    proof (cases en)
      case None
      obtain cs1 e1 o2 where s: "schedule_from io fl (Suc k) xs o1 = (cs1, e1, o2)" using prod_cases3 by blast
      have cs: "cs = tick_cloud fl k # cs1" "e = e1" "ol' = o2" using Cons.prems(1) False by (auto simp: t None s)
      have "ol_disk o2 p = ol_disk o1 p"
        using Cons.IH [of "Suc k" o1 cs1] s Cons.prems(2) [of "Suc j" for j] by (simp add: cs)
      with o1 cs show ?thesis by simp
    next
      case (Some e1)
      then show ?thesis using Cons.prems(1) False t o1 by auto
    qed
  qed (use Cons.prems in auto)
qed simp

lemma schedule_from_archive:
  assumes "roomy io" and "schedule_from io fl k xs ol = (cs, e, ol')"
    and "i < length cs" and "tick_report fl (k + i) (xs ! i) = Inr r"
    and "\<And>j r'. i < j \<Longrightarrow> j < length cs \<Longrightarrow> tick_report fl (k + j) (xs ! j) = Inr r' \<Longrightarrow>
           report_path io fl (snd (xs ! j)) r' \<noteq> report_path io fl (snd (xs ! i)) r"
  shows "ol_disk ol' (report_path io fl (snd (xs ! i)) r) = Some (io_json io r)"
  using assms(2-5)
proof (induction xs arbitrary: k ol cs i)
  case (Cons x xs)
  have go: "\<not> (0 < sf_max_runs fl \<and> 0 < k \<and> sf_max_runs fl \<le> int k)"
    using Cons.prems(1,2) by auto
  obtain en o1 where t: "tick io fl k x ol = (en, o1)" by fastforce
  have written: "ol_disk o1 (report_path io fl (snd x) r) = Some (io_json io r)" if "i = 0"
    using tick_disk [OF assms(1), of fl k x ol] Cons.prems(3) t that by simp
  show ?case
  proof (cases en)
    case (Some e1)
    then have "cs = [tick_cloud fl k]" "ol' = o1" using Cons.prems(1) go t by auto
    with written Cons.prems(2) show ?thesis by simp
  next
    case None
    obtain cs1 e1 o2 where s: "schedule_from io fl (Suc k) xs o1 = (cs1, e1, o2)" using prod_cases3 by blast
    have cs: "cs = tick_cloud fl k # cs1" "e = e1" "ol' = o2" using Cons.prems(1) go by (auto simp: t None s)
    have later: "j < length cs1 \<Longrightarrow> tick_report fl (Suc k + j) (xs ! j) = Inr r' \<Longrightarrow> i < Suc j \<Longrightarrow>
        report_path io fl (snd (xs ! j)) r' \<noteq> report_path io fl (snd ((x # xs) ! i)) r" for j r'
      using Cons.prems(4) [of "Suc j" r'] by (simp add: cs)
    show ?thesis
    proof (cases i)
      case 0
      then have "ol_disk o2 (report_path io fl (snd x) r) = ol_disk o1 (report_path io fl (snd x) r)"
        using schedule_from_keeps [OF assms(1) s] later by simp
      with written 0 cs show ?thesis by simp
    next
      case (Suc i')
      then show ?thesis
        using Cons.IH [of "Suc k" o1 cs1 i'] s later Cons.prems by (simp add: cs)
    qed
  qed
qed simp

text \<open>
  C31: The archive of a schedule: on a system that accepts every file, after the schedule the
  directory holds the report of every run that produced one, whole, under a name of its own
  second, unless a later run of the schedule ended in the same second: reports with the
  same stamp share one file, and only the last of them is kept.
\<close>

theorem schedule_archives:
  assumes "roomy io" and "plain_stamps io" and "schedule io getenv fl xs ol = (cs, e, ol')"
    and "fl' = fl\<lparr>sf_options := (sf_options fl)\<lparr>op_admin_token := admin_token getenv (op_admin_token (sf_options fl))\<rparr>\<rparr>"
    and "i < length cs" and "tick_report fl' i (xs ! i) = Inr r"
    and "\<And>j r'. i < j \<Longrightarrow> j < length cs \<Longrightarrow> tick_report fl' j (xs ! j) = Inr r' \<Longrightarrow>
           report_stamp io (snd (xs ! j)) r' \<noteq> report_stamp io (snd (xs ! i)) r"
  shows "ol_disk ol' (report_path io fl' (snd (xs ! i)) r) = Some (io_json io r)"
proof -
  have "schedule_from io fl' 0 xs ol = (cs, e, ol')"
    using assms(3,5) by (auto simp: schedule_def assms(4) Let_def split: if_splits)
  from schedule_from_archive [OF assms(1) this assms(5), of r] assms(6,7)
  show ?thesis by (simp add: report_path_iff [OF assms(2)])
qed

text \<open>
  The file of \<^verbatim>\<open>chaos run\<close> holds the whole report when the command succeeds or reports a
  failed verdict, and it succeeds exactly on a pass; but the file is emptied first, so a run
  that is refused or cannot reach the admin API destroys the report that was there.
\<close>

theorem run_command_output:
  assumes "out_path \<noteq> ''''" and "out_path \<noteq> ''-''" and "run_command io getenv out_path opts now world ol = (x, ol')"
  shows "case x of
           OutputError \<Rightarrow> \<not> io_create io out_path \<and> ol' = ol
         | RunFailed (RunRejected err) \<Rightarrow> ol' = create_file out_path ol \<and> ol_disk ol' out_path = Some ''''
         | RunFailed (SinkFailed r err) \<Rightarrow> ol_disk ol' out_path = Some (take (io_room io out_path) (io_json io r))
         | NotPassed reason \<Rightarrow> \<exists>r. re_result r \<noteq> ''pass'' \<and> ol_disk ol' out_path = Some (io_json io r)
         | ExitOk \<Rightarrow> \<exists>r. re_result r = ''pass'' \<and> ol_disk ol' out_path = Some (io_json io r)"
proof (cases "io_create io out_path")
  case False
  with assms have "x = OutputError" "ol' = ol" by (simp_all add: run_command_def)
  with False show ?thesis by simp
next
  case True
  let ?opts = "opts\<lparr>op_admin_token := admin_token getenv (op_admin_token opts)\<rparr>"
  obtain res calls where run: "chaos_run world ?opts = (res, calls)" by fastforce
  show ?thesis
  proof (cases res)
    case (Inl err)
    then have "x = RunFailed (RunRejected err)" "ol' = create_file out_path ol"
      using assms True run by (simp_all add: run_command_def run_reported_def)
    then show ?thesis by (simp add: create_file_def)
  next
    case (Inr r)
    let ?txt = "io_json io r"
    have ol': "ol_disk ol' out_path = Some (take (io_room io out_path) ?txt)"
      using assms True run Inr
      by (auto simp: run_command_def run_reported_def deliver_def put_text_def create_file_def Let_def split_beta)
    show ?thesis
    proof (cases "length ?txt \<le> io_room io out_path")
      case True
      then have "x = (if re_result r \<noteq> ''pass'' then NotPassed (re_reason r) else ExitOk)"
        using assms \<open>io_create io out_path\<close> run Inr
        by (simp add: run_command_def run_reported_def deliver_def put_text_def Let_def)
      with ol' True show ?thesis by auto
    next
      case False
      then have "x = RunFailed (SinkFailed r WriteFailed)"
        using assms True run Inr
        by (simp add: run_command_def run_reported_def deliver_def put_text_def Let_def)
      with ol' show ?thesis by simp
    qed
  qed
qed


end
