(* ===== verification/Commands.thy ===== *)
theory Commands
  imports Engine
begin

text \<open>
  The engine commands of \<^verbatim>\<open>cmd/openvcc/main.go\<close>: \<^verbatim>\<open>engine validate\<close> loads the file,
  \<^verbatim>\<open>engine serve\<close> loads it, builds the logger and starts the engine; and the public
  package.  Flags and output are in \<open>Cli\<close>.
\<close>

datatype command_error =
    CommandLoad load_error
  | CommandLog log_error
  | CommandEngine engine_error

definition validate_command :: "env \<Rightarrow> string \<Rightarrow> command_error + (nat \<times> string)" where
  "validate_command ev path =
     (case engine_load ev path of
        Inl e \<Rightarrow> Inl (CommandLoad e)
      | Inr cfg \<Rightarrow> Inr (length (cf_backends cfg), cf_strategy cfg))"

definition serve_command :: "env \<Rightarrow> string \<Rightarrow> command_error + engine" where
  "serve_command ev path =
     (case engine_load ev path of
        Inl e \<Rightarrow> Inl (CommandLoad e)
      | Inr cfg \<Rightarrow>
          (case new_logger (lg_level (cf_log cfg)) (lg_format (cf_log cfg)) of
             Inl e \<Rightarrow> Inl (CommandLog e)
           | Inr _ \<Rightarrow>
               (case fst (new_engine ev cfg path) of
                  Inl e \<Rightarrow> Inl (CommandEngine e)
                | Inr eng \<Rightarrow> Inr eng)))"

lemma new_engine_errors:
  assumes "config_valid (ev_parse_url ev) cfg" and "fst (new_engine ev cfg path) = Inl e"
  shows "(\<exists>t. e = TracingFailed t) \<or> (\<exists>x. e = BadStrategy x) \<or> e = StickyAsFallback
       \<or> (\<exists>n x. e = BackendTls n x)"
proof (cases "init_tracing (ev_parse_url ev) (ev_trace ev) (cf_tracing cfg) ''openvcc''")
  case (Inl t)
  with assms(2) show ?thesis by (auto simp: new_engine_def)
next
  case (Inr tracer)
  obtain bs where bs: "build_backends (ev_parse_url ev) (cf_backends cfg) = Inr bs"
    using assms(1) build_backends_valid [of "cf_backends cfg" "ev_parse_url ev"] by (auto simp: config_valid_def)
  let ?a = "if build_accountant (cf_cost cfg) = None then None else Some 0"
  let ?name = "case cf_sticky cfg of None \<Rightarrow> cf_strategy cfg | Some st \<Rightarrow> st_fallback_strategy st"
  show ?thesis
  proof (cases "build_base_strategy ?name ?a")
    case (Inl x)
    then have "build_strategy cfg ?a = Inl x" by (simp add: build_strategy_def)
    with assms(2) Inr bs have "e = x" by (simp add: new_engine_def Let_def)
    moreover have "(\<exists>y. x = BadStrategy y) \<or> x = StickyAsFallback"
      using Inl by (auto simp: build_base_strategy_def split: sum.splits if_splits)
    ultimately show ?thesis by blast
  next
    case base: (Inr base)
    obtain s cn where "build_strategy cfg ?a = Inr (s, cn)"
      using build_strategy_known [OF assms(1) base] by blast
    with assms(2) Inr bs show ?thesis
      using apply_backend_tls_cases [of "ev_files ev" "cf_backends cfg" "new_handler True (cf_proxy cfg)"]
      by (auto simp: new_engine_def Let_def)
  qed
qed

text \<open>
  What \<^verbatim>\<open>validate\<close> accepts can fail to \<^verbatim>\<open>serve\<close> only for the log settings, tracing, an
  unusable strategy name or TLS files; and whatever \<^verbatim>\<open>serve\<close> starts, \<^verbatim>\<open>validate\<close> accepts.
\<close>

theorem serve_after_validate:
  "(\<forall>eng. serve_command ev path = Inr eng \<longrightarrow> (\<exists>n s. validate_command ev path = Inr (n, s) \<and> 0 < n))
   \<and> (\<forall>r err. validate_command ev path = Inr r \<and> serve_command ev path = Inl err \<longrightarrow>
        (\<exists>l. err = CommandLog l) \<or> (\<exists>t. err = CommandEngine (TracingFailed t))
        \<or> (\<exists>x. err = CommandEngine (BadStrategy x)) \<or> err = CommandEngine StickyAsFallback
        \<or> (\<exists>n x. err = CommandEngine (BackendTls n x)))"
proof (cases "engine_load ev path")
  case (Inl e)
  then show ?thesis by (simp add: serve_command_def validate_command_def)
next
  case (Inr cfg)
  have valid: "config_valid (ev_parse_url ev) cfg"
    using loaded_valid Inr unfolding engine_load_def by blast
  then have "0 < length (cf_backends cfg)" by (simp add: config_valid_def)
  then show ?thesis
    using new_engine_errors [OF valid, of path] Inr
    by (auto simp: serve_command_def validate_command_def split: sum.splits)
qed

section \<open>The public package\<close>

text \<open>
  \<^verbatim>\<open>pkg/engine/engine.go\<close> for programs that embed the engine: every function forwards, and
  \<^verbatim>\<open>New\<close> hands out a wrapper only when the engine was built.
\<close>

definition public_load_config :: "env \<Rightarrow> string \<Rightarrow> load_error + config" where
  "public_load_config ev path = engine_load ev path"

definition public_parse_config :: "env \<Rightarrow> string \<Rightarrow> load_error + config" where
  "public_parse_config ev data = parse_config (ev_decode ev) (ev_parse_url ev) data"

definition public_new :: "env \<Rightarrow> config \<Rightarrow> string \<Rightarrow> engine_error + engine" where
  "public_new ev cfg path =
     (case fst (new_engine ev cfg path) of Inl e \<Rightarrow> Inl e | Inr e \<Rightarrow> Inr e)"

definition public_reload :: "env \<Rightarrow> engine \<Rightarrow> engine_error option \<times> engine" where
  "public_reload ev e = reload ev e"

text \<open>An embedding program that loads and builds through the package gets the engine of
  \<^verbatim>\<open>serve\<close>, apart from the logger, which it brings along.\<close>

lemma public_new_serves:
  "serve_command ev path = Inr e \<Longrightarrow> \<exists>cfg. public_load_config ev path = Inr cfg \<and> public_new ev cfg path = Inr e"
  by (cases "engine_load ev path"; cases "fst (new_engine ev (projr (engine_load ev path)) path)")
    (auto simp: serve_command_def public_load_config_def public_new_def split: sum.splits)

end
