(* ===== verification/Lifecycle.thy ===== *)
theory Lifecycle
  imports Engine
begin

text \<open>
  \<^verbatim>\<open>Run\<close> and \<^verbatim>\<open>shutdown\<close> of \<^verbatim>\<open>internal/engine/engine.go\<close> as a state machine: the health loop
  and one goroutine per listener are started, the first listener error or the end of the
  context begins the shutdown, which stops the health loop, shuts the servers down side by
  side and then drains the tracer.  That a server's \<^verbatim>\<open>Shutdown\<close> returns (it is bounded by the
  grace period) is the event \<open>ServerDown\<close>.
\<close>

section \<open>States and events\<close>

datatype run_phase = Serving | ShuttingDown | Returned

text \<open>
  \<open>rn_errors\<close> is the buffered channel \<^verbatim>\<open>errCh\<close>; a goroutine that finds it full would block for
  ever and is counted in \<open>rn_blocked\<close>.  \<open>rn_pending\<close> are the servers \<^verbatim>\<open>shutdown\<close> waits for.
\<close>

record run_state =
  rn_phase :: run_phase
  rn_listening :: "listener list"
  rn_errors :: "listener list"
  rn_blocked :: nat
  rn_pending :: "listener list"
  rn_health :: bool
  rn_tracing :: bool
  rn_result :: "listener option"

definition err_capacity :: nat where
  "err_capacity = 4"

text \<open>The start; with unusable front TLS files \<^verbatim>\<open>Run\<close> returns at once, by its deferred cancel
  without the health loop, but with the tracer still running.\<close>

definition run_start :: "env \<Rightarrow> engine \<Rightarrow> (tls_error \<times> bool) + run_state" where
  "run_start ev e =
     (case listeners ev e of
        Inl err \<Rightarrow> Inl (err, en_tracing e \<noteq> None)
      | Inr ls \<Rightarrow> Inr \<lparr>rn_phase = Serving, rn_listening = ls, rn_errors = [], rn_blocked = 0, rn_pending = ls,
                       rn_health = True, rn_tracing = (en_tracing e \<noteq> None), rn_result = None\<rparr>)"

datatype run_event =
    ListenerFails listener
  | ContextDone
  | ErrorReceived
  | StopHealth
  | ServerDown listener
  | TracerDown

text \<open>The three stages of \<^verbatim>\<open>shutdown\<close>.\<close>

definition stop_health :: "run_state \<Rightarrow> run_state option" where
  "stop_health s =
     (if rn_phase s = ShuttingDown \<and> rn_health s then Some (s\<lparr>rn_health := False\<rparr>) else None)"

definition server_down :: "listener \<Rightarrow> run_state \<Rightarrow> run_state option" where
  "server_down l s =
     (if rn_phase s = ShuttingDown \<and> \<not> rn_health s \<and> l \<in> set (rn_pending s)
      then Some (s\<lparr>rn_pending := remove1 l (rn_pending s), rn_listening := remove1 l (rn_listening s)\<rparr>)
      else None)"

definition tracer_down :: "run_state \<Rightarrow> run_state option" where
  "tracer_down s =
     (if rn_phase s = ShuttingDown \<and> \<not> rn_health s \<and> rn_pending s = []
      then Some (s\<lparr>rn_phase := Returned, rn_tracing := False\<rparr>) else None)"

lemmas shutdown_defs [simp] = stop_health_def server_down_def tracer_down_def

fun run_step :: "run_event \<Rightarrow> run_state \<Rightarrow> run_state option" where
  "run_step (ListenerFails l) s =
     (if l \<in> set (rn_listening s) then
        let s = s\<lparr>rn_listening := remove1 l (rn_listening s)\<rparr>
        in Some (if length (rn_errors s) < err_capacity then s\<lparr>rn_errors := rn_errors s @ [l]\<rparr>
                 else s\<lparr>rn_blocked := Suc (rn_blocked s)\<rparr>)
      else None)"
| "run_step ContextDone s = (if rn_phase s = Serving then Some (s\<lparr>rn_phase := ShuttingDown\<rparr>) else None)"
| "run_step ErrorReceived s =
     (case rn_errors s of
        l # ls \<Rightarrow> if rn_phase s = Serving
                 then Some (s\<lparr>rn_phase := ShuttingDown, rn_errors := ls, rn_result := Some l\<rparr>) else None
      | [] \<Rightarrow> None)"
| "run_step StopHealth s = stop_health s"
| "run_step (ServerDown l) s = server_down l s"
| "run_step TracerDown s = tracer_down s"

fun run_events :: "run_event list \<Rightarrow> run_state \<Rightarrow> run_state option" where
  "run_events [] s = Some s"
| "run_events (e # es) s = (case run_step e s of None \<Rightarrow> None | Some s' \<Rightarrow> run_events es s')"

text \<open>The endpoints of the metrics listener.\<close>

datatype metrics_reply = Exposition | HealthzOk | NoSuchPage

definition metrics_handler :: "string \<Rightarrow> metrics_reply" where
  "metrics_handler path =
     (if path = ''/metrics'' then Exposition else if path = ''/healthz'' then HealthzOk else NoSuchPage)"

section \<open>The invariant\<close>

definition run_ok :: "listener list \<Rightarrow> run_state \<Rightarrow> bool" where
  "run_ok ls s \<longleftrightarrow> rn_blocked s = 0 \<and> length (rn_errors s) + length (rn_listening s) \<le> length ls
     \<and> mset (rn_listening s) \<subseteq># mset (rn_pending s) \<and> length (rn_pending s) \<le> length ls
     \<and> set (rn_listening s) \<union> set (rn_errors s) \<subseteq> set ls
     \<and> (\<forall>l. rn_result s = Some l \<longrightarrow> l \<in> set ls)
     \<and> (rn_phase s = Serving \<longrightarrow> rn_result s = None)
     \<and> (rn_phase s = Returned \<longrightarrow> \<not> rn_health s \<and> \<not> rn_tracing s \<and> rn_pending s = [])"

lemma mset_remove1_mono: "mset xs \<subseteq># mset ys \<Longrightarrow> mset (remove1 x xs) \<subseteq># mset (remove1 x ys)"
  by (simp add: subseteq_mset_def diff_le_mono)

lemma mset_remove1_less: "mset xs \<subseteq># mset ys \<Longrightarrow> mset (remove1 x xs) \<subseteq># mset ys"
  by (simp add: subseteq_mset_def le_diff_conv trans_le_add1)

lemma run_ok_step:
  assumes "run_step e s = Some s'" and "run_ok ls s" and "length ls \<le> err_capacity"
  shows "run_ok ls s'"
proof (cases e)
  case (ListenerFails l)
  with assms have l: "l \<in> set (rn_listening s)" by (simp split: if_splits)
  then have len: "length (rn_listening s) = Suc (length (remove1 l (rn_listening s)))"
    by (simp add: length_remove1) (metis Suc_pred length_pos_if_in_set)
  with assms(2,3) have "length (rn_errors s) < err_capacity" by (simp add: run_ok_def)
  with assms(1) ListenerFails l have s': "s' = s\<lparr>rn_listening := remove1 l (rn_listening s), rn_errors := rn_errors s @ [l]\<rparr>"
    by (simp add: Let_def)
  have "set (remove1 l (rn_listening s)) \<subseteq> set (rn_listening s)" by (rule set_remove1_subset)
  then show ?thesis
    using assms(2) len l mset_remove1_less [of "rn_listening s" "rn_pending s" l]
    by (simp add: run_ok_def s') blast
next
  case (ServerDown l)
  with assms(1) have s': "l \<in> set (rn_pending s)"
    "s' = s\<lparr>rn_pending := remove1 l (rn_pending s), rn_listening := remove1 l (rn_listening s)\<rparr>"
    by (simp_all split: if_splits)
  have "length (remove1 l (rn_listening s)) \<le> length (rn_listening s)"
    "length (remove1 l (rn_pending s)) \<le> length (rn_pending s)"
    by (simp_all add: length_remove1)
  then show ?thesis
    using assms(2) mset_remove1_mono [of "rn_listening s" "rn_pending s" l]
      set_remove1_subset [of l "rn_listening s"] s'
    by (auto simp: run_ok_def)
qed (use assms in \<open>auto simp: run_ok_def split: if_splits list.splits\<close>)

lemma run_ok_events:
  "run_events es s = Some s' \<Longrightarrow> run_ok ls s \<Longrightarrow> length ls \<le> err_capacity \<Longrightarrow> run_ok ls s'"
proof (induction es arbitrary: s)
  case (Cons e es)
  then show ?case by (auto split: option.splits dest: run_ok_step)
qed simp

lemma listeners_capacity: "listeners ev e = Inr ls \<Longrightarrow> length ls \<le> err_capacity"
  by (auto simp: listeners_def Let_def err_capacity_def split: option.splits sum.splits if_splits)

lemma run_start_ok:
  assumes "run_start ev e = Inr s"
  shows "\<exists>ls. listeners ev e = Inr ls \<and> run_ok ls s \<and> length ls \<le> err_capacity"
proof -
  obtain ls where ls: "listeners ev e = Inr ls" using assms by (auto simp: run_start_def split: sum.splits)
  with assms have "run_ok ls s" by (auto simp: run_start_def run_ok_def)
  with ls listeners_capacity [OF ls] show ?thesis by blast
qed

section \<open>Nothing is left behind\<close>


definition run_measure :: "run_state \<Rightarrow> nat" where
  "run_measure s = length (rn_listening s) + length (rn_pending s)
     + (if rn_health s then 1 else 0) + (if rn_phase s = Returned then 0 else 1)"

lemma run_measure_step:
  assumes "run_step e s = Some s'" and "rn_phase s \<noteq> Serving"
  shows "rn_phase s' \<noteq> Serving \<and> run_measure s' < run_measure s"
proof -
  have less: "length (remove1 l xs) < length xs" if "l \<in> set xs" for l and xs :: "listener list"
    using length_pos_if_in_set [OF that] that by (simp add: length_remove1)
  have le: "length (remove1 l xs) \<le> length xs" for l and xs :: "listener list"
    by (simp add: length_remove1)
  show ?thesis
  proof (cases e)
    case (ListenerFails l)
    with assms less [of l "rn_listening s"] show ?thesis
      by (auto simp: run_measure_def Let_def split: if_splits)
  next
    case (ServerDown l)
    with assms less [of l "rn_pending s"] le [of l "rn_listening s"] show ?thesis
      by (auto simp: run_measure_def split: if_splits)
  qed (use assms in \<open>auto simp: run_measure_def split: if_splits list.splits\<close>)
qed

lemma run_measure_events:
  "run_events es s = Some s' \<Longrightarrow> rn_phase s \<noteq> Serving \<Longrightarrow>
     rn_phase s' \<noteq> Serving \<and> length es + run_measure s' \<le> run_measure s"
proof (induction es arbitrary: s)
  case (Cons e es)
  then obtain t where t: "run_step e s = Some t" "run_events es t = Some s'" by (auto split: option.splits)
  with Cons.IH [OF t(2)] run_measure_step [OF t(1) Cons.prems(2)] show ?case by simp
qed simp

lemma run_progress:
  assumes "rn_phase s = ShuttingDown"
  shows "\<exists>e. run_step e s \<noteq> None"
proof (cases "rn_health s")
  case True
  with assms have "run_step StopHealth s \<noteq> None" by simp
  then show ?thesis by blast
next
  case False
  show ?thesis
  proof (cases "rn_pending s")
    case Nil
    with False assms have "run_step TracerDown s \<noteq> None" by simp
    then show ?thesis by blast
  next
    case (Cons l ls)
    with False assms have "run_step (ServerDown l) s \<noteq> None" by simp
    then show ?thesis by blast
  qed
qed


end
