(* ===== verification/Cli.thy ===== *)
theory Cli
  imports Reports Commands Lifecycle
begin

text \<open>
  \<^verbatim>\<open>cmd/openvcc/main.go\<close> as a whole: the command tree, the flags with their defaults, the
  dispatch and the exit status.  The parser of the command line (cobra) is a parameter: it
  finds the command by its words, refuses a missing required flag and hands over the
  values that were given.
\<close>

section \<open>Commands and flags\<close>

datatype flag_value =
    FString string
  | FInt int
  | FDuration int
  | FStrings "string list"
  | FBool bool

record flag =
  fl_name :: string
  fl_short :: string
  fl_default :: flag_value
  fl_required :: bool

abbreviation flag_of :: "string \<Rightarrow> flag_value \<Rightarrow> flag" where
  "flag_of n d \<equiv> \<lparr>fl_name = n, fl_short = '''', fl_default = d, fl_required = False\<rparr>"

datatype command =
    Group string "command list"
  | Leaf string "flag list"

fun command_name :: "command \<Rightarrow> string" where
  "command_name (Group n cs) = n"
| "command_name (Leaf n fs) = n"

definition chaos_schedule_flags :: "flag list" where
  "chaos_schedule_flags =
     [flag_of ''admin-url'' (FString ''http://localhost:8081''), flag_of ''admin-token'' (FString ''''),
      flag_of ''proxy-url'' (FString ''http://localhost:8080''),
      (flag_of ''fail'' (FStrings []))\<lparr>fl_required := True\<rparr>,
      flag_of ''duration'' (FDuration (seconds 30)), flag_of ''every'' (FDuration (24 * 60 * 60 * 1000000000)),
      flag_of ''rps'' (FInt 50), flag_of ''concurrency'' (FInt 4),
      flag_of ''output-dir'' (FString ''./chaos-reports''), flag_of ''prefix'' (FString ''openvcc-chaos''),
      flag_of ''max-runs'' (FInt 0), flag_of ''stop-on-fail'' (FBool False)]"

definition chaos_run_flags :: "flag list" where
  "chaos_run_flags =
     [flag_of ''admin-url'' (FString ''http://localhost:8081''), flag_of ''admin-token'' (FString ''''),
      flag_of ''proxy-url'' (FString ''http://localhost:8080''),
      (flag_of ''fail'' (FString ''''))\<lparr>fl_required := True\<rparr>,
      flag_of ''duration'' (FDuration (seconds 30)), flag_of ''rps'' (FInt 50), flag_of ''concurrency'' (FInt 4),
      (flag_of ''output'' (FString ''-''))\<lparr>fl_short := ''o''\<rparr>]"

definition config_flags :: "flag list" where
  "config_flags =
     [\<lparr>fl_name = ''config'', fl_short = ''c'', fl_default = FString ''openvcc.yaml'', fl_required = True\<rparr>]"

definition new_engine_cmd :: command where
  "new_engine_cmd = Group ''engine'' [Leaf ''serve'' config_flags, Leaf ''validate'' config_flags]"

definition new_chaos_cmd :: command where
  "new_chaos_cmd = Group ''chaos'' [Leaf ''run'' chaos_run_flags, Leaf ''schedule'' chaos_schedule_flags]"

definition new_root :: command where
  "new_root = Group ''openvcc'' [new_engine_cmd, new_chaos_cmd, Leaf ''version'' []]"

text \<open>The parser: descending the tree, required flags, defaults.\<close>

datatype resolution = Help | UnknownCommand | Found "flag list"

fun resolve :: "string list \<Rightarrow> command \<Rightarrow> resolution" where
  "resolve ws (Leaf n fs) = (if ws = [] then Found fs else UnknownCommand)"
| "resolve [] (Group n cs) = Help"
| "resolve (w # ws) (Group n cs) =
     (case find_first (\<lambda>c. command_name c = w) cs of None \<Rightarrow> UnknownCommand | Some c \<Rightarrow> resolve ws c)"

definition missing_flags :: "flag list \<Rightarrow> (string \<rightharpoonup> flag_value) \<Rightarrow> string list" where
  "missing_flags fs given = List.map fl_name (filter (\<lambda>f. fl_required f \<and> given (fl_name f) = None) fs)"

definition flag_values :: "flag list \<Rightarrow> (string \<rightharpoonup> flag_value) \<Rightarrow> string \<Rightarrow> flag_value" where
  "flag_values fs given n =
     (case given n of Some v \<Rightarrow> v
      | None \<Rightarrow> (case find_first (\<lambda>f. fl_name f = n) fs of Some f \<Rightarrow> fl_default f | None \<Rightarrow> FString ''''))"

fun text_of :: "flag_value \<Rightarrow> string" where
  "text_of (FString s) = s"
| "text_of _ = ''''"

fun number_of :: "flag_value \<Rightarrow> int" where
  "number_of (FInt n) = n"
| "number_of (FDuration n) = n"
| "number_of _ = 0"

fun list_of :: "flag_value \<Rightarrow> string list" where
  "list_of (FStrings xs) = xs"
| "list_of _ = []"

fun truth_of :: "flag_value \<Rightarrow> bool" where
  "truth_of (FBool b) = b"
| "truth_of _ = False"

definition chaos_options :: "(string \<Rightarrow> flag_value) \<Rightarrow> string \<Rightarrow> options" where
  "chaos_options v cloud =
     \<lparr>op_admin_url = text_of (v ''admin-url''), op_admin_token = text_of (v ''admin-token''),
      op_proxy_url = text_of (v ''proxy-url''), op_fail_cloud = cloud,
      op_duration = number_of (v ''duration''), op_rps = number_of (v ''rps''),
      op_concurrency = number_of (v ''concurrency'')\<rparr>"

definition schedule_flags_of :: "(string \<Rightarrow> flag_value) \<Rightarrow> schedule_flags" where
  "schedule_flags_of v =
     \<lparr>sf_options = chaos_options v '''', sf_clouds = list_of (v ''fail''), sf_every = number_of (v ''every''),
      sf_max_runs = number_of (v ''max-runs''), sf_stop = truth_of (v ''stop-on-fail''),
      sf_dir = text_of (v ''output-dir''), sf_prefix = text_of (v ''prefix'')\<rparr>"

section \<open>The process\<close>

text \<open>What a process meets: the environment, the operating system, the events of \<^verbatim>\<open>Run\<close> and
  what a chaos run and the runs of a schedule see outside, with the times of their reports.\<close>

record process =
  ps_env :: env
  ps_io :: sys_io
  ps_events :: "run_event list"
  ps_run :: "outside \<times> int"
  ps_schedule :: "(outside \<times> int) list"
  ps_platform :: string

datatype cli_error =
    NoSuchCommand
  | MissingFlags "string list"
  | CommandFailed command_error
  | FrontTls tls_error
  | ListenFailed listener
  | StillRunning
  | ChaosFailed run_exit
  | ScheduleFailed schedule_end

text \<open>\<^verbatim>\<open>engine serve\<close>: the error of \<^verbatim>\<open>Run\<close>; \<open>StillRunning\<close> says that the events do not end it.\<close>

definition serve_exit :: "process \<Rightarrow> string \<Rightarrow> cli_error option" where
  "serve_exit p path =
     (case serve_command (ps_env p) path of
        Inl e \<Rightarrow> Some (CommandFailed e)
      | Inr eng \<Rightarrow>
          (case run_start (ps_env p) eng of
             Inl (e, _) \<Rightarrow> Some (FrontTls e)
           | Inr s \<Rightarrow>
               (case run_events (ps_events p) s of
                  None \<Rightarrow> Some StillRunning
                | Some s \<Rightarrow> if rn_phase s = Returned then map_option ListenFailed (rn_result s)
                            else Some StillRunning)))"

definition validate_line :: "nat \<times> string \<Rightarrow> string" where
  "validate_line x = ''ok: '' @ itoa (int (fst x)) @ '' backend(s), strategy='' @ snd x @ [CHR 0x0A]"

definition version_line :: "string \<Rightarrow> string" where
  "version_line platform = ''openvcc dev (commit=none, date=unknown, '' @ platform @ '')'' @ [CHR 0x0A]"

definition schedule_error :: "schedule_end \<Rightarrow> cli_error option" where
  "schedule_error e = (case e of Completed \<Rightarrow> None | _ \<Rightarrow> Some (ScheduleFailed e))"

definition run_leaf :: "process \<Rightarrow> string list \<Rightarrow> (string \<Rightarrow> flag_value) \<Rightarrow> outlet \<Rightarrow> cli_error option \<times> outlet" where
  "run_leaf p ws v ol =
     (if ws = [''engine'', ''serve''] then (serve_exit p (text_of (v ''config'')), ol)
      else if ws = [''engine'', ''validate''] then
        (case validate_command (ps_env p) (text_of (v ''config'')) of
           Inl e \<Rightarrow> (Some (CommandFailed e), ol)
         | Inr x \<Rightarrow> (None, print_out (ps_io p) (validate_line x) ol))
      else if ws = [''chaos'', ''run''] then
        (let (x, ol) = run_command (ps_io p) (ev_getenv (ps_env p)) (text_of (v ''output''))
                         (chaos_options v (text_of (v ''fail''))) (snd (ps_run p)) (fst (ps_run p)) ol
         in (case x of ExitOk \<Rightarrow> None | _ \<Rightarrow> Some (ChaosFailed x), ol))
      else if ws = [''chaos'', ''schedule''] then
        (let (cs, e, ol) = schedule (ps_io p) (ev_getenv (ps_env p)) (schedule_flags_of v) (ps_schedule p) ol
         in (schedule_error e, ol))
      else (None, print_out (ps_io p) (version_line (ps_platform p)) ol))"

definition execute :: "process \<Rightarrow> string list \<Rightarrow> (string \<rightharpoonup> flag_value) \<Rightarrow> outlet \<Rightarrow> cli_error option \<times> outlet" where
  "execute p ws given ol =
     (case resolve ws new_root of
        Help \<Rightarrow> (None, ol)
      | UnknownCommand \<Rightarrow> (Some NoSuchCommand, ol)
      | Found fs \<Rightarrow>
          if missing_flags fs given \<noteq> [] then (Some (MissingFlags (missing_flags fs given)), ol)
          else run_leaf p ws (flag_values fs given) ol)"

definition main_exit :: "cli_error option \<Rightarrow> int" where
  "main_exit e = (case e of None \<Rightarrow> 0 | Some _ \<Rightarrow> 1)"

section \<open>Exit status\<close>

lemma execute_chaos_run:
  assumes "given ''fail'' \<noteq> None"
  shows "execute p [''chaos'', ''run''] given ol = run_leaf p [''chaos'', ''run''] (flag_values chaos_run_flags given) ol"
proof -
  have "resolve [''chaos'', ''run''] new_root = Found chaos_run_flags"
    by (simp add: new_root_def new_chaos_cmd_def new_engine_cmd_def)
  moreover have "missing_flags chaos_run_flags given = []"
    using assms by (simp add: missing_flags_def chaos_run_flags_def)
  ultimately show ?thesis by (simp add: execute_def)
qed

text \<open>The report of a run can be written in full to where \<^verbatim>\<open>--output\<close> says.\<close>

definition deliverable :: "sys_io \<Rightarrow> string \<Rightarrow> report \<Rightarrow> bool" where
  "deliverable io out_path r \<longleftrightarrow>
     (if out_path = '''' \<or> out_path = ''-'' then length (io_json io r) \<le> io_stdout_room io
      else io_create io out_path \<and> length (io_json io r) \<le> io_room io out_path)"

lemma run_command_exit:
  "fst (run_command io getenv out_path opts now world ol) = ExitOk \<longleftrightarrow>
     (\<exists>r. fst (chaos_run world (opts\<lparr>op_admin_token := admin_token getenv (op_admin_token opts)\<rparr>)) = Inr r
        \<and> re_result r = ''pass'' \<and> deliverable io out_path r)"
proof (cases "chaos_run world (opts\<lparr>op_admin_token := admin_token getenv (op_admin_token opts)\<rparr>)")
  case (Pair res calls)
  show ?thesis
  proof (cases res)
    case (Inl err)
    with Pair show ?thesis by (simp add: run_command_def run_reported_def Let_def)
  next
    case (Inr r)
    with Pair show ?thesis
      by (auto simp: run_command_def run_reported_def deliver_def put_text_def deliverable_def Let_def split_beta)
  qed
qed

text \<open>
  C32: \<^verbatim>\<open>openvcc chaos run\<close> exits with status 0 exactly when the run, with the flags completed by
  their defaults and the token by the environment, produced a report, the verdict is a
  pass, and the report was written in full to the chosen output.
\<close>

theorem chaos_run_exit:
  assumes "given ''fail'' \<noteq> None" and "v = flag_values chaos_run_flags given"
    and "opts = chaos_options v (text_of (v ''fail''))"
  shows "main_exit (fst (execute p [''chaos'', ''run''] given ol)) = 0 \<longleftrightarrow>
     (\<exists>r. fst (chaos_run (fst (ps_run p))
            (opts\<lparr>op_admin_token := admin_token (ev_getenv (ps_env p)) (op_admin_token opts)\<rparr>)) = Inr r
        \<and> re_result r = ''pass'' \<and> deliverable (ps_io p) (text_of (v ''output'')) r)"
proof -
  have "main_exit (fst (execute p [''chaos'', ''run''] given ol)) = 0 \<longleftrightarrow>
      fst (run_command (ps_io p) (ev_getenv (ps_env p)) (text_of (v ''output'')) opts
             (snd (ps_run p)) (fst (ps_run p)) ol) = ExitOk"
    unfolding execute_chaos_run [of given, OF assms(1)] run_leaf_def assms(2) [symmetric] assms(3) [symmetric]
    by (simp add: main_exit_def split_beta split: run_exit.splits)
  then show ?thesis by (simp only: run_command_exit)
qed

text \<open>
  Given only the cloud to fail, the flags of \<^verbatim>\<open>chaos run\<close> are complete: the run accepts them as
  they are, and its own defaults for rate and workers change nothing.
\<close>

theorem default_flags_complete:
  assumes "c \<noteq> ''''" and "v = flag_values chaos_run_flags [''fail'' \<mapsto> FString c]"
  shows "validate_options (chaos_options v (text_of (v ''fail''))) = Inr (chaos_options v c)
       \<and> op_duration (chaos_options v c) = seconds 30 \<and> op_rps (chaos_options v c) = 50
       \<and> op_concurrency (chaos_options v c) = 4 \<and> text_of (v ''output'') = ''-''"
proof -
  have "text_of (v ''admin-url'') = ''http://localhost:8081''" "text_of (v ''proxy-url'') = ''http://localhost:8080''"
    "number_of (v ''duration'') = seconds 30" "number_of (v ''rps'') = 50" "number_of (v ''concurrency'') = 4"
    "text_of (v ''fail'') = c" "text_of (v ''output'') = ''-''"
    by (simp_all add: assms(2) flag_values_def chaos_run_flags_def)
  with assms(1) show ?thesis by (simp add: chaos_options_def validate_options_def seconds_def)
qed


end
