(* ===== verification/Driver.thy ===== *)
theory Driver
  imports Chaos
begin

text \<open>
  The goroutines of \<^verbatim>\<open>driver.start\<close> in \<^verbatim>\<open>internal/chaos/chaos.go\<close> as a state machine: a
  ticker that offers work to a bounded channel, \<open>c\<close> workers that take from it and fire, and
  the cancellation that closes it.  Its runs are lists of events.  The library shows that the
  counters are those of the sequential \<open>fire_all\<close>, that the drain after the cancellation
  ends, and what the drain counts.
\<close>

section \<open>States and events\<close>

text \<open>
  \<open>ds_live\<close> are the workers firing a request they took before the context was cancelled,
  \<open>ds_doomed\<close> those that took theirs afterwards: \<^verbatim>\<open>Client.Do\<close> fails for a cancelled context.
\<close>

record driver_state =
  ds_queue :: nat
  ds_idle :: nat
  ds_live :: nat
  ds_doomed :: nat
  ds_exited :: nat
  ds_cancelled :: bool
  ds_closed :: bool
  ds_counters :: driver

definition start_driver :: "nat \<Rightarrow> driver_state" where
  "start_driver c = \<lparr>ds_queue = 0, ds_idle = c, ds_live = 0, ds_doomed = 0, ds_exited = 0,
     ds_cancelled = False, ds_closed = False, ds_counters = new_driver\<rparr>"

datatype driver_event =
    Tick
  | Take
  | Finish int shot
  | FinishDoomed int
  | Cancel
  | Close
  | Exit

text \<open>
  One event, \<open>None\<close> when it is not enabled.  A tick that finds the channel full is dropped.
  The loop may take any number of ticks before it notices the cancellation.  A worker leaves
  when the channel is closed and drained.
\<close>

fun drive_step :: "nat \<Rightarrow> driver_event \<Rightarrow> driver_state \<Rightarrow> driver_state option" where
  "drive_step c Tick s =
     (if ds_closed s then None
      else Some (if ds_queue s < c * 2 then s\<lparr>ds_queue := Suc (ds_queue s)\<rparr> else s))"
| "drive_step c Take s =
     (if ds_queue s = 0 \<or> ds_idle s = 0 then None
      else let s = s\<lparr>ds_queue := ds_queue s - 1, ds_idle := ds_idle s - 1,
                     ds_counters := shot_start (ds_counters s)\<rparr>
           in Some (if ds_cancelled s then s\<lparr>ds_doomed := Suc (ds_doomed s)\<rparr>
                    else s\<lparr>ds_live := Suc (ds_live s)\<rparr>))"
| "drive_step c (Finish now x) s =
     (if ds_live s = 0 then None
      else Some (s\<lparr>ds_live := ds_live s - 1, ds_idle := Suc (ds_idle s),
                   ds_counters := shot_end now x (ds_counters s)\<rparr>))"
| "drive_step c (FinishDoomed now) s =
     (if ds_doomed s = 0 then None
      else Some (s\<lparr>ds_doomed := ds_doomed s - 1, ds_idle := Suc (ds_idle s),
                   ds_counters := shot_end now ShotFailed (ds_counters s)\<rparr>))"
| "drive_step c Cancel s = (if ds_cancelled s then None else Some (s\<lparr>ds_cancelled := True\<rparr>))"
| "drive_step c Close s =
     (if ds_cancelled s \<and> \<not> ds_closed s then Some (s\<lparr>ds_closed := True\<rparr>) else None)"
| "drive_step c Exit s =
     (if ds_closed s \<and> ds_queue s = 0 \<and> 0 < ds_idle s
      then Some (s\<lparr>ds_idle := ds_idle s - 1, ds_exited := Suc (ds_exited s)\<rparr>) else None)"

fun drive :: "nat \<Rightarrow> driver_event list \<Rightarrow> driver_state \<Rightarrow> driver_state option" where
  "drive c [] s = Some s"
| "drive c (e # es) s = (case drive_step c e s of None \<Rightarrow> None | Some s' \<Rightarrow> drive c es s')"

text \<open>\<^verbatim>\<open>close(done)\<close>: every worker has left.\<close>

definition driver_done :: "nat \<Rightarrow> driver_state \<Rightarrow> bool" where
  "driver_done c s \<longleftrightarrow> ds_exited s = c"

section \<open>The invariant\<close>

definition driver_ok :: "nat \<Rightarrow> driver_state \<Rightarrow> bool" where
  "driver_ok c s \<longleftrightarrow> ds_queue s \<le> c * 2
     \<and> ds_idle s + ds_live s + ds_doomed s + ds_exited s = c
     \<and> (ds_closed s \<longrightarrow> ds_cancelled s)
     \<and> (0 < ds_exited s \<longrightarrow> ds_closed s \<and> ds_queue s = 0)
     \<and> (0 < ds_doomed s \<longrightarrow> ds_cancelled s)"

lemma driver_ok_start: "driver_ok c (start_driver c)"
  by (simp add: driver_ok_def start_driver_def)

lemma driver_ok_step: "drive_step c e s = Some s' \<Longrightarrow> driver_ok c s \<Longrightarrow> driver_ok c s'"
  by (cases e) (auto simp: driver_ok_def Let_def split: if_splits)

lemma drive_induct [consumes 1, case_names Nil Cons]:
  assumes "drive c es s = Some s'"
    and "\<And>s. P [] s s"
    and "\<And>e es s t s'. drive_step c e s = Some t \<Longrightarrow> drive c es t = Some s' \<Longrightarrow> P es t s' \<Longrightarrow> P (e # es) s s'"
  shows "P es s s'"
  using assms(1)
proof (induction es arbitrary: s)
  case (Cons e es)
  then show ?case using assms(3) by (auto split: option.splits)
qed (simp add: assms(2))

lemma driver_ok_drive: "drive c es s = Some s' \<Longrightarrow> driver_ok c s \<Longrightarrow> driver_ok c s'"
  by (induction rule: drive_induct) (auto dest: driver_ok_step)

lemma drive_append: "drive c (es @ fs) s = (case drive c es s of None \<Rightarrow> None | Some t \<Rightarrow> drive c fs t)"
  by (induction es arbitrary: s) (auto split: option.splits)

section \<open>The counters\<close>

text \<open>The requests a run finished, in the order of their completion.\<close>

fun shot_of :: "driver_event \<Rightarrow> (int \<times> shot) list" where
  "shot_of (Finish now x) = [(now, x)]"
| "shot_of (FinishDoomed now) = [(now, ShotFailed)]"
| "shot_of _ = []"

definition shots :: "driver_event list \<Rightarrow> (int \<times> shot) list" where
  "shots es = concat (List.map shot_of es)"

lemma shots_simps [simp]:
  "shots [] = []" "shots (e # es) = shot_of e @ shots es" "shots (es @ fs) = shots es @ shots fs"
  by (simp_all add: shots_def)

lemma shot_end_total: "shot_end now x (d\<lparr>dr_total := n\<rparr>) = (shot_end now x d)\<lparr>dr_total := n\<rparr>"
  by (cases x) (simp_all add: shot_end_def Let_def)

lemma shot_end_keeps_total: "dr_total (shot_end now x d) = dr_total d"
  by (cases x) (simp_all add: shot_end_def Let_def)

text \<open>Starting and finishing commute, so interleaved requests count as if one after another.\<close>

definition score :: "(int \<times> shot) list \<Rightarrow> driver \<Rightarrow> driver" where
  "score xs d = fold (\<lambda>(now, x). shot_end now x) xs d"

lemma score_simps [simp]:
  "score [] d = d" "score (x # xs) d = score xs (shot_end (fst x) (snd x) d)"
  "score (xs @ ys) d = score ys (score xs d)"
  by (simp_all add: score_def split_beta)

lemma score_total: "score xs (d\<lparr>dr_total := n\<rparr>) = (score xs d)\<lparr>dr_total := n\<rparr>"
  by (induction xs arbitrary: d) (simp_all add: shot_end_total)

lemma fire_all_score:
  "wrap64 (dr_total d) = dr_total d \<Longrightarrow>
   fire_all xs d = (score xs d)\<lparr>dr_total := wrap64 (dr_total d + int (length xs))\<rparr>"
proof (induction xs arbitrary: d)
  case Nil
  then show ?case by (simp add: fire_all_def)
next
  case (Cons x xs)
  let ?d = "fire (fst x) (snd x) d"
  have "dr_total ?d = wrap64 (dr_total d + 1)" by (simp add: fire_scalars)
  then have "fire_all (x # xs) d = (score xs ?d)\<lparr>dr_total := wrap64 (dr_total d + 1 + int (length xs))\<rparr>"
    using Cons.IH [of ?d] by (simp add: fire_all_def split_beta)
  then show ?case by (simp add: fire_def shot_start_def shot_end_total score_total add.assoc)
qed

definition counters_ok :: "(int \<times> shot) list \<Rightarrow> driver_state \<Rightarrow> bool" where
  "counters_ok xs s \<longleftrightarrow> ds_counters s =
     (score xs new_driver)\<lparr>dr_total := wrap64 (int (length xs + ds_live s + ds_doomed s))\<rparr>"

lemma counters_ok_step:
  "drive_step c e s = Some s' \<Longrightarrow> counters_ok xs s \<Longrightarrow> counters_ok (xs @ shot_of e) s'"
  by (cases e) (auto simp: counters_ok_def Let_def shot_start_def shot_end_total add.commute add.left_commute split: if_splits)

lemma counters_ok_drive:
  "drive c es s = Some s' \<Longrightarrow> counters_ok xs s \<Longrightarrow> counters_ok (xs @ shots es) s'"
proof (induction arbitrary: xs rule: drive_induct)
  case (Cons e es s t s')
  from Cons.IH [OF counters_ok_step [OF Cons.hyps(1) Cons.prems]] show ?case by simp
qed simp

lemma driver_counters:
  assumes "drive c es (start_driver c) = Some s" and "driver_done c s" and "0 < c"
  shows "ds_counters s = fire_all (shots es) new_driver \<and> ds_queue s = 0 \<and> ds_cancelled s"
proof -
  have ok: "driver_ok c s" by (rule driver_ok_drive [OF assms(1) driver_ok_start])
  have "counters_ok ([] @ shots es) s"
    by (rule counters_ok_drive [OF assms(1)]) (simp add: counters_ok_def start_driver_def new_driver_def)
  moreover have "wrap64 (dr_total new_driver) = dr_total new_driver" by (simp add: new_driver_def)
  from fire_all_score [OF this] have "fire_all (shots es) new_driver
      = (score (shots es) new_driver)\<lparr>dr_total := wrap64 (int (length (shots es)))\<rparr>"
    by (simp add: new_driver_def)
  ultimately show ?thesis using ok assms(2,3) by (simp add: counters_ok_def driver_ok_def driver_done_def)
qed

text \<open>
  C14: The concurrent driver counts like the sequential one: when all its workers have left,
  whatever the interleaving was, its counters are those of firing the finished requests
  one after another in the order of their completion, and nothing is left in the channel.
\<close>

theorem driver_counts_sequentially:
  assumes "drive c es (start_driver c) = Some s" and "driver_done c s" and "0 < c"
  shows "ds_counters s = fire_all (shots es) new_driver \<and> ds_queue s = 0"
  using driver_counters [OF assms] by blast

section \<open>The drain\<close>

definition drain_measure :: "driver_state \<Rightarrow> nat" where
  "drain_measure s = 3 * ds_queue s + 2 * (ds_live s + ds_doomed s) + ds_idle s"

lemma drain_step:
  assumes "drive_step c e s = Some s'" and "ds_closed s" and "driver_ok c s"
  shows "ds_closed s' \<and> drain_measure s' < drain_measure s"
  using assms by (cases e) (auto simp: drain_measure_def driver_ok_def Let_def split: if_splits)

lemma drain_length:
  "drive c es s = Some s' \<Longrightarrow> ds_closed s \<Longrightarrow> driver_ok c s \<Longrightarrow>
     ds_closed s' \<and> length es + drain_measure s' \<le> drain_measure s"
proof (induction rule: drive_induct)
  case (Cons e es s t s')
  from drain_step [OF Cons.hyps(1) Cons.prems] Cons.IH driver_ok_step [OF Cons.hyps(1) Cons.prems(2)]
  show ?case by auto
qed simp

lemma drain_progress:
  assumes "driver_ok c s" and "ds_closed s" and "\<not> driver_done c s"
  shows "\<exists>e. drive_step c e s \<noteq> None"
proof -
  have "ds_idle s + ds_live s + ds_doomed s \<noteq> 0" using assms(1,3) unfolding driver_ok_def driver_done_def by linarith
  then consider "0 < ds_live s" | "0 < ds_doomed s" | "0 < ds_idle s" "0 < ds_queue s" | "0 < ds_idle s" "ds_queue s = 0"
    by fastforce
  then show ?thesis
  proof cases
    case 1
    then have "drive_step c (Finish 0 ShotFailed) s \<noteq> None" by simp
    then show ?thesis by blast
  next
    case 2
    then have "drive_step c (FinishDoomed 0) s \<noteq> None" by simp
    then show ?thesis by blast
  next
    case 3
    then have "drive_step c Take s \<noteq> None" by (simp add: Let_def)
    then show ?thesis by blast
  next
    case 4
    with assms(2) have "drive_step c Exit s \<noteq> None" by simp
    then show ?thesis by blast
  qed
qed

text \<open>
  C15: The driver stops: once the loop has closed the channel, at most \<open>8 * c\<close> further events
  are possible, and as long as a worker is left some event is, so that every run that goes
  on as long as it can ends with all workers gone and \<^verbatim>\<open>Run\<close> is not left waiting.
\<close>

theorem driver_drains:
  assumes "drive c es (start_driver c) = Some s" and "ds_closed s"
    and "drive c fs s = Some s'"
  shows "length fs \<le> 8 * c \<and> ((\<forall>e. drive_step c e s' = None) \<longleftrightarrow> driver_done c s')"
proof -
  have ok: "driver_ok c s" by (rule driver_ok_drive [OF assms(1) driver_ok_start])
  have ok': "driver_ok c s'" by (rule driver_ok_drive [OF assms(3) ok])
  have len: "ds_closed s'" "length fs + drain_measure s' \<le> drain_measure s"
    using drain_length [OF assms(3,2) ok] by simp_all
  moreover have "drain_measure s \<le> 8 * c" using ok by (simp add: drain_measure_def driver_ok_def)
  moreover have "drive_step c e s' = None" if "driver_done c s'" for e
    using ok' len(1) that by (cases e) (auto simp: driver_ok_def driver_done_def)
  ultimately show ?thesis using drain_progress [OF ok' len(1)] by fastforce
qed

section \<open>What the drain counts\<close>

lemma failures_simps [simp]:
  "failures [] = 0" "failures (xs @ ys) = failures xs + failures ys"
  "failures [x] = (if shot_failed (snd x) then 1 else 0)"
  by (simp_all add: failures_def)

lemma tail_step:
  assumes "drive_step c e s = Some s'" and "ds_cancelled s"
  shows "ds_cancelled s' \<and> ds_queue s + ds_doomed s \<le> failures (shot_of e) + ds_queue s' + ds_doomed s'"
  using assms by (cases e) (auto simp: Let_def split: if_splits)

lemma tail_failures:
  "drive c es s = Some s' \<Longrightarrow> ds_cancelled s \<Longrightarrow>
     ds_queue s + ds_doomed s \<le> failures (shots es) + ds_queue s' + ds_doomed s'"
proof (induction rule: drive_induct)
  case (Cons e es s t s')
  from tail_step [OF Cons.hyps(1) Cons.prems] Cons.IH show ?case by simp
qed simp

lemma fire_all_sums:
  "dr_total (fire_all xs new_driver) = wrap64 (int (length xs))
   \<and> dr_failed (fire_all xs new_driver) = wrap64 (int (failures xs))"
proof (induction xs rule: rev_induct)
  case Nil
  show ?case by (simp add: fire_all_def new_driver_def)
next
  case (snoc x xs)
  then show ?case by (simp add: fire_all_snoc fire_scalars add.commute)
qed

text \<open>
  The end of a run counts against it: every request still waiting in the channel when
  the run is cancelled is sent with the cancelled context and ends up among the requests
  and among the failures, however well the proxy has been answering.
\<close>

theorem drain_counts_failures:
  assumes "drive c es (start_driver c) = Some s" and "ds_cancelled s"
    and "drive c fs s = Some s'" and "driver_done c s'" and "0 < c"
    and "length (shots (es @ fs)) < 2 ^ 63"
  shows "int (failures (shots es) + ds_queue s) \<le> dr_failed (ds_counters s')
       \<and> dr_failed (ds_counters s') \<le> dr_total (ds_counters s')"
proof -
  have run: "drive c (es @ fs) (start_driver c) = Some s'" using assms(1,3) by (simp add: drive_append)
  have count: "ds_counters s' = fire_all (shots (es @ fs)) new_driver" "ds_queue s' = 0"
    using driver_counters [OF run assms(4,5)] by simp_all
  have "driver_ok c s'" by (rule driver_ok_drive [OF run driver_ok_start])
  then have "ds_doomed s' = 0" using assms(4) by (simp add: driver_ok_def driver_done_def)
  with tail_failures [OF assms(3,2)] count(2) have "ds_queue s \<le> failures (shots fs)" by simp
  moreover have "dr_failed (ds_counters s') = int (failures (shots (es @ fs)))"
    "dr_total (ds_counters s') = int (length (shots (es @ fs)))"
    using fire_all_sums [of "shots (es @ fs)"] wrap64_length [OF assms(6), of "\<lambda>x. shot_failed (snd x)"]
      wrap64_length [OF assms(6), of "\<lambda>_. True"]
    unfolding count(1) failures_def by (simp_all del: shots_simps filter_append)
  moreover have "failures (shots (es @ fs)) \<le> length (shots (es @ fs))" unfolding failures_def by (rule length_filter_le)
  ultimately show ?thesis by simp
qed

end
