(* ===== verification/ChaosClient.thy ===== *)
theory ChaosClient
  imports Chaos Admin
begin

text \<open>
  The HTTP calls of \<^verbatim>\<open>internal/chaos/chaos.go\<close>, \<^verbatim>\<open>fetchBackends\<close> and \<^verbatim>\<open>setHealth\<close>, put
  together with the admin API they talk to.  A call is the request it builds, handed to
  the server's \<^verbatim>\<open>auth\<close>; its result is read off the reply.  The library shows that failing a
  cloud and restoring it do to the shared world what they should, for backend names that
  survive the way through a URL, and what happens for the others.
\<close>

section \<open>Paths\<close>

text \<open>The path of a URL without its scheme and host, cut into the segments \<^verbatim>\<open>ServeMux\<close>
  matches.  Percent signs and empty or dot segments are outside this model; the theorems
  ask for names without them.\<close>

definition request_path :: "string \<Rightarrow> string list" where
  "request_path s = tl (slash_split (takeWhile (\<lambda>c. c \<noteq> CHR ''?'' \<and> c \<noteq> CHR ''#'') s))"

definition plain_char :: "char \<Rightarrow> bool" where
  "plain_char c \<longleftrightarrow> (33 \<le> (of_char c :: nat) \<and> (of_char c :: nat) \<le> 126)
     \<and> c \<noteq> CHR ''/'' \<and> c \<noteq> CHR ''?'' \<and> c \<noteq> CHR ''#'' \<and> c \<noteq> CHR ''%''"

definition plain_name :: "string \<Rightarrow> bool" where
  "plain_name n \<longleftrightarrow> n \<noteq> '''' \<and> list_all plain_char n \<and> n \<noteq> ''.'' \<and> n \<noteq> ''..''"

lemma slash_split_plain: "list_all plain_char n \<Longrightarrow> slash_split n = [n]"
  by (induction n) (auto simp: plain_char_def)

lemma slash_split_append:
  "list_all plain_char n \<Longrightarrow> slash_split (n @ CHR ''/'' # s) = n # slash_split s"
  by (induction n) (auto simp: plain_char_def)

lemma takeWhile_plain:
  "list_all plain_char n \<Longrightarrow> takeWhile (\<lambda>c. c \<noteq> CHR ''?'' \<and> c \<noteq> CHR ''#'') (n @ s)
     = n @ takeWhile (\<lambda>c. c \<noteq> CHR ''?'' \<and> c \<noteq> CHR ''#'') s"
  by (induction n) (auto simp: plain_char_def)

section \<open>Calls\<close>

text \<open>A received header value has no surrounding blanks.\<close>

definition api_request :: "string \<Rightarrow> string \<Rightarrow> string \<Rightarrow> (string \<times> string list) list \<Rightarrow> string \<Rightarrow> admin_request" where
  "api_request m token url hs body =
     \<lparr>rq_method = m, rq_remote_addr = '''',
      rq_header = (''Authorization'', [trim_space (''Bearer '' @ token)]) # hs, rq_cookies = [],
      aq_path = request_path url, aq_body = body\<rparr>"

definition fetch_backends :: "'e server \<Rightarrow> string \<Rightarrow> world \<Rightarrow> target list option \<times> world" where
  "fetch_backends sv token w =
     (let (re, w) = auth sv (api_request ''GET'' token ''/admin/backends'' [] []) w
      in (if re_status re \<noteq> 200 then None
          else (case re_body re of
                  AllBackends ds \<Rightarrow> Some (List.map (\<lambda>d. \<lparr>tg_name = dto_name d, tg_cloud = dto_cloud d\<rparr>) ds)
                | _ \<Rightarrow> None), w))"

definition health_body :: "bool \<Rightarrow> string" where
  "health_body v = ''{\"healthy\":'' @ (if v then ''true'' else ''false'') @ ''}''"

text \<open>The first component is whether \<^verbatim>\<open>setHealth\<close> returned without an error.\<close>

definition set_health :: "'e server \<Rightarrow> string \<Rightarrow> string \<Rightarrow> bool \<Rightarrow> world \<Rightarrow> bool \<times> world" where
  "set_health sv token name v w =
     (let (re, w) = auth sv (api_request ''PUT'' token (''/admin/backends/'' @ name @ ''/health'')
                      [(''Content-Type'', [''application/json''])] (health_body v)) w
      in (re_status re < 300, w))"

section \<open>Failing and restoring a cloud\<close>

fun mark_through :: "'e server \<Rightarrow> string \<Rightarrow> string list \<Rightarrow> world \<Rightarrow> chaos_error option \<times> world" where
  "mark_through sv token [] w = (None, w)"
| "mark_through sv token (n # ns) w =
     (case set_health sv token n False w of
        (True, w) \<Rightarrow> mark_through sv token ns w
      | (False, w) \<Rightarrow> (Some (MarkFailed n), w))"

definition restore_through :: "'e server \<Rightarrow> string \<Rightarrow> string list \<Rightarrow> world \<Rightarrow> world" where
  "restore_through sv token ns w = fold (\<lambda>n w. snd (set_health sv token n True w)) ns w"

text \<open>The calls of \<^verbatim>\<open>Run\<close> up to the end of its marking loop, and those after the window.  The
  list of names is the one \<^verbatim>\<open>Run\<close> keeps in \<^verbatim>\<open>failed\<close>.\<close>

definition fail_cloud :: "'e server \<Rightarrow> string \<Rightarrow> string \<Rightarrow> world \<Rightarrow> (chaos_error + string list) \<times> world" where
  "fail_cloud sv token c w =
     (case fetch_backends sv token w of
        (None, w) \<Rightarrow> (Inl ListFailed, w)
      | (Some ts, w) \<Rightarrow>
          let failed = filter_cloud ts c
          in if failed = [] then (Inl (NoBackendMatched c), w)
             else (case mark_through sv token failed w of
                     (Some e, w) \<Rightarrow> (Inl e, w)
                   | (None, w) \<Rightarrow> (Inr failed, w)))"

section \<open>What the calls do\<close>

lemma trimmed_last:
  assumes "trimmed t" and "t \<noteq> ''''"
  shows "\<not> is_space (last t)"
proof -
  have "t = rev (dropWhile is_space (rev (dropWhile is_space t)))"
    using assms(1) by (simp add: trimmed_def trim_space_def)
  then have r: "rev t = dropWhile is_space (rev (dropWhile is_space t))" by (metis rev_rev_ident)
  with assms(2) have "dropWhile is_space (rev (dropWhile is_space t)) \<noteq> []" by (metis rev_is_Nil_conv)
  then have "\<not> is_space (hd (rev t))" unfolding r by (rule hd_dropWhile)
  then show ?thesis by (simp add: hd_rev)
qed

lemma bearer_received:
  assumes "trimmed t" and "t \<noteq> ''''"
  shows "trim_space (''Bearer '' @ t) = ''Bearer '' @ t"
  using trimmed_last [OF assms] assms(2) by (intro trim_space_id) (simp add: is_space_def)

lemma api_authorized:
  assumes "sv_token sv \<noteq> ''''" and "trimmed (sv_token sv)"
  shows "auth sv (api_request m (sv_token sv) url hs body) w
       = serve_mux sv (api_request m (sv_token sv) url hs body) w"
proof -
  have "canonical_key ''Authorization'' = ''Authorization''" by code_simp
  then have "header_get (request.truncate (api_request m (sv_token sv) url hs body)) ''Authorization''
      = ''Bearer '' @ sv_token sv"
    using bearer_received [OF assms(2,1)]
    by (simp add: header_get_def api_request_def request.truncate_def)
  moreover have "has_prefix ''Bearer '' (''Bearer '' @ sv_token sv)" by (rule has_prefix_append)
  ultimately show ?thesis using assms(1) by (simp add: auth_def Let_def)
qed

lemma slash_split_prefix:
  "slash_split (''/admin/backends/'' @ s) = [''''] @ [''admin'', ''backends''] @ slash_split s"
  by simp

lemma takeWhile_prefix:
  "takeWhile (\<lambda>c. c \<noteq> CHR ''?'' \<and> c \<noteq> CHR ''#'') (''/admin/backends/'' @ s)
     = ''/admin/backends/'' @ takeWhile (\<lambda>c. c \<noteq> CHR ''?'' \<and> c \<noteq> CHR ''#'') s"
  by simp

lemma request_path_health:
  assumes "plain_name n"
  shows "request_path (''/admin/backends/'' @ n @ ''/health'') = [''admin'', ''backends'', n, ''health'']"
proof -
  have p: "list_all plain_char n" using assms by (simp add: plain_name_def)
  have "takeWhile (\<lambda>c. c \<noteq> CHR ''?'' \<and> c \<noteq> CHR ''#'') (''/admin/backends/'' @ n @ ''/health'')
      = ''/admin/backends/'' @ n @ ''/health''"
    unfolding takeWhile_prefix takeWhile_plain [OF p] by simp
  moreover have "slash_split (n @ ''/health'') = [n, ''health'']"
    using slash_split_append [OF p, of "''health''"] by simp
  ultimately show ?thesis unfolding request_path_def by (simp only: slash_split_prefix) simp
qed

lemma set_health_call:
  assumes "sv_token sv \<noteq> ''''" and "trimmed (sv_token sv)" and "plain_name n"
  shows "set_health sv (sv_token sv) n v w =
      (re_status (fst (set_backend_health sv n (health_body v) w)) < 300,
       snd (set_backend_health sv n (health_body v) w))"
proof -
  have "n \<noteq> ''''" using assms(3) by (simp add: plain_name_def)
  then have "endpoint_of ''PUT'' (request_path (''/admin/backends/'' @ n @ ''/health'')) = HealthEp n"
    unfolding request_path_health [OF assms(3)] by (simp add: endpoint_of_def)
  then show ?thesis
    unfolding set_health_def api_authorized [OF assms(1,2)]
    by (simp only: serve_mux_def api_request_def request.simps admin_request.simps endpoint.case split_beta Let_def)
qed

lemma fetch_call:
  assumes "sv_token sv \<noteq> ''''" and "trimmed (sv_token sv)"
  shows "fetch_backends sv (sv_token sv) w =
     (Some (List.map (\<lambda>r. \<lparr>tg_name = bk_name (wo_heap w r), tg_cloud = bk_cloud (wo_heap w r)\<rparr>)
              (pl_all (wo_pool w))), w)"
proof -
  have "request_path ''/admin/backends'' = [''admin'', ''backends'']" by code_simp
  then have "serve_mux sv (api_request ''GET'' (sv_token sv) ''/admin/backends'' [] []) w = list_backends w"
    by (simp add: serve_mux_def endpoint_of_def api_request_def)
  then show ?thesis
    unfolding fetch_backends_def api_authorized [OF assms]
    by (simp add: list_backends_def reply_json_def to_dto_def pool_backends_def comp_def)
qed

section \<open>Marking through the API\<close>

text \<open>One override as the server performs it.\<close>

definition mark :: "'e server \<Rightarrow> string \<Rightarrow> string \<Rightarrow> world \<Rightarrow> world" where
  "mark sv body name w = snd (set_backend_health sv name body w)"

lemma pool_find_unique:
  assumes "pool_ok h p" and "r \<in> set (pl_all p)"
  shows "pool_find h p (bk_name (h r)) = Some r"
proof -
  have "pool_find h p (bk_name (h r)) \<noteq> None" using assms(2) by (auto simp: pool_find_None)
  then obtain q where q: "pool_find h p (bk_name (h r)) = Some q" by blast
  from pool_find_Some [OF q] have "q \<in> set (pl_all p)" "bk_name (h q) = bk_name (h r)" by blast+
  with assms have "q = r" by (auto simp: pool_ok_def distinct_map inj_on_def)
  with q show ?thesis by simp
qed

lemma mark_effect:
  assumes "pool_ok (wo_heap w) (wo_pool w)" and "sv_decode_health sv body = Some (Some v)"
    and "r \<in> set (pl_all (wo_pool w))"
  shows "wo_heap (mark sv body n w) r =
      (if bk_name (wo_heap w r) = n then set_healthy v (wo_heap w r) else wo_heap w r)"
proof (cases "pool_find (wo_heap w) (wo_pool w) n")
  case None
  then have "bk_name (wo_heap w r) \<noteq> n" using assms(3) by (auto simp: pool_find_None)
  with None assms(2) show ?thesis by (simp add: mark_def set_backend_health_def)
next
  case (Some q)
  have m: "mark sv body n w = w\<lparr>wo_heap := modify (set_healthy v) q (wo_heap w)\<rparr>"
    using Some assms(2) by (simp add: mark_def set_backend_health_def Let_def)
  show ?thesis
  proof (cases "bk_name (wo_heap w r) = n")
    case True
    with Some have "q = r" using pool_find_unique [OF assms(1,3)] by simp
    with True m show ?thesis by simp
  next
    case False
    with pool_find_Some [OF Some] have "r \<noteq> q" by blast
    with False m show ?thesis by simp
  qed
qed

lemma mark_frame:
  "wo_pool (mark sv body n w) = wo_pool w" "bk_name (wo_heap (mark sv body n w) r) = bk_name (wo_heap w r)"
  by (simp_all add: mark_def set_backend_health_frame)

lemma marks_pool: "wo_pool (fold (mark sv body) ns w) = wo_pool w"
  by (induction ns arbitrary: w) (simp_all add: mark_frame)

lemma marks_effect:
  assumes "pool_ok (wo_heap w) (wo_pool w)" and "sv_decode_health sv body = Some (Some v)"
    and "r \<in> set (pl_all (wo_pool w))"
  shows "wo_heap (fold (mark sv body) ns w) r =
           (if bk_name (wo_heap w r) \<in> set ns then set_healthy v (wo_heap w r) else wo_heap w r)"
  using assms
proof (induction ns arbitrary: w)
  case (Cons n ns)
  have "pool_ok (wo_heap (mark sv body n w)) (wo_pool (mark sv body n w))"
    using Cons.prems(1) by (simp add: mark_frame pool_ok_def)
  from Cons.IH [OF this Cons.prems(2)] Cons.prems(3) mark_effect [OF Cons.prems, of n] show ?case
    by (auto simp: mark_frame set_healthy_def)
qed simp


lemma mark_find: "pool_find (wo_heap (mark sv body n w)) (wo_pool (mark sv body n w)) m = pool_find (wo_heap w) (wo_pool w) m"
  by (simp add: pool_find_def mark_frame)

lemma set_health_marks:
  assumes "sv_token sv \<noteq> ''''" and "trimmed (sv_token sv)" and "plain_name n"
    and "sv_decode_health sv (health_body v) = Some (Some v)"
  shows "set_health sv (sv_token sv) n v w = (pool_find (wo_heap w) (wo_pool w) n \<noteq> None, mark sv (health_body v) n w)"
  using assms(4)
  by (simp add: set_health_call [OF assms(1-3)] mark_def set_backend_health_def reply_error_def reply_json_def Let_def
      split: option.splits)

lemma mark_through_marks:
  assumes "sv_token sv \<noteq> ''''" and "trimmed (sv_token sv)"
    and "sv_decode_health sv (health_body False) = Some (Some False)"
    and "\<forall>n \<in> set ns. plain_name n \<and> pool_find (wo_heap w) (wo_pool w) n \<noteq> None"
  shows "mark_through sv (sv_token sv) ns w = (None, fold (mark sv (health_body False)) ns w)"
  using assms(4)
proof (induction ns arbitrary: w)
  case (Cons n ns)
  have "set_health sv (sv_token sv) n False w = (True, mark sv (health_body False) n w)"
    using set_health_marks [OF assms(1,2) _ assms(3), of n w] Cons.prems by simp
  with Cons.IH [of "mark sv (health_body False) n w"] Cons.prems show ?case by (simp add: mark_find)
qed simp

lemma restore_through_marks:
  assumes "sv_token sv \<noteq> ''''" and "trimmed (sv_token sv)"
    and "sv_decode_health sv (health_body True) = Some (Some True)" and "\<forall>n \<in> set ns. plain_name n"
  shows "restore_through sv (sv_token sv) ns w = fold (mark sv (health_body True)) ns w"
  using assms(4)
  by (induction ns arbitrary: w)
    (simp_all add: restore_through_def set_health_marks [OF assms(1,2) _ assms(3)])

definition cloud_names :: "world \<Rightarrow> string \<Rightarrow> string list" where
  "cloud_names w c = List.map (\<lambda>r. bk_name (wo_heap w r)) (filter (\<lambda>r. bk_cloud (wo_heap w r) = c) (pl_all (wo_pool w)))"

lemma cloud_names_iff:
  assumes "pool_ok (wo_heap w) (wo_pool w)" and "r \<in> set (pl_all (wo_pool w))"
  shows "bk_name (wo_heap w r) \<in> set (cloud_names w c) \<longleftrightarrow> bk_cloud (wo_heap w r) = c"
proof -
  have "q = r" if "q \<in> set (pl_all (wo_pool w))" "bk_name (wo_heap w q) = bk_name (wo_heap w r)" for q
    using pool_find_unique [OF assms(1) that(1)] pool_find_unique [OF assms] unfolding that(2) by simp
  then show ?thesis using assms(2) by (auto simp: cloud_names_def)
qed

lemma cloud_names_found:
  "n \<in> set (cloud_names w c) \<Longrightarrow> pool_find (wo_heap w) (wo_pool w) n \<noteq> None"
  by (auto simp: cloud_names_def pool_find_None)

text \<open>What failing a cloud amounts to, for names that survive the URL.\<close>

lemma fail_cloud_marks:
  assumes "sv_token sv \<noteq> ''''" and "trimmed (sv_token sv)"
    and "sv_decode_health sv (health_body False) = Some (Some False)"
    and "\<forall>n \<in> set (cloud_names w c). plain_name n" and "cloud_names w c \<noteq> []"
  shows "fail_cloud sv (sv_token sv) c w
       = (Inr (cloud_names w c), fold (mark sv (health_body False)) (cloud_names w c) w)"
proof -
  have "filter_cloud (List.map (\<lambda>r. \<lparr>tg_name = bk_name (wo_heap w r), tg_cloud = bk_cloud (wo_heap w r)\<rparr>)
          (pl_all (wo_pool w))) c = cloud_names w c"
    by (simp add: filter_cloud_def cloud_names_def filter_map comp_def)
  moreover have "mark_through sv (sv_token sv) (cloud_names w c) w
      = (None, fold (mark sv (health_body False)) (cloud_names w c) w)"
    using cloud_names_found assms(4) by (intro mark_through_marks [OF assms(1-3)]) blast
  ultimately show ?thesis
    using assms(5) by (simp add: fail_cloud_def fetch_call [OF assms(1,2)] Let_def)
qed

section \<open>The effect on the world\<close>


text \<open>
  Restoring is not undoing: after a run has failed and restored a cloud, every backend
  of it is healthy, those included that were unhealthy or disabled before the run; all
  other backends, and everything but the health flags, are as they were.
\<close>

theorem chaos_run_enables:
  assumes "world_ok w" and "sv_token sv \<noteq> ''''" and "trimmed (sv_token sv)"
    and "\<forall>v. sv_decode_health sv (health_body v) = Some (Some v)"
    and "\<forall>n \<in> set (cloud_names w c). plain_name n" and "r \<in> set (pl_all (wo_pool w))"
    and "fail_cloud sv (sv_token sv) c w = (Inr failed, w1)"
  shows "wo_heap (restore_through sv (sv_token sv) failed w1) r
           = (if bk_cloud (wo_heap w r) = c then set_healthy True (wo_heap w r) else wo_heap w r)"
proof -
  have dec: "sv_decode_health sv (health_body v) = Some (Some v)" for v using assms(4) by blast
  have ok: "pool_ok (wo_heap w) (wo_pool w)" using assms(1) by (simp add: world_ok_def)
  have ne: "cloud_names w c \<noteq> []"
  proof
    assume "cloud_names w c = []"
    then have "filter_cloud (List.map (\<lambda>r. \<lparr>tg_name = bk_name (wo_heap w r), tg_cloud = bk_cloud (wo_heap w r)\<rparr>)
          (pl_all (wo_pool w))) c = []"
      by (simp add: filter_cloud_def cloud_names_def filter_map comp_def)
    with assms(7) show False by (simp add: fail_cloud_def fetch_call [OF assms(2,3)] Let_def)
  qed
  have "cloud_names w c = failed \<and> fold (mark sv (health_body False)) (cloud_names w c) w = w1"
    using assms(7) unfolding fail_cloud_marks [OF assms(2,3) dec assms(5) ne] prod.inject sum.inject .
  then have f: "failed = cloud_names w c" "w1 = fold (mark sv (health_body False)) (cloud_names w c) w"
    by blast+
  have p1: "wo_pool w1 = wo_pool w" unfolding f(2) by (rule marks_pool)
  have n1: "bk_name (wo_heap w1 q) = bk_name (wo_heap w q)" if "q \<in> set (pl_all (wo_pool w))" for q
    using marks_effect [OF ok dec that] unfolding f(2) by (simp add: set_healthy_def)
  have ok1: "pool_ok (wo_heap w1) (wo_pool w1)"
    using ok n1 by (simp add: pool_ok_def p1 cong: map_cong)
  have "wo_heap (fold (mark sv (health_body True)) failed w1) r
      = (if bk_name (wo_heap w1 r) \<in> set failed then set_healthy True (wo_heap w1 r) else wo_heap w1 r)"
    using assms(6) by (intro marks_effect [OF ok1 dec]) (simp add: p1)
  moreover have "restore_through sv (sv_token sv) failed w1 = fold (mark sv (health_body True)) failed w1"
    using assms(5) unfolding f(1) by (rule restore_through_marks [OF assms(2,3) dec])
  moreover have "bk_name (wo_heap w1 r) \<in> set failed \<longleftrightarrow> bk_cloud (wo_heap w r) = c"
    unfolding n1 [OF assms(6)] f(1) by (rule cloud_names_iff [OF ok assms(6)])
  moreover have "wo_heap w1 r = (if bk_cloud (wo_heap w r) = c then set_healthy False (wo_heap w r) else wo_heap w r)"
    using marks_effect [OF ok dec assms(6), of False "cloud_names w c"] cloud_names_iff [OF ok assms(6)] f(2) by simp
  ultimately show ?thesis by (simp add: set_healthy_def)
qed

text \<open>
  Names are pasted into the URL unescaped: a backend whose name contains a slash cannot
  be marked, the call ends in a 404 and the world stays as it is, whatever the server's
  state; a run against its cloud stops with an error there.
\<close>

theorem slash_name_unreachable:
  assumes "plain_name a" and "plain_name b"
  shows "set_health sv token (a @ ''/'' @ b) v w = (False, w)"
proof -
  have p: "list_all plain_char a" "list_all plain_char b" using assms by (simp_all add: plain_name_def)
  have "takeWhile (\<lambda>c. c \<noteq> CHR ''?'' \<and> c \<noteq> CHR ''#'') (''/admin/backends/'' @ (a @ ''/'' @ b) @ ''/health'')
      = ''/admin/backends/'' @ a @ ''/'' @ b @ ''/health''"
    unfolding append_assoc takeWhile_prefix takeWhile_plain [OF p(1)]
    using takeWhile_plain [OF p(2), of "''/health''"] by simp
  moreover have "slash_split (a @ ''/'' @ b @ ''/health'') = [a, b, ''health'']"
    using slash_split_append [OF p(1), of "b @ ''/health''"] slash_split_append [OF p(2), of "''health''"] by simp
  ultimately have "request_path (''/admin/backends/'' @ (a @ ''/'' @ b) @ ''/health'')
      = [''admin'', ''backends'', a, b, ''health'']"
    unfolding request_path_def by (simp only: slash_split_prefix) simp
  then have "endpoint_of ''PUT'' (request_path (''/admin/backends/'' @ (a @ ''/'' @ b) @ ''/health'')) = NotFoundEp"
    by (simp add: endpoint_of_def)
  then show ?thesis
    unfolding set_health_def
    by (simp add: auth_def Let_def serve_mux_def api_request_def unauthorized_def reply_json_def split_beta
        del: append.simps append_assoc)
qed

end
