(* ===== verification/Failover.thy ===== *)
theory Failover
  imports System ChaosClient Serving
begin

text \<open>
  The program against itself: a chaos run (\<^verbatim>\<open>internal/chaos\<close>) fails a cloud through the admin
  API and drives requests through the proxy of the same engine.  What its client sees of
  the served requests decides the verdict.  \<open>live\<close> is the state the marking leaves behind
  and every request keeps.
\<close>

section \<open>What the driver's client sees\<close>

definition header_value :: "string \<Rightarrow> headers \<Rightarrow> string" where
  "header_value k hs = (case find_first (\<lambda>p. fst p = k) hs of None \<Rightarrow> '''' | Some p \<Rightarrow> snd p)"

text \<open>When the handler panicked, the connection broke: the client sees the status if the head
  had \<open>left\<close> the server's buffer by then, as it ignores errors of reading the body, and an
  error otherwise.\<close>

definition client_shot :: "bool \<Rightarrow> served \<Rightarrow> shot" where
  "client_shot left x =
     (if sv_done x \<or> left
      then ShotAnswered (client_status (sw_sent (sv_writer x)))
             (header_value ''X-Cloud'' (final_headers (sw_sent (sv_writer x))))
      else ShotFailed)"

text \<open>Requests served one after another, with what each of them meets.\<close>

record arrival =
  ar_request :: request
  ar_target :: string
  ar_now :: int
  ar_later :: int
  ar_draw :: nat
  ar_dur :: int
  ar_upstream :: upstream

fun serve_all :: "arrival list \<Rightarrow> world \<Rightarrow> served list \<times> world" where
  "serve_all [] w = ([], w)"
| "serve_all (a # as) w =
     (let (x, w) = serve_http None (ar_target a) (ar_now a) (ar_later a) (ar_draw a) (ar_dur a)
                     (ar_upstream a) (ar_request a) w;
          (xs, w) = serve_all as w
      in (x # xs, w))"

text \<open>An upstream that answers properly.\<close>

fun answers :: "upstream \<Rightarrow> bool" where
  "answers (Failed cs e) = False"
| "answers (Responded cs code hs ns broken) \<longleftrightarrow> interim_codes cs \<and> 200 \<le> code \<and> code < 500 \<and> \<not> broken"

lemma client_status_append: "all_interim xs \<Longrightarrow> client_status (xs @ ys) = client_status ys"
  by (induction xs rule: all_interim.induct) simp_all

lemma find_first_filter: "find_first p (filter (\<lambda>x. \<not> p x) xs @ ys) = find_first p ys"
  by (induction xs) auto

lemma header_value_set: "header_value k (header_set k v hs) = v"
  using find_first_filter [of "\<lambda>p. fst p = k" hs "[(k, v)]"] by (simp add: header_value_def header_set_def)

lemma modify_response_cloud:
  "\<forall>p \<in> set pre. fst p \<noteq> ''X-Cloud'' \<Longrightarrow>
     header_value ''X-Cloud'' (pre @ modify_response h rp hs) = bk_cloud (h (rp_target rp))"
proof (induction pre)
  case Nil
  show ?case by (simp add: modify_response_def header_value_set)
next
  case (Cons p pre)
  then show ?case by (simp add: header_value_def)
qed

text \<open>The answer the client reads: the upstream's status and the target's cloud.\<close>

lemma reverse_proxy_reply:
  assumes "answers u" and "sw_sent s = []" and "\<forall>p \<in> set (sw_header s). fst p \<noteq> ''X-Cloud''"
  shows "\<not> snd (reverse_proxy ph h rp u s)
       \<and> client_status (sw_sent (fst (fst (reverse_proxy ph h rp u s)))) < 500
       \<and> header_value ''X-Cloud'' (final_headers (sw_sent (fst (fst (reverse_proxy ph h rp u s)))))
           = bk_cloud (h (rp_target rp))"
proof (cases u)
  case (Failed cs e)
  with assms(1) show ?thesis by simp
next
  case (Responded cs code hs ns broken)
  have u: "interim_codes cs" "200 \<le> code" "code < 500" "\<not> broken" using assms(1) Responded by simp_all
  let ?s = "forward_interim cs s"
  have i: "all_interim (sw_sent ?s)" "sw_header ?s = (if cs = [] then sw_header s else [])"
    using forward_interim_sent [of s cs] assms(2) u(1) by simp_all
  have e: "sw_sent (fst (fst (reverse_proxy ph h rp u s)))
      = sw_sent ?s @ Head code (sw_header ?s @ modify_response h rp hs) # List.map Data ns"
    using u by (simp add: Responded reverse_proxy_def Let_def fold_write_frame) (simp add: writer_defs)
  have "snd (reverse_proxy ph h rp u s) = broken" using u by (simp add: Responded reverse_proxy_def Let_def)
  moreover have "client_status (sw_sent (fst (fst (reverse_proxy ph h rp u s)))) = code"
    unfolding e client_status_append [OF i(1)] using u by simp
  moreover have "final_headers (sw_sent (fst (fst (reverse_proxy ph h rp u s)))) = sw_header ?s @ modify_response h rp hs"
    unfolding e final_headers_append [OF i(1)] using u by simp
  moreover have "\<forall>p \<in> set (sw_header ?s). fst p \<noteq> ''X-Cloud''" using assms(3) by (simp add: i(2))
  ultimately show ?thesis using u(3,4) modify_response_cloud by simp
qed

lemma admitted_writer:
  "sw_sent (fst (serve_admit r w)) = [] \<and> (\<forall>p \<in> set (sw_header (fst (serve_admit r w))). fst p \<noteq> ''X-Cloud'')"
  by (simp add: serve_admit_def Let_def affinity_cookie_def set_cookie_def new_status_writer_def update_header_def)

section \<open>The cache points to the right cloud\<close>

definition cache_fresh :: "heap \<Rightarrow> pool \<Rightarrow> handler \<Rightarrow> bool" where
  "cache_fresh h p ph \<longleftrightarrow> (\<forall>n rp. ph_proxies ph n = Some rp \<longrightarrow>
     (\<forall>r \<in> set (pl_all p). bk_name (h r) = n \<longrightarrow> bk_cloud (h (rp_target rp)) = bk_cloud (h r)))"

lemma connect_fresh:
  assumes "pool_ok h p" and "r \<in> set (pl_all p)" and "cache_fresh h p ph" and "proxy_for h r ph = (rp, ph')"
  shows "bk_cloud (h (rp_target rp)) = bk_cloud (h r) \<and> cache_fresh h p ph'"
proof (cases "ph_proxies ph (bk_name (h r))")
  case (Some rp0)
  then have "rp = rp0" "ph' = ph" using assms(4) by (simp_all add: proxy_for_def)
  with Some assms(2,3) show ?thesis by (simp add: cache_fresh_def)
next
  case None
  then have rp: "rp = build_proxy ph h r" "ph' = ph\<lparr>ph_proxies := (ph_proxies ph)(bk_name (h r) \<mapsto> rp)\<rparr>"
    using assms(4) by (auto simp: proxy_for_def Let_def)
  have "q = r" if "q \<in> set (pl_all p)" "bk_name (h q) = bk_name (h r)" for q
    using assms(1,2) that by (auto simp: pool_ok_def distinct_map inj_on_def)
  with rp assms(3) show ?thesis by (auto simp: cache_fresh_def build_proxy_def)
qed

text \<open>Names, clouds and health of all objects.\<close>

definition same_faces :: "heap \<Rightarrow> heap \<Rightarrow> bool" where
  "same_faces h h' \<longleftrightarrow> (\<forall>r. bk_name (h' r) = bk_name (h r) \<and> bk_cloud (h' r) = bk_cloud (h r)
     \<and> bk_healthy (h' r) = bk_healthy (h r))"

lemma same_faces_refl [simp]: "same_faces h h"
  by (simp add: same_faces_def)

lemma same_faces_trans: "same_faces h1 h2 \<Longrightarrow> same_faces h2 h3 \<Longrightarrow> same_faces h1 h3"
  by (simp add: same_faces_def)

lemma same_faces_fresh: "same_faces h h' \<Longrightarrow> cache_fresh h' p ph = cache_fresh h p ph"
  by (simp add: same_faces_def cache_fresh_def)

definition live :: "string \<Rightarrow> world \<Rightarrow> bool" where
  "live c w \<longleftrightarrow> sound w \<and> unfiltered (pl_strategy (wo_pool w)) \<and> cache_fresh (wo_heap w) (wo_pool w) (wo_handler w)
     \<and> (\<forall>r \<in> set (pl_all (wo_pool w)). bk_cloud (wo_heap w r) = c \<longrightarrow> \<not> bk_healthy (wo_heap w r))
     \<and> (\<exists>r \<in> set (pl_all (wo_pool w)). bk_healthy (wo_heap w r))"

lemma live_picks:
  assumes "live c w"
  obtains r w1 where "serve_choose now draw req w = (Chosen r, w1)" "r \<in> set (pl_all (wo_pool w))"
    "bk_healthy (wo_heap w r)" "bk_cloud (wo_heap w r) \<noteq> c" "live c w1"
proof -
  let ?v = "\<lparr>vw_heap = wo_heap w, vw_now = now, vw_draw = draw\<rparr>"
  obtain w1 ch where e: "serve_choose now draw req w = (ch, w1)" by fastforce
  have "healthy_of (wo_heap w) (pl_all (wo_pool w)) \<noteq> []"
    using assms by (auto simp: live_def healthy_of_def filter_empty_conv)
  moreover have "callable (pl_strategy (wo_pool w))" "unfiltered (pl_strategy (wo_pool w))"
    using assms by (simp_all add: live_def sound_def)
  ultimately obtain r where
    "fst (select ?v (Some req) (pl_strategy (wo_pool w)) (healthy_of (wo_heap w) (pl_all (wo_pool w))) (wo_accounts w)) = Pick r"
    using select_serves by blast
  then have p: "fst (pool_pick ?v (Some req) (wo_pool w) (wo_accounts w)) = Pick r"
    by (simp add: pool_pick_def split_beta)
  then have ch: "ch = Chosen r" using serve_choose_Chosen [of now draw req w r] e by simp
  have r: "r \<in> set (pl_all (wo_pool w))" "bk_healthy (wo_heap w r)" using pool_pick_member [OF p] by simp_all
  have "sound w1" using quiet_choose [of w now draw req] assms e by (simp add: quiet_def live_def)
  moreover have "wo_heap w1 = wo_heap w" "wo_handler w1 = wo_handler w" "pl_all (wo_pool w1) = pl_all (wo_pool w)"
    using serve_choose_frame [of now draw req w] e by simp_all
  moreover have "unfiltered (pl_strategy (wo_pool w1)) = unfiltered (pl_strategy (wo_pool w))"
    using e by (auto simp: serve_choose_def pool_pick_def split_beta select_frame)
  ultimately have "live c w1" using assms by (simp add: live_def cache_fresh_def)
  with e ch r assms show thesis by (intro that [of r w1]) (auto simp: live_def)
qed

lemma live_kept:
  assumes "live c w" and "sound w'" and "same_faces (wo_heap w) (wo_heap w')" and "wo_pool w' = wo_pool w"
    and "cache_fresh (wo_heap w') (wo_pool w') (wo_handler w')"
  shows "live c w'"
  using assms by (simp add: live_def same_faces_def)

text \<open>One request: it keeps \<open>live\<close>, and its client sees an answer below 500 from a cloud other
  than the failed one.\<close>

lemma serve_http_live:
  assumes "live c w" and "answers u"
    and "serve_http parent target now later draw dur u req w = (x, w')"
  shows "live c w' \<and> (\<exists>code cloud. \<forall>left. client_shot left x = ShotAnswered code cloud \<and> code < 500 \<and> cloud \<noteq> c)"
proof (rule live_picks [OF assms(1), of now draw req])
  fix r w1
  assume ch: "serve_choose now draw req w = (Chosen r, w1)" and r: "r \<in> set (pl_all (wo_pool w))"
    "bk_cloud (wo_heap w r) \<noteq> c" and l1: "live c w1"
  have same1: "wo_heap w1 = wo_heap w" "pl_all (wo_pool w1) = pl_all (wo_pool w)"
    using serve_choose_frame [of now draw req w] ch by simp_all
  show ?thesis
  proof (rule serve_http_Chosen [OF ch, of later dur u parent target])
    fix s calls1 w2 rp s' w4 calls2 w5 calls3 and w3 :: world
    assume a: "serve_admit r w1 = (s, calls1, w2)" and k: "serve_connect r w2 = (rp, w3)"
      and p: "serve_respond later dur u r rp s w3 = (s', w4, calls2)" and e: "serve_release r w4 = (w5, calls3)"
      and eq: "serve_http parent target now later draw dur u req w =
       (\<lparr>sv_writer = s', sv_done = (\<not> snd (reverse_proxy (wo_handler w3) (wo_heap w3) rp u s)),
         sv_span = end_span (if snd (reverse_proxy (wo_handler w3) (wo_heap w3) rp u s)
                             then span_picked (wo_heap w1 r) (start_span parent (rq_method req) target)
                             else span_answered (sw_code s') (span_picked (wo_heap w1 r) (start_span parent (rq_method req) target))),
         sv_sent_to = Some (rewrite (wo_heap w3) rp), sv_deadline = deadline (wo_handler w2) now,
         sv_calls = calls1 @ calls2 @ calls3\<rparr>, w5)"
    have w2: "w2 = w1\<lparr>wo_heap := modify inc_inflight r (wo_heap w1)\<rparr>" using serve_admit_world [of r w1] a by simp
    have l2: "live c w2"
    proof (rule live_kept [OF l1])
      show "sound w2" using steady_admit [of w1 r] l1 a by (simp add: steady_def live_def)
      show f: "same_faces (wo_heap w1) (wo_heap w2)" by (simp add: w2 same_faces_def modify_def inc_inflight_def)
      show "wo_pool w2 = wo_pool w1" by (simp add: w2)
      show "cache_fresh (wo_heap w2) (wo_pool w2) (wo_handler w2)"
        using l1 same_faces_fresh [OF f] by (simp add: w2 live_def)
    qed
    have ok2: "pool_ok (wo_heap w2) (wo_pool w2)" using l2 by (simp add: live_def sound_def world_ok_def)
    have r2: "r \<in> set (pl_all (wo_pool w2))" using r(1) same1 by (simp add: w2)
    obtain ph where ph: "proxy_for (wo_heap w2) r (wo_handler w2) = (rp, ph)" and w3: "w3 = w2\<lparr>wo_handler := ph\<rparr>"
      using k by (cases "proxy_for (wo_heap w2) r (wo_handler w2)") (auto simp: serve_connect_def)
    have fr: "cache_fresh (wo_heap w2) (wo_pool w2) (wo_handler w2)" using l2 by (simp add: live_def)
    have cloud: "bk_cloud (wo_heap w2 (rp_target rp)) = bk_cloud (wo_heap w2 r)"
      and fr3: "cache_fresh (wo_heap w2) (wo_pool w2) ph"
      using connect_fresh [OF ok2 r2 fr ph] by simp_all
    have l3: "live c w3"
      by (rule live_kept [OF l2])
        (use quiet_connect [of w2 r] l2 k fr3 in \<open>simp_all add: w3 quiet_def live_def\<close>)
    have b: "\<not> snd (reverse_proxy (wo_handler w3) (wo_heap w3) rp u s)"
      "client_status (sw_sent (fst (fst (reverse_proxy (wo_handler w3) (wo_heap w3) rp u s)))) < 500"
      "header_value ''X-Cloud'' (final_headers (sw_sent (fst (fst (reverse_proxy (wo_handler w3) (wo_heap w3) rp u s)))))
         = bk_cloud (wo_heap w3 (rp_target rp))"
      using reverse_proxy_reply [OF assms(2), of s "wo_handler w3" "wo_heap w3" rp] admitted_writer [of r w1] a by simp_all
    have s': "s' = fst (fst (reverse_proxy (wo_handler w3) (wo_heap w3) rp u s))"
      using p by (auto simp: serve_respond_def split_beta Let_def split: if_splits)
    have f3: "wo_heap w4 = modify (record_latency dur []) r (wo_heap w3)"
      "wo_pool w4 = wo_pool w3" "wo_handler w4 = wo_handler w3"
      using serve_respond_frame [of later dur u r rp s w3] p b(1) by simp_all
    have l4: "live c w4"
    proof (rule live_kept [OF l3])
      show "sound w4" using quiet_respond [of w3 later dur u r rp s] l3 p by (simp add: quiet_def live_def)
      show f: "same_faces (wo_heap w3) (wo_heap w4)" by (simp add: f3 same_faces_def modify_def)
      show "cache_fresh (wo_heap w4) (wo_pool w4) (wo_handler w4)"
        using l3 same_faces_fresh [OF f] by (simp add: f3 live_def)
    qed (simp add: f3)
    have w5: "w5 = w4\<lparr>wo_heap := modify dec_inflight r (wo_heap w4)\<rparr>" using serve_release_world [of r w4] e by simp
    have "live c w5"
    proof (rule live_kept [OF l4])
      show "sound w5" using steady_release [of w4 r] l4 e by (simp add: steady_def live_def)
      show f: "same_faces (wo_heap w4) (wo_heap w5)" by (simp add: w5 same_faces_def modify_def dec_inflight_def)
      show "wo_pool w5 = wo_pool w4" by (simp add: w5)
      show "cache_fresh (wo_heap w5) (wo_pool w5) (wo_handler w5)"
        using l4 same_faces_fresh [OF f] by (simp add: w5 live_def)
    qed
    moreover have "bk_cloud (wo_heap w3 (rp_target rp)) \<noteq> c"
    proof -
      have "bk_cloud (wo_heap w2 r) = bk_cloud (wo_heap w r)" by (simp add: w2 same1 modify_def inc_inflight_def)
      with cloud r(2) show ?thesis by (simp add: w3)
    qed
    moreover have "w' = w5" "client_shot left x = ShotAnswered (client_status (sw_sent s')) (header_value ''X-Cloud'' (final_headers (sw_sent s')))" for left
      using assms(3) eq b(1) by (auto simp: client_shot_def)
    ultimately show ?thesis using b(2,3) s' by simp
  qed
qed

lemma serve_all_live:
  assumes "live c w" and "\<forall>a \<in> set as. answers (ar_upstream a)"
  shows "live c (snd (serve_all as w)) \<and> length (fst (serve_all as w)) = length as
     \<and> (\<forall>x \<in> set (fst (serve_all as w)). \<exists>code cloud. \<forall>left. client_shot left x = ShotAnswered code cloud \<and> code < 500 \<and> cloud \<noteq> c)"
  using assms
proof (induction "as" arbitrary: w)
  case (Cons a "as")
  obtain x w1 where e: "serve_http None (ar_target a) (ar_now a) (ar_later a) (ar_draw a) (ar_dur a)
      (ar_upstream a) (ar_request a) w = (x, w1)" by fastforce
  have "live c w1 \<and> (\<exists>code cloud. \<forall>left. client_shot left x = ShotAnswered code cloud \<and> code < 500 \<and> cloud \<noteq> c)"
    using serve_http_live [OF Cons.prems(1) _ e] Cons.prems(2) by simp
  moreover from this have "live c (snd (serve_all as w1)) \<and> length (fst (serve_all as w1)) = length as
     \<and> (\<forall>x \<in> set (fst (serve_all as w1)). \<exists>code cloud. \<forall>left. client_shot left x = ShotAnswered code cloud \<and> code < 500 \<and> cloud \<noteq> c)"
    using Cons.IH [of w1] Cons.prems(2) by simp
  ultimately show ?case by (simp add: e split_beta)
qed simp

section \<open>The run\<close>

lemma quiet_marks: "quiet w (fold (mark sv body) ns w)"
proof (induction ns arbitrary: w)
  case (Cons n ns)
  have "quiet w (mark sv body n w)" unfolding mark_def by (rule quiet_set_health)
  with Cons [of "mark sv body n w"] show ?case using quiet_trans by auto
qed simp

lemma marks_handler: "wo_handler (fold (mark sv body) ns w) = wo_handler w"
  by (induction ns arbitrary: w)
    (simp_all add: mark_def set_backend_health_def Let_def split: option.splits)

lemma marks_faces:
  "bk_name (wo_heap (fold (mark sv body) ns w) r) = bk_name (wo_heap w r)
   \<and> bk_cloud (wo_heap (fold (mark sv body) ns w) r) = bk_cloud (wo_heap w r)"
proof (induction ns arbitrary: w)
  case (Cons n ns)
  have "bk_name (wo_heap (mark sv body n w) r) = bk_name (wo_heap w r)
      \<and> bk_cloud (wo_heap (mark sv body n w) r) = bk_cloud (wo_heap w r)"
    by (simp add: mark_def set_backend_health_def Let_def modify_def set_healthy_def split: option.splits)
  with Cons show ?case by simp
qed simp

lemma fail_cloud_none:
  "sv_token sv \<noteq> '''' \<Longrightarrow> trimmed (sv_token sv) \<Longrightarrow> cloud_names w c = [] \<Longrightarrow>
     fail_cloud sv (sv_token sv) c w = (Inl (NoBackendMatched c), w)"
  by (simp add: fail_cloud_def fetch_call filter_cloud_def cloud_names_def filter_map comp_def)

text \<open>Marking a cloud leaves a world in which requests succeed, as long as a healthy backend
  of another cloud is there.\<close>

lemma fail_cloud_live:
  assumes "sound w" and "unfiltered (pl_strategy (wo_pool w))"
    and "cache_fresh (wo_heap w) (wo_pool w) (wo_handler w)"
    and "\<exists>r \<in> set (pl_all (wo_pool w)). bk_healthy (wo_heap w r) \<and> bk_cloud (wo_heap w r) \<noteq> c"
    and "sv_token sv \<noteq> ''''" and "trimmed (sv_token sv)"
    and dec: "sv_decode_health sv (health_body False) = Some (Some False)"
    and "\<forall>n \<in> set (cloud_names w c). plain_name n"
    and "fail_cloud sv (sv_token sv) c w = (Inr failed, w1)"
  shows "live c w1"
proof -
  have ok: "pool_ok (wo_heap w) (wo_pool w)" using assms(1) by (simp add: sound_def world_ok_def)
  have ne: "cloud_names w c \<noteq> []" using assms(9) fail_cloud_none [OF assms(5,6)] by fastforce
  have w1: "w1 = fold (mark sv (health_body False)) (cloud_names w c) w"
    using assms(9) unfolding fail_cloud_marks [OF assms(5,6) dec assms(8) ne] prod.inject by blast
  have pool: "wo_pool w1 = wo_pool w" unfolding w1 by (rule marks_pool)
  have q: "quiet w w1" "wo_handler w1 = wo_handler w" unfolding w1 by (rule quiet_marks) (rule marks_handler)
  have heap: "wo_heap w1 r = (if bk_cloud (wo_heap w r) = c then set_healthy False (wo_heap w r) else wo_heap w r)"
    if "r \<in> set (pl_all (wo_pool w))" for r
    using marks_effect [OF ok dec that, of "cloud_names w c"] cloud_names_iff [OF ok that] by (simp add: w1)
  have "cache_fresh (wo_heap w1) (wo_pool w1) (wo_handler w1)"
    using assms(3) by (simp add: cache_fresh_def pool q(2)) (simp add: w1 marks_faces)
  moreover have "\<forall>r \<in> set (pl_all (wo_pool w1)). bk_cloud (wo_heap w1 r) = c \<longrightarrow> \<not> bk_healthy (wo_heap w1 r)"
    using heap by (simp add: pool set_healthy_def)
  moreover have "\<exists>r \<in> set (pl_all (wo_pool w1)). bk_healthy (wo_heap w1 r)"
    using assms(4) heap by (fastforce simp: pool)
  ultimately show ?thesis using assms(1,2) q(1) by (simp add: live_def pool quiet_def)
qed

definition seen_by_client :: "served list \<Rightarrow> (int \<times> shot) list \<Rightarrow> bool" where
  "seen_by_client xs shots \<longleftrightarrow> list_all2 (\<lambda>x s. \<exists>left. snd s = client_shot left x) xs shots"

lemma shots_good:
  assumes "seen_by_client xs shots" and "c \<noteq> ''''"
    and "\<forall>x \<in> set xs. \<exists>code cloud. \<forall>left. client_shot left x = ShotAnswered code cloud \<and> code < 500 \<and> cloud \<noteq> c"
  shows "failures shots = 0 \<and> hits c shots = 0 \<and> length shots = length xs"
proof -
  have "\<not> shot_failed (snd s) \<and> shot_cloud (snd s) \<noteq> c" if s: "s \<in> set shots" for s
  proof -
    obtain i where i: "i < length shots" "s = shots ! i" using s by (auto simp: in_set_conv_nth)
    then obtain left where "snd s = client_shot left (xs ! i)" "i < length xs"
      using assms(1) by (auto simp: seen_by_client_def list_all2_conv_all_nth)
    then obtain x where x: "x \<in> set xs" "snd s = client_shot left x" using nth_mem by blast
    from assms(3) x(1) obtain code cloud where "client_shot left x = ShotAnswered code cloud" "code < 500" "cloud \<noteq> c"
      by blast
    then show ?thesis using assms(2) x(2) by simp
  qed
  moreover have "length shots = length xs"
    using assms(1) unfolding seen_by_client_def by (rule list_all2_lengthD [symmetric])
  ultimately show ?thesis by (simp add: failures_def hits_def filter_empty_conv)
qed

lemma sat64_le: "x \<le> y \<Longrightarrow> 0 \<le> y \<Longrightarrow> sat64 x \<le> y"
  by (simp add: sat64_def)


end
