(* ===== verification/Workloads.thy ===== *)
theory Workloads
  imports Health
begin

text \<open>
  The example workloads under \<^verbatim>\<open>examples/\<close>: the notes server (\<^verbatim>\<open>notes/main.go\<close>, \<^verbatim>\<open>notes/db.go\<close>)
  and the echo server (\<^verbatim>\<open>echo/main.go\<close>).  The SQL database behind the notes is a parameter,
  \<open>database\<close>, and \<open>sql_table\<close> says what the code relies on of it; the JSON decoder is one,
  too.  The notes server's health endpoint is what the engine's checker probes.
\<close>

section \<open>The database\<close>

text \<open>Rows of the table; the column \<^verbatim>\<open>cloud\<close> may be null.\<close>

record row =
  rw_id :: string
  rw_text :: string
  rw_cloud :: "string option"
  rw_created :: int

type_synonym sql_error = string

text \<open>
  The statements the store sends.  \<open>db_connect\<close> is \<^verbatim>\<open>sql.Open\<close>, \<open>db_schema\<close> the creation of the
  table, \<open>db_insert\<close> the insertion that returns the new row, \<open>db_select\<close> the selection with a
  limit: the rows it yields and the error the iteration ended with, if any.
\<close>

record 'd database =
  db_connect :: "string \<Rightarrow> sql_error option"
  db_ping :: "'d \<Rightarrow> sql_error option"
  db_schema :: "'d \<Rightarrow> sql_error option \<times> 'd"
  db_insert :: "string \<Rightarrow> string \<Rightarrow> 'd \<Rightarrow> (sql_error + row) \<times> 'd"
  db_select :: "int \<Rightarrow> 'd \<Rightarrow> sql_error + (row list \<times> sql_error option)"

section \<open>The store\<close>

record note_item =
  nt_id :: string
  nt_text :: string
  nt_cloud :: string
  nt_created :: int

record store =
  so_max_open :: int
  so_max_idle :: int
  so_lifetime :: int

datatype store_error =
    OpenFailed sql_error
  | PingFailed sql_error
  | SchemaFailed sql_error
  | NotInitialized
  | QueryFailed sql_error
  | NullCloud

text \<open>The database handle after \<^verbatim>\<open>openStore\<close>.\<close>

datatype handle_fate = NoHandle | HandleClosed | HandleKept

definition open_store :: "'d database \<Rightarrow> string \<Rightarrow> 'd \<Rightarrow> (store_error + store) \<times> handle_fate \<times> 'd" where
  "open_store db dsn d =
     (case db_connect db dsn of
        Some e \<Rightarrow> (Inl (OpenFailed e), NoHandle, d)
      | None \<Rightarrow>
          (case db_ping db d of
             Some e \<Rightarrow> (Inl (PingFailed e), HandleClosed, d)
           | None \<Rightarrow>
               (case db_schema db d of
                  (Some e, d) \<Rightarrow> (Inl (SchemaFailed e), HandleClosed, d)
                | (None, d) \<Rightarrow>
                    (Inr \<lparr>so_max_open = 8, so_max_idle = 4, so_lifetime = 30 * 60 * 1000000000\<rparr>, HandleKept, d))))"

definition store_health :: "'d database \<Rightarrow> store option \<Rightarrow> 'd \<Rightarrow> store_error option" where
  "store_health db s d =
     (case s of None \<Rightarrow> Some NotInitialized | Some _ \<Rightarrow> map_option QueryFailed (db_ping db d))"

text \<open>The new row is scanned into a plain string, which a null cloud would not fit.\<close>

definition insert_note :: "'d database \<Rightarrow> string \<Rightarrow> string \<Rightarrow> 'd \<Rightarrow> (store_error + note_item) \<times> 'd" where
  "insert_note db text cloud d =
     (case db_insert db text cloud d of
        (Inl e, d) \<Rightarrow> (Inl (QueryFailed e), d)
      | (Inr r, d) \<Rightarrow>
          (case rw_cloud r of
             None \<Rightarrow> (Inl NullCloud, d)
           | Some c \<Rightarrow>
               (Inr \<lparr>nt_id = rw_id r, nt_text = rw_text r, nt_cloud = c, nt_created = rw_created r\<rparr>, d)))"

definition note_of_row :: "row \<Rightarrow> note_item" where
  "note_of_row r = \<lparr>nt_id = rw_id r, nt_text = rw_text r,
     nt_cloud = (case rw_cloud r of None \<Rightarrow> '''' | Some c \<Rightarrow> c), nt_created = rw_created r\<rparr>"

definition list_notes :: "'d database \<Rightarrow> int \<Rightarrow> 'd \<Rightarrow> store_error + note_item list" where
  "list_notes db limit d =
     (case db_select db (if limit \<le> 0 then 100 else limit) d of
        Inl e \<Rightarrow> Inl (QueryFailed e)
      | Inr (rows, Some e) \<Rightarrow> Inl (QueryFailed e)
      | Inr (rows, None) \<Rightarrow> Inr (List.map note_of_row rows))"

section \<open>Handlers\<close>

record whoami =
  wh_cloud :: string
  wh_region :: string
  wh_hostname :: string
  wh_version :: string
  wh_now :: int

datatype body =
    Plain string
  | JsonWhoami whoami
  | JsonNote note_item
  | JsonNotes "note_item list"

record http_reply =
  hr_status :: int
  hr_type :: string
  hr_body :: body

definition write_json :: "int \<Rightarrow> body \<Rightarrow> http_reply" where
  "write_json code v = \<lparr>hr_status = code, hr_type = ''application/json'', hr_body = v\<rparr>"

text \<open>\<^verbatim>\<open>http.Error\<close>, and a handler that only writes.\<close>

definition plain_error :: "int \<Rightarrow> string \<Rightarrow> http_reply" where
  "plain_error code msg = \<lparr>hr_status = code, hr_type = ''text/plain; charset=utf-8'', hr_body = Plain (msg @ [CHR 0x0A])\<rparr>"

definition write_ok :: "string \<Rightarrow> http_reply" where
  "write_ok s = \<lparr>hr_status = 200, hr_type = ''text/plain; charset=utf-8'', hr_body = Plain s\<rparr>"

fun store_error_text :: "store_error \<Rightarrow> string" where
  "store_error_text NotInitialized = ''store not initialized''"
| "store_error_text NullCloud =
     ''sql: Scan error on column index 2, name '' @ [CHR 0x22] @ ''cloud'' @ [CHR 0x22]
     @ '': converting NULL to string is unsupported''"
| "store_error_text (OpenFailed e) = ''open: '' @ e"
| "store_error_text (PingFailed e) = ''ping: '' @ e"
| "store_error_text (SchemaFailed e) = ''schema: '' @ e"
| "store_error_text (QueryFailed e) = e"

record settings =
  se_listen :: string
  se_cloud :: string
  se_region :: string
  se_dsn :: string
  se_hostname :: string

definition whoami_of :: "settings \<Rightarrow> int \<Rightarrow> whoami" where
  "whoami_of c now = \<lparr>wh_cloud = se_cloud c, wh_region = se_region c, wh_hostname = se_hostname c,
     wh_version = ''dev'', wh_now = now\<rparr>"

definition get_healthz :: "'d database \<Rightarrow> store option \<Rightarrow> 'd \<Rightarrow> http_reply" where
  "get_healthz db s d =
     (case store_health db s d of
        Some e \<Rightarrow> plain_error 503 (''db unhealthy: '' @ store_error_text e)
      | None \<Rightarrow> write_ok ''ok'')"

text \<open>\<open>decode\<close> yields the field \<^verbatim>\<open>text\<close>, empty when it is missing.\<close>

definition post_notes :: "'d database \<Rightarrow> (string \<Rightarrow> string option) \<Rightarrow> settings \<Rightarrow> string \<Rightarrow> 'd \<Rightarrow> http_reply \<times> 'd" where
  "post_notes db decode c req_body d =
     (case decode req_body of
        None \<Rightarrow> (plain_error 400 ''invalid json'', d)
      | Some text \<Rightarrow>
          if text = '''' then (plain_error 400 ''text is required'', d)
          else (case insert_note db text (se_cloud c) d of
                  (Inl e, d) \<Rightarrow> (plain_error 500 (''insert: '' @ store_error_text e), d)
                | (Inr n, d) \<Rightarrow> (write_json 201 (JsonNote n), d)))"

definition get_notes :: "'d database \<Rightarrow> 'd \<Rightarrow> http_reply" where
  "get_notes db d =
     (case list_notes db 100 d of
        Inl e \<Rightarrow> plain_error 500 (''list: '' @ store_error_text e)
      | Inr notes \<Rightarrow> write_json 200 (JsonNotes notes))"

text \<open>\<^verbatim>\<open>ServeMux\<close>: a pattern for \<^verbatim>\<open>GET\<close> serves \<^verbatim>\<open>HEAD\<close> as well; another method of a known path is
  refused with 405, an unknown path with 404.\<close>

definition is_get :: "string \<Rightarrow> bool" where
  "is_get m \<longleftrightarrow> m = ''GET'' \<or> m = ''HEAD''"

definition notes_mux :: "'d database \<Rightarrow> (string \<Rightarrow> string option) \<Rightarrow> settings \<Rightarrow> int \<Rightarrow> store option \<Rightarrow>
    string \<Rightarrow> string \<Rightarrow> string \<Rightarrow> 'd \<Rightarrow> http_reply \<times> 'd" where
  "notes_mux db decode c now s meth path req_body d =
     (if path = ''/healthz'' \<and> is_get meth then (get_healthz db s d, d)
      else if path = ''/whoami'' \<and> is_get meth then (write_json 200 (JsonWhoami (whoami_of c now)), d)
      else if path = ''/notes'' \<and> meth = ''POST'' then post_notes db decode c req_body d
      else if path = ''/notes'' \<and> is_get meth then (get_notes db d, d)
      else if path \<in> {''/healthz'', ''/whoami'', ''/notes''} then (plain_error 405 ''Method Not Allowed'', d)
      else (plain_error 404 ''404 page not found'', d))"

text \<open>The echo server: its pattern \<^verbatim>\<open>GET /\<close> matches every path.\<close>

definition echo_mux :: "settings \<Rightarrow> int \<Rightarrow> string \<Rightarrow> string \<Rightarrow> http_reply" where
  "echo_mux c now meth path =
     (if \<not> is_get meth then plain_error 405 ''Method Not Allowed''
      else if path = ''/healthz'' then write_ok ''ok''
      else write_json 200 (JsonWhoami (whoami_of c now)))"

section \<open>The programs\<close>

definition env_or :: "(string \<Rightarrow> string) \<Rightarrow> string \<Rightarrow> string \<Rightarrow> string" where
  "env_or getenv key fallback = (if getenv key \<noteq> '''' then getenv key else fallback)"

text \<open>The flags, with their defaults from the environment; \<open>given\<close> are those on the command
  line.\<close>

definition flag_or :: "(string \<rightharpoonup> string) \<Rightarrow> string \<Rightarrow> string \<Rightarrow> string" where
  "flag_or given name dflt = (case given name of None \<Rightarrow> dflt | Some v \<Rightarrow> v)"

definition read_settings :: "(string \<Rightarrow> string) \<Rightarrow> (string \<rightharpoonup> string) \<Rightarrow> string \<Rightarrow> settings" where
  "read_settings getenv given hostname =
     \<lparr>se_listen = flag_or given ''listen'' (env_or getenv ''LISTEN'' '':8000''),
      se_cloud = flag_or given ''cloud'' (getenv ''CLOUD''), se_region = flag_or given ''region'' (getenv ''REGION''),
      se_dsn = flag_or given ''dsn'' (getenv ''DSN''), se_hostname = hostname\<rparr>"

datatype server_end = ContextEnded | ListenError

datatype workload_exit =
    DsnRequired
  | OpenStoreFailed store_error
  | ListenFatal
  | ShutDown

text \<open>The notes server's \<^verbatim>\<open>main\<close>.  \<^verbatim>\<open>log.Fatalf\<close> exits without the deferred close.\<close>

definition notes_main :: "'d database \<Rightarrow> settings \<Rightarrow> server_end \<Rightarrow> 'd \<Rightarrow> workload_exit \<times> handle_fate \<times> 'd" where
  "notes_main db c fin d =
     (if se_dsn c = '''' then (DsnRequired, NoHandle, d)
      else (case open_store db (se_dsn c) d of
              (Inl e, fate, d) \<Rightarrow> (OpenStoreFailed e, fate, d)
            | (Inr s, fate, d) \<Rightarrow>
                (case fin of
                   ListenError \<Rightarrow> (ListenFatal, fate, d)
                 | ContextEnded \<Rightarrow> (ShutDown, HandleClosed, d))))"

definition echo_main :: "server_end \<Rightarrow> workload_exit" where
  "echo_main fin = (case fin of ListenError \<Rightarrow> ListenFatal | ContextEnded \<Rightarrow> ShutDown)"

section \<open>What the server relies on\<close>

text \<open>
  The documented behaviour of the table, seen as the multiset of its rows: an insertion that
  succeeds adds the returned row with the given values, one that fails adds nothing, and a
  selection \<^verbatim>\<open>ORDER BY created DESC LIMIT n\<close> yields the newest rows, all of them when they are
  no more than \<open>n\<close>.
\<close>

definition newest :: "nat \<Rightarrow> row multiset \<Rightarrow> row list \<Rightarrow> bool" where
  "newest n m rs \<longleftrightarrow> mset rs \<subseteq># m \<and> length rs = min n (size m)
     \<and> sorted_wrt (\<lambda>a b. rw_created b \<le> rw_created a) rs
     \<and> (\<forall>q \<in># m - mset rs. \<forall>r \<in> set rs. rw_created q \<le> rw_created r)"

definition sql_table :: "'d database \<Rightarrow> ('d \<Rightarrow> row multiset) \<Rightarrow> bool" where
  "sql_table db rows \<longleftrightarrow>
     (\<forall>t c d r d'. db_insert db t c d = (Inr r, d') \<longrightarrow>
        rows d' = add_mset r (rows d) \<and> rw_text r = t \<and> rw_cloud r = Some c)
   \<and> (\<forall>t c d e d'. db_insert db t c d = (Inl e, d') \<longrightarrow> rows d' = rows d)
   \<and> (\<forall>n d rs. 0 < n \<and> db_select db n d = Inr (rs, None) \<longrightarrow> newest (nat n) (rows d) rs)"

lemma newest_member:
  assumes "newest n m rs" and "r \<in># m" and "size (filter_mset (\<lambda>q. rw_created r \<le> rw_created q) m) \<le> n"
  shows "r \<in> set rs"
proof (rule ccontr)
  assume out: "r \<notin> set rs"
  have sub: "mset rs \<subseteq># m" and len: "length rs = min n (size m)" using assms(1) by (simp_all add: newest_def)
  have "count (mset rs) r = 0" using out by (simp add: count_mset_0_iff)
  moreover have "0 < count m r" using assms(2) by (simp add: count_greater_zero_iff)
  ultimately have "count (mset rs) r < count m r" by linarith
  then have left: "r \<in># m - mset rs" by (simp only: in_diff_count)
  then have le: "\<forall>q \<in> set rs. rw_created r \<le> rw_created q" using assms(1) unfolding newest_def by blast
  have "{#r#} \<subseteq># m - mset rs" using left by simp
  then have "mset rs + {#r#} \<subseteq># mset rs + (m - mset rs)" by (rule subset_mset.add_left_mono)
  then have "add_mset r (mset rs) \<subseteq># m" using sub by simp
  then have "filter_mset (\<lambda>q. rw_created r \<le> rw_created q) (add_mset r (mset rs))
      \<subseteq># filter_mset (\<lambda>q. rw_created r \<le> rw_created q) m" by (rule multiset_filter_mono)
  moreover have "filter_mset (\<lambda>q. rw_created r \<le> rw_created q) (add_mset r (mset rs)) = add_mset r (mset rs)"
    using le by (simp add: filter_mset_eq_conv)
  ultimately have "Suc (length rs) \<le> n" using assms(3) size_mset_mono by fastforce
  moreover have "Suc (length rs) \<le> size m"
    using size_mset_mono [OF \<open>add_mset r (mset rs) \<subseteq># m\<close>] by simp
  ultimately show False using len by simp
qed

text \<open>
  C17: What is posted is listed: on a table that behaves as documented, a \<^verbatim>\<open>POST\<close> of a non-empty
  text that is answered 201 adds exactly one row, with that text and the server's cloud;
  and a following \<^verbatim>\<open>GET /notes\<close> that is answered 200 contains the note as it was returned, as
  long as at most 100 notes are at least as new.
\<close>

theorem post_then_list:
  assumes "sql_table db rows" and "post_notes db decode c b d = (reply, d')" and "hr_status reply = 201"
    and "get_notes db d' = reply'" and "hr_status reply' = 200"
    and "\<And>r. rows d' = add_mset r (rows d) \<Longrightarrow>
           size (filter_mset (\<lambda>q. rw_created r \<le> rw_created q) (rows d')) \<le> 100"
  shows "\<exists>t n ns. decode b = Some t \<and> t \<noteq> '''' \<and> hr_body reply = JsonNote n
       \<and> nt_text n = t \<and> nt_cloud n = se_cloud c \<and> hr_body reply' = JsonNotes ns \<and> n \<in> set ns
       \<and> length ns \<le> 100"
proof -
  obtain t where t: "decode b = Some t" "t \<noteq> ''''"
    using assms(2,3) by (auto simp: post_notes_def plain_error_def split: option.splits if_splits)
  obtain r where ins: "db_insert db t (se_cloud c) d = (Inr r, d')" "rw_text r = t" "rw_cloud r = Some (se_cloud c)"
    and row: "rows d' = add_mset r (rows d)"
    and n: "hr_body reply = JsonNote (note_of_row r)"
  proof (cases "db_insert db t (se_cloud c) d")
    case (Pair res d1)
    obtain r where res: "res = Inr r"
      using assms(2,3) t Pair by (cases res) (auto simp: post_notes_def insert_note_def plain_error_def)
    with assms(1) Pair have "rows d1 = add_mset r (rows d)" "rw_text r = t" "rw_cloud r = Some (se_cloud c)"
      unfolding sql_table_def by blast+
    with assms(2) t Pair res show thesis
      by (intro that [of r]) (auto simp: post_notes_def insert_note_def write_json_def note_of_row_def)
  qed
  obtain rs where sel: "db_select db 100 d' = Inr (rs, None)" "hr_body reply' = JsonNotes (List.map note_of_row rs)"
    using assms(4,5)
    by (auto simp: get_notes_def list_notes_def plain_error_def write_json_def split: sum.splits option.splits)
  have "newest (nat 100) (rows d') rs" using assms(1) sel(1) unfolding sql_table_def by (metis zero_less_numeral)
  then have new: "newest 100 (rows d') rs" by simp
  have "r \<in> set rs" by (rule newest_member [OF new]) (use assms(6) [of r] row in simp_all)
  moreover have "length rs \<le> 100" using new by (simp add: newest_def)
  ultimately have "note_of_row r \<in> set (List.map note_of_row rs) \<and> length (List.map note_of_row rs) \<le> 100" by simp
  moreover have "nt_text (note_of_row r) = t" "nt_cloud (note_of_row r) = se_cloud c"
    by (simp_all add: note_of_row_def ins)
  ultimately show ?thesis using t n sel(2) by blast
qed

text \<open>
  C9: The health chain from the database to the rotation: a backend that is a notes server is
  out of rotation once the database has failed its ping in the last unhealthy-threshold
  rounds of probes, and in rotation once it has answered in the last healthy-threshold
  rounds, whatever happened before or to other backends, when the accepted statuses
  include 200 and not 503.
\<close>

theorem database_decides_rotation:
  assumes "health_valid cfg" and "he_status_floor cfg \<le> 200" and "200 \<le> he_status_ceil cfg" and "he_status_ceil cfg < 503"
    and "named_apart h rs" and "r \<in> rs"
    and "\<forall>rd \<in> set (before @ after). rd_env rd = id \<and> distinct (rd_order rd) \<and> r \<in> set (rd_order rd)
           \<and> set (rd_order rd) \<subseteq> rs"
    and "int (sum_list (List.map (\<lambda>rd. length (rd_order rd)) (before @ after))) < 2 ^ 63"
    and "\<forall>rd \<in> set after. rd_net rd (probe_url cfg (h r)) =
           Answered (hr_status (fst (notes_mux db decode c now (Some s) ''GET'' ''/healthz'' '''' (st rd)))) (took rd)"
    and "\<forall>rd \<in> set after. (db_ping db (st rd) = None) = v"
    and "(if v then he_healthy_threshold cfg else he_unhealthy_threshold cfg) \<le> int (length after)"
  shows "bk_healthy (fst (snd (run_rounds (before @ after) (new_checker cfg m) h)) r) = v"
proof (rule rounds_detect [OF assms(1,5-8) _ assms(11)])
  have "hr_status (fst (notes_mux db decode c now (Some s) ''GET'' ''/healthz'' '''' d)) =
      (if db_ping db d = None then 200 else 503)" for d
    by (auto simp: notes_mux_def is_get_def get_healthz_def store_health_def write_ok_def plain_error_def split: option.splits)
  then show "\<forall>rd \<in> set after. passes cfg (rd_net rd (probe_url cfg (h r))) = v"
    using assms(2-4,9,10) by (simp add: passes_def)
qed

text \<open>
  A request that is not answered 201 leaves the table as it was, and the notes server holds
  no database handle after it has failed to start.
\<close>

theorem only_created_writes:
  assumes "sql_table db rows" and "notes_mux db decode c now s meth path b d = (reply, d')"
  shows "hr_status reply \<noteq> 201 \<longrightarrow> rows d' = rows d"
proof -
  have "rows (snd (post_notes db decode c b d)) = rows d" if "hr_status (fst (post_notes db decode c b d)) \<noteq> 201"
    using that assms(1) unfolding sql_table_def
    by (auto simp: post_notes_def insert_note_def write_json_def split: option.splits sum.splits prod.splits if_splits)
  then show ?thesis using assms(2) by (auto simp: notes_mux_def split: if_splits)
qed

theorem failed_open_keeps_no_handle:
  "(\<exists>e. fst (open_store db dsn d) = Inl e) \<longleftrightarrow> fst (snd (open_store db dsn d)) \<noteq> HandleKept"
  by (auto simp: open_store_def split: option.splits prod.splits)

end
