(* ===== verification/Samples.thy ===== *)
theory Samples
  imports System Chaos Commands
begin

text \<open>
  Concrete data on which the witnesses of the properties evaluate the definitions: a
  configuration of three backends in two clouds, the environment that loads it, the engine
  it starts and a state with an open request.
\<close>

definition sample_url :: "string \<Rightarrow> url" where
  "sample_url s = \<lparr>url_string = s, url_scheme = ''http'', url_host = ''h''\<rparr>"

definition sample_backend :: "string \<Rightarrow> string \<Rightarrow> string \<Rightarrow> int \<Rightarrow> backend" where
  "sample_backend name cloud kind weight =
     with_kind kind (new_backend name (sample_url ''http://h'') cloud ''eu'' weight)"

definition sample_heap :: heap where
  "sample_heap = store_at 0 [sample_backend ''a'' ''aws'' ''writeable'' 2,
     sample_backend ''b'' ''azure'' ''read_only'' 1, sample_backend ''c'' ''aws'' ''read_only'' 1]
     (\<lambda>_. sample_backend '''' '''' '''' 0)"

definition sample_cfg_backend :: "string \<Rightarrow> string \<Rightarrow> cfg_backend" where
  "sample_cfg_backend name cloud =
     \<lparr>cb_name = name, cb_url = ''http://h'', cb_cloud = cloud, cb_region = ''eu'', cb_weight = 0,
      cb_kind = ''writeable'', cb_tls = None\<rparr>"

definition sample_config :: config where
  "sample_config =
     \<lparr>cf_listen = \<lparr>li_proxy = '''', li_proxy_tls = '''', li_metrics = '''', li_admin = '':8081''\<rparr>,
      cf_admin = \<lparr>ad_bearer_token_env = ''TOKEN''\<rparr>,
      cf_backends = [sample_cfg_backend ''a'' ''aws'', sample_cfg_backend ''b'' ''azure''],
      cf_health = \<lparr>he_interval = 0, he_timeout = 0, he_path = '''', he_unhealthy_threshold = 0,
        he_healthy_threshold = 0, he_status_floor = 0, he_status_ceil = 0\<rparr>,
      cf_strategy = ''least_connections'', cf_sticky = None, cf_kind_routing = None,
      cf_proxy = \<lparr>px_request_timeout = 0, px_max_idle_conns = 0, px_pass_headers = []\<rparr>,
      cf_proxy_tls = None, cf_cost = None, cf_tracing = None, cf_acme = None,
      cf_log = \<lparr>lg_level = '''', lg_format = ''''\<rparr>\<rparr>"

definition no_files :: files where
  "no_files = \<lparr>fs_read = (\<lambda>p. if p = ''openvcc.yaml'' then Some ''yaml'' else None),
     fs_keypair = (\<lambda>_ _. None), fs_certs = (\<lambda>_. [])\<rparr>"

definition env_of :: "config \<Rightarrow> env" where
  "env_of c = \<lparr>ev_files = no_files, ev_decode = (\<lambda>_. Some c), ev_parse_url = (\<lambda>s. Some (sample_url s)),
     ev_getenv = (\<lambda>_. ''secret''), ev_trace = (\<lambda>_. True)\<rparr>"

definition sample_engine :: engine where
  "sample_engine = projr (fst (new_engine (env_of sample_config) (apply_defaults sample_config) ''openvcc.yaml''))"

definition sample_request :: "string \<Rightarrow> request" where
  "sample_request m = \<lparr>rq_method = m, rq_remote_addr = ''10.0.0.1:99'', rq_header = [], rq_cookies = []\<rparr>"

definition no_health :: "string \<Rightarrow> bool option option" where
  "no_health body = (if body = ''up'' then Some (Some True) else if body = ''down'' then Some (Some False) else None)"

definition no_backend :: "string \<Rightarrow> backend_dto option" where
  "no_backend body = None"

lemma sample_loads: "engine_load (env_of sample_config) ''openvcc.yaml'' = Inr (apply_defaults sample_config)"
  by code_simp

lemma sample_starts:
  "fst (new_engine (env_of sample_config) (apply_defaults sample_config) ''openvcc.yaml'') = Inr sample_engine"
proof -
  have "\<not> isl (fst (new_engine (env_of sample_config) (apply_defaults sample_config) ''openvcc.yaml''))"
    by code_simp
  then show ?thesis by (simp add: sample_engine_def sum.collapse)
qed

definition sample_start :: system where
  "sample_start = \<lparr>sy_engine = sample_engine, sy_open = [], sy_jobs = [], sy_probe = None\<rparr>"

definition sample_busy :: system where
  "sample_busy =
     (case serve_choose 0 0 (sample_request ''GET'') (en_world sample_engine) of
        (Chosen r, w) \<Rightarrow>
          (let (sw, calls, w) = serve_admit r w
           in (put_world w sample_start)\<lparr>sy_open := [\<lparr>ex_backend = r, ex_stage = Waiting sw\<rparr>]\<rparr>)
      | _ \<Rightarrow> sample_start)"

lemma sample_reach: "reach (env_of sample_config) dh db sample_start"
  unfolding sample_start_def using sample_loads sample_starts by (rule reach.Start)

fun chosen :: "choice \<Rightarrow> bref option" where
  "chosen (Chosen r) = Some r"
| "chosen _ = None"

lemma chosen_Some: "chosen c = Some r \<longleftrightarrow> c = Chosen r"
  by (cases c) simp_all

lemma sample_busy_reach: "reach (env_of sample_config) dh db sample_busy"
proof -
  have a: "chosen (fst (serve_choose 0 0 (sample_request ''GET'') (en_world sample_engine))) \<noteq> None" by code_simp
  obtain c w where p: "serve_choose 0 0 (sample_request ''GET'') (en_world sample_engine) = (c, w)" by fastforce
  with a obtain r where c: "c = Chosen r" by (auto simp: chosen_Some)
  obtain sw calls w' where q: "serve_admit r w = (sw, calls, w')" using prod_cases3 by blast
  have "serve_choose 0 0 (sample_request ''GET'') (world_of sample_start) = (Chosen r, w)"
    using p by (simp add: c sample_start_def)
  from reach_arrive [OF sample_reach this q] show ?thesis
    by (simp add: sample_busy_def p c q sample_start_def)
qed

lemma sample_busy_open: "length (sy_open sample_busy) = 1" "open_on 0 (sy_open sample_busy) = 1"
  "open_on 1 (sy_open sample_busy) = 0" "wo_next (world_of sample_busy) = 2"
  by code_simp+

text \<open>Variants: an unknown strategy, a TLS block whose files are missing, a reload of the
  same file, and an admin server.\<close>

definition sample_tls_config :: config where
  "sample_tls_config = sample_config\<lparr>cf_backends := [(sample_cfg_backend ''a'' ''aws'')
     \<lparr>cb_tls := Some \<lparr>bt_cert_file = ''c.pem'', bt_key_file = ''k.pem'', bt_ca_file = '''',
        bt_server_name = '''', bt_insecure_skip_verify = False\<rparr>\<rparr>]\<rparr>"

definition sample_valid :: config where
  "sample_valid = apply_defaults sample_config"

definition sample_server :: "engine_error server" where
  "sample_server = engine_server (env_of sample_config) sample_engine no_health
     (\<lambda>body. if body = ''d'' then Some \<lparr>dto_name = ''d'', dto_url = ''http://d'', dto_cloud = ''gcp'', dto_region = '''',
        dto_weight = 0, dto_kind = '''', dto_healthy = False, dto_inflight = 9\<rparr> else None)"

lemma sample_valid: "config_valid (ev_parse_url (env_of sample_config)) sample_valid"
  using loaded_valid [OF sample_loads [unfolded engine_load_def]] unfolding sample_valid_def by (rule conjunct1)

lemma sample_world_ok: "world_ok (en_world sample_engine)"
  using reach_ok [OF sample_reach]
  by (simp add: sys_ok_def sound_def sample_start_def)

end
