(* ===== verification/Witnesses.thy ===== *)
theory Witnesses
  imports Samples KindSafety Driver ChaosClient Lifecycle BudgetSafety Draining
begin

text \<open>
  For every property with a hypothesis, a concrete input at which its hypotheses hold and
  the property applies.
\<close>

abbreviation sample_view :: view where
  "sample_view \<equiv> \<lparr>vw_heap = sample_heap, vw_now = 0, vw_draw = 0\<rparr>"

abbreviation no_accounts :: accounts where
  "no_accounts \<equiv> (\<lambda>_. new_accountant Map.empty Map.empty)"

section \<open>Strategies\<close>

theorem round_robin_fair_witness:
  "count_list (fst (pick_run (\<lambda>c. rr_pick c [0, 1, 2]) (2 * length [0, 1, 2 :: bref]) 1)) (Pick 1) = 2"
proof -
  have "count_list (fst (pick_run (\<lambda>c. rr_pick c [0, 1, 2]) (2 * length [0, 1, 2 :: bref]) 1)) (Pick 1)
      = 2 * count_list [0, 1, 2] (1 :: bref)"
    by (rule round_robin_fair) simp_all
  then show ?thesis by simp
qed

lemma sample_expand: "expand sample_heap [0, 1, 2] = [0, 0, 1, 2]"
  by code_simp

theorem weighted_round_robin_fair_witness:
  "count_list (fst (pick_run (\<lambda>c. wrr_pick sample_heap c [0, 1, 2])
     (3 * length (expand sample_heap [0, 1, 2])) 5)) (Pick 0) = 6"
proof -
  have w: "nat (bk_weight (sample_heap 0)) = 2" by code_simp
  have "count_list (fst (pick_run (\<lambda>c. wrr_pick sample_heap c [0, 1, 2])
      (3 * length (expand sample_heap [0, 1, 2])) 5)) (Pick 0)
    = 3 * (nat (bk_weight (sample_heap 0)) * count_list [0, 1, 2] (0 :: bref))"
    by (rule weighted_round_robin_fair) (simp_all only: sample_expand, simp_all)
  then show ?thesis by (simp add: w)
qed

theorem unit_weights_round_robin_witness:
  "wrr_pick sample_heap 7 [1, 2] = rr_pick 7 [1, 2]"
  by (rule unit_weights_round_robin) (code_simp, simp_all)

theorem weighted_round_robin_overflow_witness:
  "\<exists>r. find_first (\<lambda>r. 0 < bk_weight (sample_heap r)) [1, 0] = Some r
     \<and> wrr_pick sample_heap 9223372036854775810 [1, 0] = (Pick r, 9223372036854775810 + 1)"
proof (rule weighted_round_robin_overflow)
  show "2 ^ 63 \<le> unat (9223372036854775810 :: u64)" by simp
  show "0 < wrr_total sample_heap [1, 0]" by code_simp
  show "\<forall>r \<in> set [1, 0]. in_int64 (bk_weight (sample_heap r))" by code_simp
qed

theorem least_connections_minimum_witness: "\<exists>r. lc_pick sample_heap [0, 1] = Pick r"
  using least_connections_minimum [of "[0, 1]" sample_heap] by auto

theorem cost_bounded_choice_witness:
  "\<exists>r. fst (cost_pick sample_heap 0 None 0 [0, 1] no_accounts) = Pick r
     \<and> candidate sample_heap 0 None no_accounts [0, 1] r"
  using cost_bounded_choice [of "[0, 1]" sample_heap 0 None 0 no_accounts] by auto

section \<open>Latency and budgets\<close>

theorem latency_stays_sampled_witness:
  "latency (record_all ((5, [3]) # [(-1, []), (1000, [])]) (sample_heap 0)) \<noteq> 0"
  by (rule latency_stays_sampled) (simp_all add: in_int64_def)

theorem latency_between_witness:
  "let b = (sample_heap 0)\<lparr>bk_latency_ns := 400\<rparr> in
   199 \<le> latency (record_latency 200 [] b) \<and> latency (record_latency 200 [] b) \<le> 400"
proof -
  let ?b = "(sample_heap 0)\<lparr>bk_latency_ns := 400\<rparr>"
  have l: "latency ?b = 400" by code_simp
  have "min 200 (latency ?b) - 1 \<le> latency (record_latency 200 [] ?b)
      \<and> latency (record_latency 200 [] ?b) \<le> max 200 (latency ?b)"
    by (rule latency_between) (simp_all only: l, simp_all)
  then show ?thesis by (simp add: l)
qed

definition sample_budget :: budget where
  "sample_budget = \<lparr>bg_window = 60000000000, bg_max_gb = Fin 1\<rparr>"

theorem accountant_budget_decision_witness:
  "fst (allowed 20000000000 ''aws'' (acc_run [(10000000000, AddEgress ''aws'' 1000)]
      (Some (new_accountant [''aws'' \<mapsto> sample_budget] Map.empty))))
   \<and> \<not> fst (allowed 20000000000 ''aws'' (acc_run [(10000000000, AddEgress ''aws'' 2000000000)]
      (Some (new_accountant [''aws'' \<mapsto> sample_budget] Map.empty))))"
proof -
  have ok: "fst (allowed 20000000000 ''aws'' (acc_run [(10000000000, AddEgress ''aws'' n)]
      (Some (new_accountant [''aws'' \<mapsto> sample_budget] Map.empty)))) \<longleftrightarrow> n < max_bytes sample_budget"
    if "0 < n" "n < 2 ^ 40" for n
    using accountant_budget_decision [of "[(10000000000, AddEgress ''aws'' n)]" 20000000000 "''aws''"
        "[''aws'' \<mapsto> sample_budget]" sample_budget Map.empty] that
    by (auto simp: sample_budget_def in_int64_def log_total_def bytes_since_def maxAge_def bucketRes_def)
  have "max_bytes sample_budget = 1073741824" by code_simp
  with ok [of 1000] ok [of 2000000000] show ?thesis by simp
qed

section \<open>Routing\<close>

theorem writes_only_to_write_kinds_witness:
  "\<exists>r. fst (select sample_view (Some (sample_request ''post''))
       (KindAware {''POST''} {''writeable''} {} LeastConnections) [0, 1, 2] no_accounts) = Pick r
     \<and> bk_kind (sample_heap r) = ''writeable''"
proof -
  have w: "to_upper (rq_method (sample_request ''post'')) \<in> {''POST''}" by code_simp
  have p: "fst (select sample_view (Some (sample_request ''post''))
       (KindAware {''POST''} {''writeable''} {} LeastConnections) [0, 1, 2] no_accounts) = Pick 0" by code_simp
  from writes_only_to_write_kinds [OF w, THEN conjunct1, rule_format, OF p]
  have "bk_kind (vw_heap sample_view 0) \<in> {''writeable''}" by (rule conjunct2)
  then have "bk_kind (sample_heap 0) = ''writeable''" by (simp only: singleton_iff view.select_convs)
  with p show ?thesis by (intro exI conjI)
qed

theorem reads_always_served_witness:
  "\<exists>r. fst (select sample_view (Some (sample_request ''GET''))
       (KindAware {''POST''} {''writeable''} {''read_only''} LeastConnections) [0, 1, 2] no_accounts) = Pick r
     \<and> bk_kind (sample_heap r) = ''read_only''"
proof -
  have g: "to_upper (rq_method (sample_request ''GET'')) \<notin> {''POST''}" by code_simp
  have k: "\<exists>b \<in> set [0, 1, 2]. bk_kind (vw_heap sample_view b) \<in> {''read_only''}" by code_simp
  have "\<exists>r. fst (select sample_view (Some (sample_request ''GET''))
       (KindAware {''POST''} {''writeable''} {''read_only''} LeastConnections) [0, 1, 2] no_accounts) = Pick r
     \<and> r \<in> set [0, 1, 2]
     \<and> ({''read_only''} \<noteq> {} \<and> (\<exists>b \<in> set [0, 1, 2]. bk_kind (vw_heap sample_view b) \<in> {''read_only''})
          \<longrightarrow> bk_kind (vw_heap sample_view r) \<in> {''read_only''})"
    by (rule reads_always_served [OF g]) simp_all
  with k show ?thesis by (elim exE conjE) (intro exI conjI, assumption, simp only: view.select_convs singleton_iff insert_not_empty not_False_eq_True simp_thms)
qed

theorem hash_affinity_same_cloud_witness:
  "\<exists>r1 r2. fst (select sample_view (Some (sample_request ''GET''))
        (StickyByCloud (Some HashRemoteAddr) '''' None) [0, 1, 2] no_accounts) = Pick r1
      \<and> fst (select sample_view (Some (sample_request ''POST''))
        (StickyByCloud (Some HashRemoteAddr) '''' None) [2, 1] no_accounts) = Pick r2
      \<and> bk_cloud (vw_heap sample_view r1) = bk_cloud (vw_heap sample_view r2)"
proof (rule hash_affinity_same_cloud)
  show "apply_hash HashRemoteAddr (Some (sample_request ''GET'')) = apply_hash HashRemoteAddr (Some (sample_request ''POST''))"
    by code_simp
  show "apply_hash HashRemoteAddr (Some (sample_request ''GET'')) \<noteq> ''''" by code_simp
  show "distinct_clouds (vw_heap sample_view) [0, 1, 2] = distinct_clouds (vw_heap sample_view) [2, 1]" by code_simp
  show "distinct_clouds (vw_heap sample_view) [0, 1, 2] \<noteq> []" by code_simp
  show "\<forall>r \<in> set [0, 1, 2]. trimmed (bk_cloud (vw_heap sample_view r))" by code_simp
  show "\<forall>r \<in> set [2, 1]. trimmed (bk_cloud (vw_heap sample_view r))" by code_simp
qed

section \<open>Configuration and health\<close>

definition sample_health :: cfg_health where
  "sample_health = default_health (cf_health sample_config)"

definition round_of :: "bool \<Rightarrow> round" where
  "round_of up = \<lparr>rd_env = id, rd_net = (\<lambda>_. if up then Answered 204 1000 else TransportFailed 1000),
     rd_order = [1, 0], rd_pool = new_pool [0, 1] LeastConnections\<rparr>"

lemma sample_health_valid: "health_valid sample_health"
  by code_simp

theorem rounds_follow_verdict_witness:
  "\<not> bk_healthy (fst (snd (run_rounds [round_of True, round_of False, round_of False]
        (new_checker sample_health True) sample_heap)) 0)
   \<and> bk_healthy (fst (snd (run_rounds [round_of True, round_of False, round_of True]
        (new_checker sample_health True) sample_heap)) 0)"
proof -
  have v: "bk_healthy (fst (snd (run_rounds rds (new_checker sample_health True) sample_heap)) 0) =
      verdict (he_unhealthy_threshold sample_health) (he_healthy_threshold sample_health) (bk_healthy (sample_heap 0))
        (rev (List.map (\<lambda>rd. passes sample_health (rd_net rd (probe_url sample_health (sample_heap 0)))) rds))"
    if "set rds \<subseteq> {round_of True, round_of False}" "length rds = 3" for rds
  proof (rule rounds_follow_verdict [where rs = "{0, 1}"])
    show "health_valid sample_health" by (rule sample_health_valid)
    have "bk_name (sample_heap 0) \<noteq> bk_name (sample_heap 1)" by code_simp
    then show "named_apart sample_heap {0, 1}" by (auto simp: named_apart_def)
    show "\<forall>rd \<in> set rds. rd_env rd = id \<and> distinct (rd_order rd) \<and> 0 \<in> set (rd_order rd) \<and> set (rd_order rd) \<subseteq> {0, 1}"
      using that(1) by (auto simp: round_of_def)
    have "List.map (\<lambda>rd. length (rd_order rd)) rds = List.map (\<lambda>_. 2) rds"
      using that(1) by (intro map_cong) (auto simp: round_of_def)
    then show "int (sum_list (List.map (\<lambda>rd. length (rd_order rd)) rds)) < 2 ^ 63"
      using that(2) by (simp add: map_replicate_const sum_list_replicate)
  qed simp
  have down: "\<not> verdict (he_unhealthy_threshold sample_health) (he_healthy_threshold sample_health) (bk_healthy (sample_heap 0))
        (rev (List.map (\<lambda>rd. passes sample_health (rd_net rd (probe_url sample_health (sample_heap 0))))
          [round_of True, round_of False, round_of False]))" by code_simp
  have up: "verdict (he_unhealthy_threshold sample_health) (he_healthy_threshold sample_health) (bk_healthy (sample_heap 0))
        (rev (List.map (\<lambda>rd. passes sample_health (rd_net rd (probe_url sample_health (sample_heap 0))))
          [round_of True, round_of False, round_of True]))" by code_simp
  show ?thesis
    using v [of "[round_of True, round_of False, round_of False]"] down
      v [of "[round_of True, round_of False, round_of True]"] up
    by (simp del: verdict.simps run_rounds.simps)
qed


theorem override_lasts_one_probe_witness:
  "let (c, h') = fold hear (replicate 3 (0, True)) (new_checker sample_health True, sample_heap)
   in bk_healthy (snd (hear (0, True) (c, modify (set_healthy False) 0 h')) 0)"
proof (rule override_lasts_one_probe)
  show "health_valid sample_health" by (rule sample_health_valid)
  show "he_healthy_threshold sample_health \<le> int 3 + 1" by code_simp
qed simp

section \<open>The proxy\<close>

definition sample_handler :: handler where
  "sample_handler = set_sticky_cookie ''vcc'' 60000000000 (new_handler True (cf_proxy sample_config))"

lemma sample_token: "is_token (ph_cookie_name sample_handler)" "bk_cloud (sample_heap 0) \<noteq> ''''"
  "list_all cookie_byte (bk_cloud (sample_heap 0))" "trimmed (bk_cloud (sample_heap 0))"
  by code_simp+


theorem cookie_delivery_witness:
  "the_cookie sample_handler (sample_heap 0) \<in> set (final_headers (sw_sent (fst (fst
       (reverse_proxy sample_handler sample_heap \<lparr>rp_target = 0, rp_tls = None\<rparr>
         (Responded [] 200 [(''Server'', ''x'')] [5] False)
         (affinity_cookie sample_handler (sample_heap 0) new_status_writer))))))
   \<and> the_cookie sample_handler (sample_heap 0) \<notin> set (final_headers (sw_sent (fst (fst
       (reverse_proxy sample_handler sample_heap \<lparr>rp_target = 0, rp_tls = None\<rparr>
         (Responded [(103, [])] 200 [(''Server'', ''x'')] [5] False)
         (affinity_cookie sample_handler (sample_heap 0) new_status_writer))))))"
proof -
  have i: "interim_codes []" "interim_codes [(103, [])]" by (simp_all add: interim_codes_def)
  have h: "\<forall>(k, v) \<in> set [(''Server'', ''x'')]. k \<noteq> ''Set-Cookie''" by simp
  show ?thesis
    unfolding cookie_delivery [OF sample_token(1,2) i(1) order_refl h]
      cookie_delivery [OF sample_token(1,2) i(2) order_refl h]
    by simp
qed

lemma fresh_new: "fresh new_status_writer"
  by (simp add: fresh_def new_status_writer_def)

theorem recorded_status_witness:
  "let s' = fst (fst (reverse_proxy sample_handler sample_heap \<lparr>rp_target = 0, rp_tls = None\<rparr>
              (Responded [] 404 [] [5, 7] False) new_status_writer))
   in sw_code s' = client_status (sw_sent s') \<and> sw_bytes s' = wrap64 (data_sent (sw_sent s'))"
  using recorded_status [OF fresh_new, of "Responded [] 404 [] [5, 7] False" sample_handler sample_heap
      "\<lparr>rp_target = 0, rp_tls = None\<rparr>"]
  by (simp only: final_ok.simps interim_of.simps list.case) simp

theorem proxy_tls_current_witness:
  "tp_tls (transport_of
      (fold (handler_step sample_heap) [Connect 0, SetTls (Some [''a'' \<mapsto> empty_tls_config])]
         (new_handler True (cf_proxy sample_config)))
      (fst (proxy_for sample_heap 0 (fold (handler_step sample_heap)
         [Connect 0, SetTls (Some [''a'' \<mapsto> empty_tls_config])] (new_handler True (cf_proxy sample_config))))))
   = Some empty_tls_config"
proof -
  have n: "bk_name (sample_heap 0) = ''a''" by code_simp
  show ?thesis
    using proxy_tls_current [OF refl, of sample_heap 0 "[Connect 0, SetTls (Some [''a'' \<mapsto> empty_tls_config])]"
        True "cf_proxy sample_config"]
    by (simp add: n set_tls_by_backend_def)
qed

definition sample_world :: world where
  "sample_world = \<lparr>wo_heap = sample_heap, wo_next = 3, wo_pool = new_pool [0, 1, 2] (WeightedRoundRobin 0),
     wo_handler = sample_handler\<lparr>ph_accountant := Some 0\<rparr>, wo_accounts = no_accounts, wo_next_acc = 1\<rparr>"

theorem egress_charged_witness:
  "wo_accounts (fst (snd (serve_finish 9 5 (Failed [] DeadlineExceeded) 0 \<lparr>rp_target = 0, rp_tls = None\<rparr>
       new_status_writer sample_world)))
   = account_egress 9 (bk_cloud (wo_heap sample_world 0)) 15 (Some 0) (wo_accounts sample_world)"
proof -
  have n: "wrap64 (data_sent (sw_sent (fst (serve_finish 9 5 (Failed [] DeadlineExceeded) 0
      \<lparr>rp_target = 0, rp_tls = None\<rparr> new_status_writer sample_world)))) = 15"
    by (simp add: serve_finish_writer reverse_proxy_def error_handler_def http_error_def writer_defs new_status_writer_def in_int64_def)
  show ?thesis
    using egress_charged [OF fresh_new, of 9 5 "Failed [] DeadlineExceeded" 0 "\<lparr>rp_target = 0, rp_tls = None\<rparr>" sample_world]
    unfolding n by (simp add: reverse_proxy_def sample_world_def)
qed

theorem outage_answer_witness:
  "\<exists>s. fst (serve_pick 0 0 (sample_request ''GET'')
        (sample_world\<lparr>wo_heap := (\<lambda>r. set_healthy False (sample_heap r))\<rparr>)) =
      Refused s [MInc ProxyErrors [''none'', ''none'', ''no_backend'']] \<and> client_status (sw_sent s) = 502"
  using outage_answer [of "sample_world\<lparr>wo_heap := (\<lambda>r. set_healthy False (sample_heap r))\<rparr>" 0 0 "sample_request ''GET''"]
  by (auto simp: sample_world_def set_healthy_def sample_handler_def set_sticky_cookie_def new_handler_def)

theorem admission_witness:
  "fst (serve_pick 0 0 (sample_request ''GET'') sample_world) \<noteq> ServePanic"
  using admission [of sample_world 0 0 "sample_request ''GET''"]
  by (simp add: sample_world_def new_pool_def sample_handler_def set_sticky_cookie_def new_handler_def)

section \<open>The admin API\<close>

theorem admin_add_witness:
  "re_status (fst (add_backend sample_server ''d'' (en_world sample_engine))) = 201
   \<and> wo_heap (snd (add_backend sample_server ''d'' (en_world sample_engine))) 2 =
       \<lparr>bk_name = ''d'', bk_url = sample_url ''http://d'', bk_cloud = ''gcp'', bk_region = '''', bk_weight = 1,
        bk_kind = '''', bk_healthy = True, bk_inflight = 0, bk_latency_ns = 0\<rparr>"
proof -
  let ?d = "\<lparr>dto_name = ''d'', dto_url = ''http://d'', dto_cloud = ''gcp'', dto_region = '''',
        dto_weight = 0, dto_kind = '''', dto_healthy = False, dto_inflight = 9\<rparr>"
  have d: "sv_decode_backend sample_server ''d'' = Some ?d"
    by (simp add: sample_server_def engine_server_def)
  have u: "sv_parse_url sample_server (dto_url ?d) = Some (sample_url ''http://d'')"
    by (simp add: sample_server_def engine_server_def env_of_def)
  have o: "url_ok (sample_url ''http://d'')" by (simp add: url_ok_def sample_url_def)
  have f: "pool_find (wo_heap (en_world sample_engine)) (wo_pool (en_world sample_engine)) ''d'' = None" by code_simp
  have n: "wo_next (en_world sample_engine) = 2" by code_simp
  show ?thesis
    using admin_add [OF sample_world_ok d _ _ u o] f
    by (simp add: split_beta Let_def n)
qed

theorem admin_remove_witness:
  "re_status (fst (remove_backend sample_server ''a'' (en_world sample_engine))) = 204
   \<and> re_status (fst (remove_backend sample_server ''x'' (en_world sample_engine))) = 404"
proof -
  have p: "sv_proxy sample_server" by (simp add: sample_server_def engine_server_def)
  have "pool_find (wo_heap (en_world sample_engine)) (wo_pool (en_world sample_engine)) ''a'' \<noteq> None" by code_simp
  moreover have "pool_find (wo_heap (en_world sample_engine)) (wo_pool (en_world sample_engine)) ''x'' = None" by code_simp
  ultimately show ?thesis
    using admin_remove [OF sample_world_ok p, of "''a''"] admin_remove [OF sample_world_ok p, of "''x''"]
    by (simp add: split_beta Let_def)
qed

section \<open>The engine\<close>

theorem accepted_config_starts_witness:
  "\<exists>e. fst (new_engine (env_of sample_config) sample_valid ''openvcc.yaml'') = Inr e
     \<and> callable (pl_strategy (wo_pool (en_world e)))"
proof -
  have l: "engine_load (env_of sample_config) ''openvcc.yaml'' = Inr sample_valid"
    using sample_loads by (simp add: sample_valid_def)
  have s: "\<forall>a. \<exists>base. build_base_strategy (case cf_sticky sample_valid of None \<Rightarrow> cf_strategy sample_valid
                 | Some st \<Rightarrow> st_fallback_strategy st) a = Inr base"
  proof
    fix a
    have n: "(case cf_sticky sample_valid of None \<Rightarrow> cf_strategy sample_valid
                 | Some st \<Rightarrow> st_fallback_strategy st) = ''least_connections''" by code_simp
    have p: "parse_strategy ''least_connections'' = Inr LeastConnections" by code_simp
    show "\<exists>base. build_base_strategy (case cf_sticky sample_valid of None \<Rightarrow> cf_strategy sample_valid
                 | Some st \<Rightarrow> st_fallback_strategy st) a = Inr base"
      by (simp add: n build_base_strategy_def p)
  qed
  have t: "init_tracing (ev_parse_url (env_of sample_config)) (ev_trace (env_of sample_config)) (cf_tracing sample_valid) ''openvcc'' = Inr None"
    by (simp add: sample_valid_def apply_defaults_def sample_config_def init_tracing_def)
  have c: "tls_configs (ev_files (env_of sample_config)) (cf_backends sample_valid) Map.empty = Inr Map.empty"
    by (simp add: sample_valid_def apply_defaults_def sample_config_def sample_cfg_backend_def)
  show ?thesis using accepted_config_starts [OF l s t c] by blast
qed

theorem strategy_not_validated_witness:
  "validate (ev_parse_url (env_of sample_config)) (sample_valid\<lparr>cf_strategy := ''fastest''\<rparr>) = []
   \<and> fst (new_engine (env_of sample_config) (sample_valid\<lparr>cf_strategy := ''fastest''\<rparr>) ''p'')
       = Inl (BadStrategy (UnknownStrategy ''fastest''))"
proof -
  have s: "cf_sticky sample_valid = None" by (simp add: sample_valid_def apply_defaults_def sample_config_def)
  have p: "parse_strategy ''fastest'' = Inl (UnknownStrategy ''fastest'')" by code_simp
  have t: "init_tracing (ev_parse_url (env_of sample_config)) (ev_trace (env_of sample_config)) (cf_tracing sample_valid) ''openvcc'' = Inr None"
    by (simp add: sample_valid_def apply_defaults_def sample_config_def init_tracing_def)
  obtain bs where b: "build_backends (ev_parse_url (env_of sample_config)) (cf_backends sample_valid) = Inr bs"
    by (simp add: sample_valid_def apply_defaults_def sample_config_def sample_cfg_backend_def env_of_def)
  show ?thesis using strategy_not_validated [OF sample_valid s p t b, of "''p''"] by blast
qed


theorem reload_swaps_pool_witness:
  "world_ok (en_world (snd (reload (env_of sample_config) sample_engine)))
   \<and> callable (pl_strategy (wo_pool (en_world (snd (reload (env_of sample_config) sample_engine)))))"
proof -
  have "fst (reload (env_of sample_config) sample_engine) = None" by code_simp
  then obtain e' where e: "reload (env_of sample_config) sample_engine = (None, e')" by (cases "reload (env_of sample_config) sample_engine") simp
  from reload_swaps_pool [OF e] show ?thesis by (auto simp: e)
qed

theorem reload_failure_harmless_witness:
  "snd (reload ((env_of sample_config)\<lparr>ev_decode := (\<lambda>_. None)\<rparr>) sample_engine) = sample_engine"
proof -
  let ?r = "reload ((env_of sample_config)\<lparr>ev_decode := (\<lambda>_. None)\<rparr>) sample_engine"
  have "fst ?r = Some (LoadFailed YamlError)" by code_simp
  then have "?r = (Some (LoadFailed YamlError), snd ?r)" by (simp add: prod_eq_iff)
  from reload_failure_harmless [OF this] show ?thesis by simp
qed

theorem reload_tls_failure_half_applied_witness:
  "pl_all (wo_pool (en_world (snd (reload (env_of sample_tls_config) sample_engine)))) \<noteq> []
   \<and> ph_tls_by_backend (wo_handler (en_world (snd (reload (env_of sample_tls_config) sample_engine))))
     = ph_tls_by_backend (wo_handler (en_world sample_engine))"
proof -
  let ?r = "reload (env_of sample_tls_config) sample_engine"
  have "fst ?r = Some (BackendTls ''a'' KeypairError)" by code_simp
  then have "?r = (Some (BackendTls ''a'' KeypairError), snd ?r)" by (simp add: prod_eq_iff)
  from reload_tls_failure_half_applied [OF this] show ?thesis by blast
qed

theorem listeners_match_config_witness:
  "\<exists>ls. listeners (env_of sample_config) sample_engine = Inr ls \<and> (\<exists>l \<in> set ls. ls_handler l = AdminHandler)"
proof -
  have c: "en_cfg sample_engine = sample_valid"
    by (simp add: sample_valid_def) code_simp
  have l: "li_admin (cf_listen sample_valid) \<noteq> ''''" by code_simp
  have "\<not> isl (listeners (env_of sample_config) sample_engine)" by code_simp
  then obtain ls where ls: "listeners (env_of sample_config) sample_engine = Inr ls"
    by (cases "listeners (env_of sample_config) sample_engine") simp_all
  from listeners_match_config [of "ev_parse_url (env_of sample_config)" sample_engine "env_of sample_config"] sample_valid ls l
  show ?thesis by (simp add: c)
qed

section \<open>The running system\<close>

theorem inflight_conserved_witness: "bk_inflight (wo_heap (world_of sample_busy) 0) = 1"
proof -
  have "bk_inflight (wo_heap (world_of sample_busy) 0) = int (open_on 0 (sy_open sample_busy))"
    by (rule inflight_conserved [OF sample_busy_reach]) (simp_all add: sample_busy_open)
  then show ?thesis by (simp only: sample_busy_open of_nat_1)
qed

theorem service_never_panics_witness:
  "\<not> (fst (serve_choose 0 0 (sample_request ''GET'') (world_of sample_busy)) = ChoicePanic)"
  using service_never_panics [OF sample_busy_reach, of 0 0 "sample_request ''GET''"] by auto

text \<open>A configuration that sends writes to writeable backends, and its start.\<close>

definition sample_kinds :: config where
  "sample_kinds = sample_config\<lparr>cf_kind_routing := Some
     \<lparr>kr_write_methods = [], kr_write_kinds = [], kr_read_kinds = []\<rparr>\<rparr>"

definition start_of :: "config \<Rightarrow> system" where
  "start_of c = \<lparr>sy_engine = projr (fst (new_engine (env_of c) (apply_defaults c) ''openvcc.yaml'')),
     sy_open = [], sy_jobs = [], sy_probe = None\<rparr>"

lemma start_reach:
  assumes "engine_load (env_of c) ''openvcc.yaml'' = Inr (apply_defaults c)"
    and "\<not> isl (fst (new_engine (env_of c) (apply_defaults c) ''openvcc.yaml''))"
  shows "reach (env_of c) dh db (start_of c)"
proof -
  have "fst (new_engine (env_of c) (apply_defaults c) ''openvcc.yaml'') = Inr (sy_engine (start_of c))"
    using assms(2) by (simp add: start_of_def sum.collapse)
  with assms(1) show ?thesis unfolding start_of_def using reach.Start by (auto simp: start_of_def)
qed

lemma kinds_reach: "reach (env_of sample_kinds) dh db (start_of sample_kinds)"
  by (rule start_reach) code_simp+

lemma sample_loadable: "loadable (env_of c) cfg \<Longrightarrow> cfg = apply_defaults c"
  by (auto simp: loadable_def engine_load_def load_config_def parse_config_def env_of_def Let_def
      split: option.splits if_splits)



text \<open>A configuration with an egress budget for one cloud, and its start.\<close>

definition sample_budgets :: config where
  "sample_budgets = sample_config\<lparr>cf_strategy := ''cost_bounded_least_latency'', cf_cost := Some
     \<lparr>co_prices = [], co_budgets = [(''aws'', \<lparr>bg_window = 60000000000, bg_max_gb = Fin 1\<rparr>)]\<rparr>\<rparr>"

lemma budgets_reach: "reach (env_of sample_budgets) dh db (start_of sample_budgets)"
  by (rule start_reach) code_simp+


theorem stale_target_after_reload_witness:
  "rp_target (fst (serve_connect 2 (snd (serve_connect 0 (en_world (snd (reload (env_of sample_config) sample_engine))))))) = 0"
proof -
  let ?e = "snd (reload (env_of sample_config) sample_engine)"
  have "fst (reload (env_of sample_config) sample_engine) = None" by code_simp
  then have r: "reload (env_of sample_config) sample_engine = (None, ?e)" by (simp add: prod_eq_iff)
  have n: "wo_next (en_world sample_engine) = 2" by code_simp
  have p: "pl_all (wo_pool (en_world ?e)) = [2, 3]" by code_simp
  have "bk_name (wo_heap (en_world ?e) 2) = ''a''" by code_simp
  moreover have "bk_name (wo_heap (en_world sample_engine) 0) = ''a''" by code_simp
  ultimately show ?thesis
    using stale_target_after_reload [OF r, of 0 2] by (simp add: n p)
qed

theorem serve_after_validate_witness:
  "\<exists>eng n s. serve_command (env_of sample_config) ''openvcc.yaml'' = Inr eng
     \<and> validate_command (env_of sample_config) ''openvcc.yaml'' = Inr (n, s) \<and> 0 < n"
proof -
  have "\<not> isl (serve_command (env_of sample_config) ''openvcc.yaml'')" by code_simp
  then obtain eng where e: "serve_command (env_of sample_config) ''openvcc.yaml'' = Inr eng"
    by (cases "serve_command (env_of sample_config) ''openvcc.yaml''") simp_all
  from serve_after_validate [of "env_of sample_config" "''openvcc.yaml''", THEN conjunct1] e show ?thesis by blast
qed

section \<open>Chaos runs\<close>

definition sample_options :: options where
  "sample_options = \<lparr>op_admin_url = ''http://a'', op_admin_token = ''t'', op_proxy_url = ''http://p'',
     op_fail_cloud = ''aws'', op_duration = 30000000000, op_rps = 0, op_concurrency = 0\<rparr>"

definition sample_outside :: "(int \<times> shot) list \<Rightarrow> outside" where
  "sample_outside xs = \<lparr>ou_backends = Some [\<lparr>tg_name = ''a'', tg_cloud = ''aws''\<rparr>, \<lparr>tg_name = ''b'', tg_cloud = ''azure''\<rparr>],
     ou_mark = (\<lambda>_. True), ou_started = 1000, ou_marked = 2000, ou_ended = 30000002000, ou_shots = xs\<rparr>"

lemma sample_run: "xs \<in> {[(1500, ShotAnswered 200 ''azure''), (3000, ShotAnswered 200 ''azure'')],
      [(1500, ShotAnswered 200 ''aws''), (3000, ShotAnswered 200 ''azure'')]} \<Longrightarrow>
    \<exists>r calls. chaos_run (sample_outside xs) sample_options = (Inr r, calls)"
proof -
  assume "xs \<in> {[(1500, ShotAnswered 200 ''azure''), (3000, ShotAnswered 200 ''azure'')],
      [(1500, ShotAnswered 200 ''aws''), (3000, ShotAnswered 200 ''azure'')]}"
  moreover have "\<not> isl (fst (chaos_run (sample_outside [(1500, ShotAnswered 200 ''azure''), (3000, ShotAnswered 200 ''azure'')]) sample_options))"
    by code_simp
  moreover have "\<not> isl (fst (chaos_run (sample_outside [(1500, ShotAnswered 200 ''aws''), (3000, ShotAnswered 200 ''azure'')]) sample_options))"
    by code_simp
  ultimately have "\<not> isl (fst (chaos_run (sample_outside xs) sample_options))" by (elim insertE emptyE) simp_all
  then show ?thesis by (metis isl_def prod.collapse sum.collapse(2))
qed

theorem chaos_verdict_witness:
  "\<exists>r calls. chaos_run (sample_outside [(1500, ShotAnswered 200 ''azure''), (3000, ShotAnswered 200 ''azure'')]) sample_options
      = (Inr r, calls) \<and> re_result r = ''pass''"
proof -
  obtain r calls where r: "chaos_run (sample_outside [(1500, ShotAnswered 200 ''azure''), (3000, ShotAnswered 200 ''azure'')]) sample_options
      = (Inr r, calls)" using sample_run by blast
  have h: "hits ''aws'' [(1500, ShotAnswered 200 ''azure''), (3000, ShotAnswered 200 ''azure'')] = 0"
    "failures [(1500, ShotAnswered 200 ''azure''), (3000, ShotAnswered 200 ''azure'')] = 0"
    "first_hit [(1500, ShotAnswered 200 ''azure''), (3000, ShotAnswered 200 ''azure'')] = 1500" by code_simp+
  from chaos_verdict [OF r] have "re_result r = ''pass''"
    by (simp add: sample_outside_def sample_options_def h sat64_def)
  with r show ?thesis by blast
qed

theorem failover_lag_blind_witness:
  "\<exists>r calls. chaos_run (sample_outside [(1500, ShotAnswered 200 ''aws''), (3000, ShotAnswered 200 ''azure'')]) sample_options
      = (Inr r, calls) \<and> re_lag r \<le> 0"
proof -
  obtain r calls where r: "chaos_run (sample_outside [(1500, ShotAnswered 200 ''aws''), (3000, ShotAnswered 200 ''azure'')]) sample_options
      = (Inr r, calls)" using sample_run by blast
  have h: "first_hit [(1500, ShotAnswered 200 ''aws''), (3000, ShotAnswered 200 ''azure'')] = 1500" by code_simp
  from failover_lag_blind [OF r] have "re_lag r \<le> 0" by (simp add: sample_outside_def h)
  with r show ?thesis by blast
qed

section \<open>The driver\<close>

definition sample_events :: "driver_event list" where
  "sample_events = concat (replicate 3 [Tick, Take, Finish 5 (ShotAnswered 200 ''azure'')]) @ [Tick, Tick, Cancel]"

definition sample_drain :: "driver_event list" where
  "sample_drain = [Take, FinishDoomed 9, Take, Close, FinishDoomed 9, Exit]"

lemma some_the: "x \<noteq> None \<Longrightarrow> x = Some (the x)"
  by (cases x) simp_all

lemma sample_drive:
  "drive 1 sample_events (start_driver 1) = Some (the (drive 1 sample_events (start_driver 1)))"
  "drive 1 sample_drain (the (drive 1 sample_events (start_driver 1)))
     = Some (the (drive 1 sample_drain (the (drive 1 sample_events (start_driver 1)))))"
  by (rule some_the; code_simp)+

theorem driver_counts_sequentially_witness:
  "ds_queue (the (drive 1 (sample_events @ sample_drain) (start_driver 1))) = 0"
proof -
  have "drive 1 (sample_events @ sample_drain) (start_driver 1)
      = Some (the (drive 1 (sample_events @ sample_drain) (start_driver 1)))"
    by (rule some_the) code_simp
  moreover have "driver_done 1 (the (drive 1 (sample_events @ sample_drain) (start_driver 1)))" by code_simp
  ultimately show ?thesis using driver_counts_sequentially [of 1] by simp
qed

theorem driver_drains_witness:
  "let s = the (drive 1 (sample_events @ [Close]) (start_driver 1)) in
   drive_step 1 Exit (the (drive 1 [Take, FinishDoomed 9, Take, FinishDoomed 9, Exit] s)) = None"
proof -
  let ?s = "the (drive 1 (sample_events @ [Close]) (start_driver 1))"
  let ?t = "the (drive 1 [Take, FinishDoomed 9, Take, FinishDoomed 9, Exit] ?s)"
  have s: "drive 1 (sample_events @ [Close]) (start_driver 1) = Some ?s" by (rule some_the) code_simp
  have t: "drive 1 [Take, FinishDoomed 9, Take, FinishDoomed 9, Exit] ?s = Some ?t" by (rule some_the) code_simp
  have c: "ds_closed ?s" by code_simp
  have d: "driver_done 1 ?t" by code_simp
  from driver_drains [OF s c t] d show ?thesis unfolding Let_def by blast
qed

text \<open>Three requests answered 200 by a healthy cloud, and yet more than a fifth failed.\<close>

theorem drain_counts_failures_witness:
  "let s = the (drive 1 sample_drain (the (drive 1 sample_events (start_driver 1))))
   in 2 \<le> dr_failed (ds_counters s) \<and> dr_total (ds_counters s) < 5 * dr_failed (ds_counters s)"
proof -
  let ?s = "the (drive 1 sample_events (start_driver 1))" and
    ?t = "the (drive 1 sample_drain (the (drive 1 sample_events (start_driver 1))))"
  have h: "ds_cancelled ?s" "driver_done 1 ?t" by code_simp+
  have l: "length (shots (sample_events @ sample_drain)) = 5" "ds_queue ?s = 2" "dr_total (ds_counters ?t) = 5" by code_simp+
  have len: "length (shots (sample_events @ sample_drain)) < 2 ^ 63" unfolding l(1) by simp
  have "int (failures (shots sample_events) + ds_queue ?s) \<le> dr_failed (ds_counters ?t)"
    using drain_counts_failures [OF sample_drive(1) h(1) sample_drive(2) h(2) zero_less_one len] by (rule conjunct1)
  then have "2 \<le> dr_failed (ds_counters ?t)" unfolding l(2) by linarith
  then show ?thesis unfolding Let_def l(3) by linarith
qed

section \<open>Chaos through the admin API\<close>

definition sample_api :: "engine_error server" where
  "sample_api = sample_server\<lparr>sv_decode_health := (\<lambda>b. if b = health_body True then Some (Some True)
     else if b = health_body False then Some (Some False) else None)\<rparr>"

lemma health_body_distinct: "health_body True \<noteq> health_body False"
  by (simp add: health_body_def)

lemma sample_api:
  "sv_token sample_api \<noteq> ''''" "trimmed (sv_token sample_api)"
  "sv_decode_health sample_api (health_body v) = Some (Some v)"
  "\<forall>n \<in> set (cloud_names (en_world sample_engine) ''aws''). plain_name n"
  "cloud_names (en_world sample_engine) ''aws'' \<noteq> []"
proof -
  have t: "sv_token sample_api = ''secret''" by code_simp
  show "sv_token sample_api \<noteq> ''''" "trimmed (sv_token sample_api)" by (simp add: t, unfold t, code_simp)
  show "sv_decode_health sample_api (health_body v) = Some (Some v)"
    using health_body_distinct by (cases v) (simp_all add: sample_api_def)
  show "\<forall>n \<in> set (cloud_names (en_world sample_engine) ''aws''). plain_name n" by code_simp
  show "cloud_names (en_world sample_engine) ''aws'' \<noteq> []" by code_simp
qed


theorem chaos_run_enables_witness:
  "\<exists>w1. fail_cloud sample_api (sv_token sample_api) ''aws'' (en_world sample_engine)
       = (Inr (cloud_names (en_world sample_engine) ''aws''), w1)
     \<and> bk_healthy (wo_heap (restore_through sample_api (sv_token sample_api)
          (cloud_names (en_world sample_engine) ''aws'') w1) 0)"
proof -
  let ?w = "en_world sample_engine"
  let ?w1 = "fold (mark sample_api (health_body False)) (cloud_names ?w ''aws'') ?w"
  have f: "fail_cloud sample_api (sv_token sample_api) ''aws'' ?w = (Inr (cloud_names ?w ''aws''), ?w1)"
    by (rule fail_cloud_marks [OF sample_api])
  have r: "0 \<in> set (pl_all (wo_pool ?w))" "bk_cloud (wo_heap ?w 0) = ''aws''" by code_simp+
  have d: "\<forall>v. sv_decode_health sample_api (health_body v) = Some (Some v)" using sample_api(3) by blast
  from chaos_run_enables [OF sample_world_ok sample_api(1,2) d sample_api(4) r(1) f] f show ?thesis
    by (simp add: r(2) set_healthy_def)
qed

theorem slash_name_unreachable_witness:
  "set_health sample_api ''secret'' (''eu'' @ ''/'' @ ''a'') False (en_world sample_engine) = (False, en_world sample_engine)"
  by (rule slash_name_unreachable) code_simp+

section \<open>Running and reloading\<close>

definition sample_run_state :: run_state where
  "sample_run_state = projr (run_start (env_of sample_config) sample_engine)"

lemma sample_run_start: "run_start (env_of sample_config) sample_engine = Inr sample_run_state"
proof -
  have "\<not> isl (run_start (env_of sample_config) sample_engine)" by code_simp
  then show ?thesis by (simp add: sample_run_state_def sum.collapse)
qed



text \<open>Two reloads of a file with a cost block that overlap.\<close>

definition sample_cost_env :: env where
  "sample_cost_env = env_of (sample_config\<lparr>cf_strategy := ''cost_bounded_least_latency'',
     cf_cost := Some \<lparr>co_prices = [], co_budgets = [(''aws'', sample_budget)]\<rparr>\<rparr>)"

abbreviation "first_begin \<equiv> reload_begin sample_cost_env sample_engine"
abbreviation "first_step \<equiv> job_step sample_cost_env (projr (fst first_begin)) (snd first_begin)"
abbreviation "second_begin \<equiv> reload_begin sample_cost_env (snd first_step)"
abbreviation "second_end \<equiv> job_steps 10 sample_cost_env (projr (fst second_begin)) (snd second_begin)"
abbreviation "first_end \<equiv> job_steps 10 sample_cost_env (fst first_step) (snd second_end)"

theorem overlapping_reloads_mix_witness:
  "\<exists>(e :: engine) a. pl_strategy (wo_pool (en_world e)) = CostBounded (Some a) 0 \<and> ph_accountant (wo_handler (en_world e)) \<noteq> Some a"
proof -
  have b: "\<not> isl (fst first_begin)" "\<not> isl (fst second_begin)" by code_simp+
  have b1: "first_begin = (Inr (projr (fst first_begin)), snd first_begin)"
    using b(1) by (simp add: prod_eq_iff sum.collapse)
  have b2: "second_begin = (Inr (projr (fst second_begin)), snd second_begin)"
    using b(2) by (simp add: prod_eq_iff sum.collapse)
  have p: "rj_pc (fst second_end) = AtEnd None" "rj_pc (fst first_end) = AtEnd None" by code_simp+
  have c: "cf_cost (rj_cfg (projr (fst first_begin))) \<noteq> None"
    "cf_strategy (rj_cfg (projr (fst first_begin))) = ''cost_bounded_least_latency''"
    "cf_sticky (rj_cfg (projr (fst first_begin))) = None" "cf_kind_routing (rj_cfg (projr (fst first_begin))) = None"
    by code_simp+
  from overlapping_reloads_mix [OF b1 prod.collapse [symmetric] b2 prod.collapse [symmetric] p(1) prod.collapse [symmetric] p(2) c]
  show ?thesis by blast
qed

end
