(* ===== verification/WitnessesIO.thy ===== *)
theory WitnessesIO
  imports Witnesses Serving Cli Workloads Failover
begin

text \<open>
  Inputs at which the hypotheses of the properties about serving, failover, report files, the
  command line and the example workloads hold.
\<close>

section \<open>Serving\<close>

theorem serve_http_balances_witness:
  "bk_inflight (wo_heap (snd (serve_http None ''/x'' 0 9 0 5 (Failed [] DeadlineExceeded) (sample_request ''GET'') sample_world)) 0) = 0"
proof -
  obtain x w' where e: "serve_http None ''/x'' 0 9 0 5 (Failed [] DeadlineExceeded) (sample_request ''GET'') sample_world = (x, w')"
    by fastforce
  have z: "bk_inflight (wo_heap sample_world r) = 0" for r
    by (simp add: sample_world_def sample_heap_def store_at_get sample_backend_def with_kind_def new_backend_def nth_Cons')
  from serve_http_balances [OF e] have "bk_inflight (wo_heap w' 0) = bk_inflight (wo_heap sample_world 0)"
    by (simp add: z in_int64_def)
  then show ?thesis by (simp add: e z)
qed


section \<open>Reports and the command line\<close>

definition sample_io :: sys_io where
  "sample_io = \<lparr>io_mkdir = (\<lambda>d. True), io_create = (\<lambda>p. True), io_room = (\<lambda>p. 9), io_stdout_room = 99,
     io_json = (\<lambda>r. take 9 (re_failed_cloud r)), io_stamp = (\<lambda>t. if t < 10 then ''A'' else ''B''),
     io_duration = (\<lambda>d. ''0s'')\<rparr>"

definition sample_outlet :: outlet where
  "sample_outlet = \<lparr>ol_stdout = '''', ol_disk = Map.empty\<rparr>"

definition chaos_outside :: "int \<Rightarrow> outside" where
  "chaos_outside t = \<lparr>ou_backends = Some [\<lparr>tg_name = ''a'', tg_cloud = ''aws''\<rparr>, \<lparr>tg_name = ''b'', tg_cloud = ''azure''\<rparr>],
     ou_mark = (\<lambda>n. True), ou_started = 1, ou_marked = 2, ou_ended = t, ou_shots = [(3, ShotAnswered 200 ''gcp'')]\<rparr>"

definition sample_schedule :: schedule_flags where
  "sample_schedule = \<lparr>sf_options = \<lparr>op_admin_url = ''http://a'', op_admin_token = ''t'', op_proxy_url = ''http://p'',
       op_fail_cloud = '''', op_duration = 10, op_rps = 1, op_concurrency = 1\<rparr>,
     sf_clouds = [''aws'', ''azure''], sf_every = 5, sf_max_runs = 0, sf_stop = False, sf_dir = ''./r//'', sf_prefix = ''c''\<rparr>"

definition sample_runs :: "(outside \<times> int) list" where
  "sample_runs = [(chaos_outside 5, 5), (chaos_outside 15, 15)]"

lemma sample_roomy: "roomy sample_io" "plain_stamps sample_io"
  by (simp_all add: roomy_def plain_stamps_def sample_io_def)

theorem schedule_archives_witness:
  "ol_disk (snd (snd (schedule sample_io (\<lambda>_. '''') sample_schedule sample_runs sample_outlet))) ''r/c-A.json'' = Some ''aws''"
proof -
  obtain cs e ol' where s: "schedule sample_io (\<lambda>_. '''') sample_schedule sample_runs sample_outlet = (cs, e, ol')"
    using prod_cases3 by blast
  have "length (fst (schedule sample_io (\<lambda>_. '''') sample_schedule sample_runs sample_outlet)) = 2" by code_simp
  then have n: "length cs = 2" by (simp add: s)
  have fl: "sample_schedule = sample_schedule\<lparr>sf_options := (sf_options sample_schedule)\<lparr>op_admin_token :=
      admin_token (\<lambda>_. '''') (op_admin_token (sf_options sample_schedule))\<rparr>\<rparr>"
    by (simp add: sample_schedule_def admin_token_def)
  define r where "r = projr (tick_report sample_schedule 0 (sample_runs ! 0))"
  have "\<not> isl (tick_report sample_schedule 0 (sample_runs ! 0))" by code_simp
  then have r: "tick_report sample_schedule 0 (sample_runs ! 0) = Inr r" by (simp add: r_def sum.collapse)
  have st: "report_stamp sample_io 5 r = ''A''" unfolding r_def by code_simp
  have "\<not> isl (tick_report sample_schedule 1 (sample_runs ! 1))"
    "report_stamp sample_io 15 (projr (tick_report sample_schedule 1 (sample_runs ! 1))) = ''B''" by code_simp+
  then have st1: "report_stamp sample_io 15 r' = ''B''" if "tick_report sample_schedule 1 (sample_runs ! 1) = Inr r'" for r'
    using that by simp
  have t: "snd (sample_runs ! 0) = 5" "snd (sample_runs ! 1) = 15" by (simp_all add: sample_runs_def)
  have "ol_disk ol' (report_path sample_io sample_schedule (snd (sample_runs ! 0)) r) = Some (io_json sample_io r)"
  proof (rule schedule_archives [OF sample_roomy s fl])
    show "0 < length cs" by (simp add: n)
    show "tick_report sample_schedule 0 (sample_runs ! 0) = Inr r" by (rule r)
    fix j r' assume "0 < j" "j < length cs" and j: "tick_report sample_schedule j (sample_runs ! j) = Inr r'"
    then have "j = 1" using n by simp
    with j st st1 show "report_stamp sample_io (snd (sample_runs ! j)) r' \<noteq> report_stamp sample_io (snd (sample_runs ! 0)) r"
      by (simp only: t) simp
  qed
  moreover have "report_path sample_io sample_schedule (snd (sample_runs ! 0)) r = ''r/c-A.json''"
    "io_json sample_io r = ''aws''" unfolding r_def by code_simp+
  ultimately show ?thesis by (simp add: s)
qed

theorem run_command_output_witness:
  "ol_disk (snd (run_command sample_io (\<lambda>_. '''') ''r.json'' (sf_options sample_schedule) 5 (chaos_outside 5)
     (create_file ''r.json'' sample_outlet))) ''r.json'' = Some ''''"
proof -
  obtain x ol' where s: "run_command sample_io (\<lambda>_. '''') ''r.json'' (sf_options sample_schedule) 5 (chaos_outside 5)
     (create_file ''r.json'' sample_outlet) = (x, ol')" by fastforce
  have "case fst (run_command sample_io (\<lambda>_. '''') ''r.json'' (sf_options sample_schedule) 5 (chaos_outside 5)
     (create_file ''r.json'' sample_outlet)) of RunFailed (RunRejected FailCloudRequired) \<Rightarrow> True | _ \<Rightarrow> False" by code_simp
  then have "x = RunFailed (RunRejected FailCloudRequired)"
    by (simp add: s split: run_exit.splits run_error.splits chaos_error.splits)
  with run_command_output [OF _ _ s] have "ol_disk ol' ''r.json'' = Some ''''" by (simp add: create_file_def)
  then show ?thesis by (simp only: s snd_conv)
qed

definition sample_process :: process where
  "sample_process = \<lparr>ps_env = env_of sample_config, ps_io = sample_io, ps_events = [],
     ps_run = (chaos_outside 5, 5), ps_schedule = [], ps_platform = ''linux/amd64''\<rparr>"

theorem chaos_run_exit_witness:
  "main_exit (fst (execute sample_process [''chaos'', ''run''] [''fail'' \<mapsto> FString ''aws''] sample_outlet)) = 0"
proof -
  let ?v = "flag_values chaos_run_flags [''fail'' \<mapsto> FString ''aws'']"
  let ?opts = "chaos_options ?v (text_of (?v ''fail''))"
  let ?run = "fst (chaos_run (fst (ps_run sample_process))
      (?opts\<lparr>op_admin_token := admin_token (ev_getenv (ps_env sample_process)) (op_admin_token ?opts)\<rparr>))"
  have "\<not> isl ?run" by code_simp
  then have "?run = Inr (projr ?run)" by (simp add: sum.collapse)
  moreover have "re_result (projr ?run) = ''pass''" by code_simp
  moreover have "deliverable (ps_io sample_process) (text_of (?v ''output'')) (projr ?run)" by code_simp
  ultimately show ?thesis
    using chaos_run_exit [of "[''fail'' \<mapsto> FString ''aws'']" ?v ?opts sample_process sample_outlet] by auto
qed

section \<open>The workloads\<close>

text \<open>A database as a list of rows, stamped in the order of insertion; it is down when empty.\<close>

definition list_db :: "row list database" where
  "list_db = \<lparr>db_connect = (\<lambda>dsn. None), db_ping = (\<lambda>d. if d = [] then Some ''down'' else None),
     db_schema = (\<lambda>d. (None, d)),
     db_insert = (\<lambda>t c d. let r = \<lparr>rw_id = itoa (int (length d)), rw_text = t, rw_cloud = Some c, rw_created = int (length d)\<rparr>
                          in (Inr r, r # d)),
     db_select = (\<lambda>n d. Inr (take (nat n) (rev (sort_key rw_created d)), None))\<rparr>"

lemma newest_take: "newest n (mset d) (take n (rev (sort_key rw_created d)))"
proof -
  let ?l = "rev (sort_key rw_created d)"
  have split: "mset d = mset (take n ?l) + mset (drop n ?l)"
    by (simp flip: mset_append)
  have sorted: "sorted_wrt (\<lambda>a b. rw_created b \<le> rw_created a) ?l"
    using sorted_sort_key [of rw_created d] by (simp add: sorted_wrt_rev sorted_map)
  then have "sorted_wrt (\<lambda>a b. rw_created b \<le> rw_created a) (take n ?l @ drop n ?l)" by simp
  then have "sorted_wrt (\<lambda>a b. rw_created b \<le> rw_created a) (take n ?l)"
    "\<forall>a \<in> set (take n ?l). \<forall>b \<in> set (drop n ?l). rw_created b \<le> rw_created a"
    unfolding sorted_wrt_append by blast+
  then show ?thesis unfolding newest_def split by auto
qed

lemma list_db_table: "sql_table list_db mset"
  by (auto simp: sql_table_def list_db_def Let_def newest_take)

definition sample_settings :: settings where
  "sample_settings = \<lparr>se_listen = '':8000'', se_cloud = ''aws'', se_region = ''eu'', se_dsn = ''d'', se_hostname = ''h''\<rparr>"

theorem post_then_list_witness:
  "\<exists>n ns. hr_body (fst (post_notes list_db Some sample_settings ''hello'' [])) = JsonNote n \<and> nt_text n = ''hello''
     \<and> hr_body (get_notes list_db (snd (post_notes list_db Some sample_settings ''hello'' []))) = JsonNotes ns \<and> n \<in> set ns"
proof -
  obtain reply d' where p: "post_notes list_db Some sample_settings ''hello'' [] = (reply, d')" by fastforce
  have "hr_status (fst (post_notes list_db Some sample_settings ''hello'' [])) = 201"
    "hr_status (get_notes list_db (snd (post_notes list_db Some sample_settings ''hello'' []))) = 200"
    "length (snd (post_notes list_db Some sample_settings ''hello'' [])) = 1" by code_simp+
  then have f: "hr_status reply = 201" "hr_status (get_notes list_db d') = 200" "length d' = 1" by (simp_all add: p)
  have "size (filter_mset (\<lambda>q. rw_created r \<le> rw_created q) (mset d')) \<le> 100" for r
    using size_filter_mset_lesseq [of "\<lambda>q. rw_created r \<le> rw_created q" "mset d'"] f(3) by simp
  from post_then_list [OF list_db_table p f(1) refl f(2) this] show ?thesis by (auto simp: p)
qed

text \<open>A notes server whose database is down in two rounds of probes.\<close>

definition sample_store :: store where
  "sample_store = \<lparr>so_max_open = 8, so_max_idle = 4, so_lifetime = 0\<rparr>"

definition notes_round :: round where
  "notes_round = (round_of True)\<lparr>rd_net := (\<lambda>url. Answered
     (hr_status (fst (notes_mux list_db Some sample_settings 0 (Some sample_store) ''GET'' ''/healthz'' '''' []))) 7)\<rparr>"

theorem database_decides_rotation_witness:
  "\<not> bk_healthy (fst (snd (run_rounds ([round_of True] @ [notes_round, notes_round])
        (new_checker sample_health True) sample_heap)) 0)"
proof -
  have apart: "named_apart sample_heap {0, 1}"
  proof -
    have "bk_name (sample_heap 0) \<noteq> bk_name (sample_heap 1)" by code_simp
    then show ?thesis by (auto simp: named_apart_def)
  qed
  have cfg: "he_status_floor sample_health \<le> 200" "200 \<le> he_status_ceil sample_health"
    "he_status_ceil sample_health < 503" "he_unhealthy_threshold sample_health = 2" by code_simp+
  have "bk_healthy (fst (snd (run_rounds ([round_of True] @ [notes_round, notes_round])
        (new_checker sample_health True) sample_heap)) 0) = False"
    by (rule database_decides_rotation [where db = list_db and decode = Some and c = sample_settings and now = 0
          and s = sample_store and st = "\<lambda>_. []" and took = "\<lambda>_. 7", OF sample_health_valid cfg(1-3) apart])
      (use cfg(4) in \<open>auto simp: round_of_def notes_round_def list_db_def\<close>)
  then show ?thesis by simp
qed

section \<open>Failover\<close>

definition good_arrival :: arrival where
  "good_arrival = \<lparr>ar_request = sample_request ''GET'', ar_target = ''/x'', ar_now = 0, ar_later = 9, ar_draw = 0,
     ar_dur = 5, ar_upstream = Responded [] 200 [] [5] False\<rparr>"

lemma any_run: "\<exists>r calls. chaos_run (sample_outside xs) sample_options = (Inr r, calls)"
  by (simp add: chaos_run_def sample_outside_def sample_options_def validate_options_def filter_cloud_def Let_def split_beta)


end
