(* ===== verification/Spec2Isabelle.thy ===== *)
theory Spec2Isabelle
  imports KindSafety BudgetSafety Draining Serving Cli Driver ChaosClient Failover Workloads Witnesses WitnessesIO
begin

text \<open>
  A verification of Open VCC, a load balancer and connector for workloads that run in several
  clouds (Go sources under \<^verbatim>\<open>src/\<close>).

  \<^bold>\<open>The program.\<close>  \<^verbatim>\<open>cmd/openvcc\<close> loads a YAML file (\<^verbatim>\<open>internal/config\<close>), builds an engine from it
  (\<^verbatim>\<open>internal/engine\<close>) and runs it: a proxy handler (\<^verbatim>\<open>internal/proxy\<close>) that picks a backend
  from a pool (\<^verbatim>\<open>internal/pool\<close>) by a composed strategy, an active health checker
  (\<^verbatim>\<open>internal/health\<close>), an egress accountant with budgets (\<^verbatim>\<open>internal/cost\<close>), an admin API
  (\<^verbatim>\<open>internal/admin\<close>) and metrics.  \<^verbatim>\<open>internal/chaos\<close> drives traffic at a running engine,
  fails one cloud through the admin API and judges the result.  All parts share the pool's
  backend objects, whose health flag, in-flight counter and latency average are atomics.

  \<^bold>\<open>The theories\<close>, in the order of their imports:

  \<^item> \<open>GoBase\<close>: Go's \<^verbatim>\<open>int64\<close> and \<^verbatim>\<open>uint64\<close> arithmetic, \<^verbatim>\<open>float64\<close> values as rationals with
    infinities and NaN, strings as lists of ASCII characters, search loops.
  \<^item> \<open>Ewma64\<close>, \<open>Backends\<close> (\<^verbatim>\<open>pool/pool.go\<close>): backend objects on a heap addressed by \<open>bref\<close>, and
    the float64 latency average with its compare-and-swap loop.  Lemmas: the average stays
    between sample and old value and never returns to \<open>unsampled\<close>.
  \<^item> \<open>CostWindow\<close>, \<open>CostAccountant\<close> (\<^verbatim>\<open>cost/window.go\<close>, \<^verbatim>\<open>cost/accountant.go\<close>): the ring of samples
    refines the plain log of calls up to one bucket (locale \<open>egress_meter\<close>).
  \<^item> \<open>Strategies\<close>, \<open>Sticky\<close>, \<open>Routing\<close>, \<open>Pool\<close> (\<^verbatim>\<open>pool/strategy.go\<close>, \<^verbatim>\<open>sticky.go\<close>, \<^verbatim>\<open>kind.go\<close>, \<^verbatim>\<open>pool.go\<close>):
    every strategy as a function of counter, health view and accountants; \<open>select\<close> composes
    them as the interface does.  Lemmas: fairness (locale \<open>cyclic_schedule\<close>), picks are healthy
    members (locale \<open>selector\<close>), kind safety, affinity, the pool as a registry of names
    (locale \<open>registry\<close>).
  \<^item> \<open>Config\<close> (\<^verbatim>\<open>config/config.go\<close>): defaults and validation against the declarative
    \<open>config_valid\<close>.  \<open>Tls\<close> (\<^verbatim>\<open>proxy/tls.go\<close> and the TLS builders of \<^verbatim>\<open>engine.go\<close>).
  \<^item> \<open>Metrics\<close>, \<open>Proxy\<close>, \<open>Admin\<close> (\<^verbatim>\<open>metrics/metrics.go\<close>, \<^verbatim>\<open>proxy/proxy.go\<close>, \<^verbatim>\<open>admin/admin.go\<close>):
    the request path in the five steps at which other goroutines can come in (\<open>serve_choose\<close>,
    \<open>serve_admit\<close>, \<open>serve_connect\<close>, \<open>serve_respond\<close>, \<open>serve_release\<close>), the cache of reverse proxies (locale \<open>memo_table\<close>), the
    status writer, cookies, and the handlers of the admin API, all on one record \<open>world\<close>.
    \<open>Serving\<close>: the whole handler undisturbed, with its span, deadline and rewrite.
  \<^item> \<open>Health\<close> (\<^verbatim>\<open>health/health.go\<close>): the checker refines an automaton per backend (locale
    \<open>hysteresis\<close>).
  \<^item> \<open>Observability\<close> (\<^verbatim>\<open>log/log.go\<close>, \<^verbatim>\<open>tracing/tracing.go\<close>), \<open>Engine\<close> (\<^verbatim>\<open>engine/engine.go\<close>):
    construction, reload in one step, listeners.  \<open>Lifecycle\<close>: \<^verbatim>\<open>Run\<close> and \<^verbatim>\<open>shutdown\<close> as a
    state machine.  \<open>Reloading\<close>: a reload cut at its locks, equivalent to the one-step
    reload when undisturbed.
  \<^item> \<open>System\<close>: the running program as a transition system of requests, probes, admin calls and
    reloads; \<open>sys_ok\<close> is its invariant, \<open>reach\<close> its reachable states.  \<open>KindSafety\<close>: laws of the
    strategy in use in every reachable state (locale \<open>strategy_law\<close>), interpreted for kind
    routing and the absence of panics; \<open>BudgetSafety\<close> interprets it for egress budgets.
    \<open>Draining\<close>: the measure of what open requests have left to do, and that it reaches zero.
  \<^item> \<open>Chaos\<close>, \<open>Driver\<close>, \<open>ChaosClient\<close> (\<^verbatim>\<open>chaos/chaos.go\<close>): a chaos run and its verdict, the
    driver's goroutines as a state machine that refines the sequential count, and its HTTP
    calls against the modelled admin API.  \<open>Failover\<close>: a run against the program itself; \<open>live\<close>
    is what the marking establishes and every served request keeps.
  \<^item> \<open>Commands\<close> (with \<^verbatim>\<open>pkg/engine/engine.go\<close>), \<open>Reports\<close> (\<^verbatim>\<open>chaos/sink.go\<close>), \<open>Cli\<close>: the commands
    of \<^verbatim>\<open>cmd/openvcc/main.go\<close>, the report sinks with what they leave on disk, the command tree
    with its flags, and the exit status.
  \<^item> \<open>Workloads\<close> (\<^verbatim>\<open>examples/notes\<close>, \<^verbatim>\<open>examples/echo\<close>): the example servers; the health
    endpoint of the notes server against the checker.
  \<^item> \<open>Samples\<close>, \<open>Witnesses\<close>, \<open>WitnessesIO\<close>: concrete data, and for every property with hypotheses an input at
    which they hold.

  \<^bold>\<open>Parameters.\<close>  Code that is not in the repository is an argument of the definitions: reading
  files, key pairs and certificates (\<open>files\<close>), creating and writing files and formatting
  reports and times (\<open>sys_io\<close>), decoding YAML and JSON, \<^verbatim>\<open>url.Parse\<close>, environment variables,
  whether a trace exporter starts, the parser of the command line, the SQL database
  (\<open>database\<close>, with \<open>sql_table\<close> as its documented behaviour), what an upstream answers
  (\<open>upstream\<close>, \<open>probe\<close>, \<open>shot\<close>), clocks and random draws.  Hypotheses about them are stated in
  the theorems.

  \<^bold>\<open>Grain and bounds.\<close>  Operations under one lock are one step, as are reads and writes of an
  atomic; a request is cut between them where another goroutine can change what it reads
  next, and a probe's report between reading the health flag and writing it.  The gauge of
  in-flight requests is set in one step with the counter it shows.  In a system run the functions of
  the environment are fixed while its files may change between any two steps.  Counters
  wrap as in Go; theorems that count say how many events they allow (fewer than \<open>2 ^ 63\<close>).
  Floats are exact rationals except in \<open>Ewma64\<close>, which rounds to nearest even at 53 bits;
  its values are those of a processor without fused multiply-add.  The ratio test of a chaos
  verdict is exact for fewer than \<open>2 ^ 52\<close> requests.  No definition needs fuel: loops are
  structural recursions, and state machines run on lists of events.

  \<^bold>\<open>Not modelled.\<close>  Log lines and help texts; the parsing of the command line and signals; the
  HTTP, TLS, SQL, OpenTelemetry, Prometheus and ACME libraries beyond the documented
  behaviour the code relies on, the propagation of trace contexts included; the deployment
  and infrastructure files.
\<close>

section \<open>Least loaded backends\<close>

text \<open>The choices of requests that arrive one after another before any of them is counted.\<close>

fun choose_all :: "(int \<times> nat \<times> request) list \<Rightarrow> world \<Rightarrow> choice list" where
  "choose_all [] w = []"
| "choose_all ((now, draw, req) # rest) w =
     (let (c, w) = serve_choose now draw req w in c # choose_all rest w)"

lemma lc_pick_least:
  assumes "lc_pick h healthy = Pick r" and "q \<in> set healthy"
  shows "bk_inflight (h r) \<le> bk_inflight (h q)"
proof (cases healthy)
  case (Cons b rs)
  then show ?thesis
    using min_loop_least [of q b rs "\<lambda>q. bk_inflight (h q)"] assms by (auto simp: lc_pick_def)
qed (use assms in simp)





end
